(* ===== verification/Prelude.thy ===== *)
theory Prelude
  imports Main "HOL-Library.Word" "HOL-Library.Char_ord" "HOL-Library.List_Lexorder"
    "HOL-Library.Product_Lexorder"
begin

text \<open>
  The shared part of the development: Go's error values, the string functions of its
  standard library that the agent calls, durations and instants, and the generic lemmas
  on lists, options and strings the component theories use.

  A Go \<open>error\<close> is a \<open>goerr\<close>: the sentinels it wraps (what \<open>errors.Is\<close> looks at) and
  its text. A fallible operation on a state returns \<open>(goerr + 'a) \<times> 'state\<close>: the state is
  returned on the error path too, because the code keeps running on it.
  Go strings are byte sequences (\<open>string\<close>), taken to be valid UTF-8, which is what the
  JSON and YAML decoders hand to the program.
\<close>

section \<open>Error values\<close>

datatype sentinel =
    ErrNotFound | ErrConflict | ErrNoIPAvailable
  | ErrDomainNotFound
  | Err_network_NotFound
  | ErrFlavorNotFound | ErrImageNotFound | ErrNetworkNotFound | ErrInvalidRequest
  | ErrVMNotFound | ErrVMTerminated | ErrVMNotRunning | ErrInsufficientCapacity
  | errNoRunner
  | ContextCanceled | ErrServerClosed
  | LibvirtError nat

datatype goerr = GoErr (err_wraps: "sentinel list") (err_text: string)

type_synonym 'a res = "goerr + 'a"

fun sentinel_text :: "sentinel \<Rightarrow> string" where
  "sentinel_text ErrNotFound = ''store: not found''"
| "sentinel_text ErrConflict = ''store: conflict''"
| "sentinel_text ErrNoIPAvailable = ''store: no ip available in network''"
| "sentinel_text ErrDomainNotFound = ''libvirt: domain not found''"
| "sentinel_text Err_network_NotFound = ''network: not found''"
| "sentinel_text ErrFlavorNotFound = ''flavor not found''"
| "sentinel_text ErrImageNotFound = ''image not found''"
| "sentinel_text ErrNetworkNotFound = ''network not found''"
| "sentinel_text ErrInvalidRequest = ''invalid request''"
| "sentinel_text ErrVMNotFound = ''vm not found''"
| "sentinel_text ErrVMTerminated = ''vm is terminated''"
| "sentinel_text ErrVMNotRunning = ''vm is not running''"
| "sentinel_text ErrInsufficientCapacity = ''insufficient host capacity''"
| "sentinel_text errNoRunner = ''job: no runner configured''"
| "sentinel_text ContextCanceled = ''context canceled''"
| "sentinel_text ErrServerClosed = ''http: Server closed''"
| "sentinel_text (LibvirtError _) = ''libvirt error''"

definition sentinel_err :: "sentinel \<Rightarrow> goerr" where
  "sentinel_err s = GoErr [s] (sentinel_text s)"

definition errors_New :: "string \<Rightarrow> goerr" where
  "errors_New msg = GoErr [] msg"

definition errors_Is :: "goerr \<Rightarrow> sentinel \<Rightarrow> bool" where
  "errors_Is e s \<longleftrightarrow> s \<in> set (err_wraps e)"

definition wrap_err :: "string \<Rightarrow> goerr \<Rightarrow> goerr" where
  \<comment> \<open>\<open>fmt.Errorf("<prefix>: %w", err)\<close>\<close>
  "wrap_err pre e = GoErr (err_wraps e) (pre @ '': '' @ err_text e)"

definition detail_err :: "sentinel \<Rightarrow> string \<Rightarrow> goerr" where
  \<comment> \<open>\<open>fmt.Errorf("%w: <detail>", sentinel)\<close>\<close>
  "detail_err s d = GoErr [s] (sentinel_text s @ '': '' @ d)"

lemma errors_Is_simps [simp]:
  "errors_Is (sentinel_err s) s' \<longleftrightarrow> s' = s"
  "errors_Is (detail_err s d) s' \<longleftrightarrow> s' = s"
  "errors_Is (errors_New m) s' \<longleftrightarrow> False"
  "errors_Is (wrap_err p e) s' \<longleftrightarrow> errors_Is e s'"
  by (auto simp: errors_Is_def sentinel_err_def detail_err_def errors_New_def wrap_err_def)

section \<open>Instants and durations\<close>

text \<open>A \<open>time.Time\<close> is its nanoseconds since the Unix epoch; the zero value of the type
  is the first instant of year 1. A \<open>time.Duration\<close> counts nanoseconds too.\<close>

type_synonym time = int
type_synonym duration = int

definition second :: duration where "second = 1000000000"
definition minute :: duration where "minute = 60 * second"
definition hour :: duration where "hour = 60 * minute"

definition time_zero :: time where
  "time_zero = - 62135596800 * second"

definition IsZero :: "time \<Rightarrow> bool" where
  "IsZero t \<longleftrightarrow> t = time_zero"

lemma durations_pos [simp]: "0 < second" "0 < minute" "0 < hour"
  by (simp_all add: second_def minute_def hour_def)

section \<open>Strings\<close>

definition HasPrefix :: "string \<Rightarrow> string \<Rightarrow> bool" where
  "HasPrefix s p \<longleftrightarrow> take (length p) s = p"

definition HasSuffix :: "string \<Rightarrow> string \<Rightarrow> bool" where
  "HasSuffix s p \<longleftrightarrow> length p \<le> length s \<and> drop (length s - length p) s = p"

fun IndexOf :: "string \<Rightarrow> string \<Rightarrow> nat option" where
  "IndexOf [] p = (if p = [] then Some 0 else None)"
| "IndexOf (c # cs) p =
     (if HasPrefix (c # cs) p then Some 0 else map_option Suc (IndexOf cs p))"

declare IndexOf.simps [simp del]

definition Contains :: "string \<Rightarrow> string \<Rightarrow> bool" where
  "Contains s p \<longleftrightarrow> IndexOf s p \<noteq> None"

text \<open>The UTF-8 encodings of the code points \<open>unicode.IsSpace\<close> accepts.\<close>

definition space_seqs :: "string list" where
  "space_seqs =
     map (\<lambda>n. [char_of (n::nat)]) [9, 10, 11, 12, 13, 32] @
     map (\<lambda>n. [char_of (0xC2::nat), char_of (n::nat)]) [0x85, 0xA0] @
     [[char_of (0xE1::nat), char_of (0x9A::nat), char_of (0x80::nat)]] @
     map (\<lambda>n. [char_of (0xE2::nat), char_of (0x80::nat), char_of (n::nat)])
       [0x80, 0x81, 0x82, 0x83, 0x84, 0x85, 0x86, 0x87, 0x88, 0x89, 0x8A, 0xA8, 0xA9, 0xAF] @
     [[char_of (0xE2::nat), char_of (0x81::nat), char_of (0x9F::nat)],
      [char_of (0xE3::nat), char_of (0x80::nat), char_of (0x80::nat)]]"

definition strip_one :: "string list \<Rightarrow> string \<Rightarrow> string option" where
  "strip_one seqs s =
     map_option (\<lambda>p. drop (length p) s) (find (\<lambda>p. p \<noteq> [] \<and> HasPrefix s p) seqs)"

lemma HasPrefix_length: "HasPrefix s p \<Longrightarrow> length p \<le> length s"
  by (metis HasPrefix_def length_take min.cobounded1)

lemma strip_one_shrinks: "strip_one seqs s = Some s' \<Longrightarrow> length s' < length s"
proof -
  assume "strip_one seqs s = Some s'"
  then obtain p where "find (\<lambda>p. p \<noteq> [] \<and> HasPrefix s p) seqs = Some p"
    and s': "s' = drop (length p) s" by (auto simp: strip_one_def)
  then have "p \<noteq> []" "HasPrefix s p" by (auto simp: find_Some_iff)
  then have "0 < length p" "length p \<le> length s" using HasPrefix_length by auto
  then have "length s - length p < length s" by linarith
  then show ?thesis by (simp only: s' length_drop)
qed

function trim_left_seqs :: "string list \<Rightarrow> string \<Rightarrow> string" where
  "trim_left_seqs seqs s =
     (case strip_one seqs s of None \<Rightarrow> s | Some s' \<Rightarrow> trim_left_seqs seqs s')"
  by pat_completeness auto
termination
  by (relation "measure (\<lambda>(seqs, s). length s)") (auto dest: strip_one_shrinks)

declare trim_left_seqs.simps [simp del]

definition TrimSpace :: "string \<Rightarrow> string" where
  "TrimSpace s =
     rev (trim_left_seqs (map rev space_seqs) (rev (trim_left_seqs space_seqs s)))"

lemma TrimSpace_Nil [simp]: "TrimSpace [] = []"
proof -
  have "find (\<lambda>p. p \<noteq> [] \<and> HasPrefix [] p) qs = None" for qs
    by (auto simp: find_None_iff HasPrefix_def)
  then have "strip_one qs [] = None" for qs by (simp add: strip_one_def)
  then show ?thesis by (simp add: TrimSpace_def trim_left_seqs.simps)
qed

text \<open>Decimal and hexadecimal numerals.\<close>

definition digit_char :: "nat \<Rightarrow> char" where
  "digit_char d = char_of (if d < 10 then 48 + d else 87 + d)"

fun dec_of_nat :: "nat \<Rightarrow> string" where
  "dec_of_nat n = (if n < 10 then [digit_char n] else dec_of_nat (n div 10) @ [digit_char (n mod 10)])"

declare dec_of_nat.simps [simp del]

definition Itoa :: "int \<Rightarrow> string" where
  "Itoa i = (if i < 0 then CHR ''-'' # dec_of_nat (nat (- i)) else dec_of_nat (nat i))"

definition hex2 :: "8 word \<Rightarrow> string" where
  \<comment> \<open>the verb \<open>%02x\<close> on a byte\<close>
  "hex2 b = [digit_char (unat b div 16), digit_char (unat b mod 16)]"

text \<open>The verb \<open>%q\<close>: a double-quoted string with Go's escapes. Bytes above 127 belong to
  printable characters and are kept.\<close>

definition quote_char :: "char \<Rightarrow> string" where
  "quote_char c = (let n = (of_char c :: nat) in
     if n = 34 \<or> n = 92 then [CHR 0x5C, c]
     else if n = 7 then CHR 0x5C # ''a'' else if n = 8 then CHR 0x5C # ''b''
     else if n = 9 then CHR 0x5C # ''t'' else if n = 10 then CHR 0x5C # ''n''
     else if n = 11 then CHR 0x5C # ''v'' else if n = 12 then CHR 0x5C # ''f''
     else if n = 13 then CHR 0x5C # ''r''
     else if n < 32 \<or> n = 127 then CHR 0x5C # ''x'' @ hex2 (of_nat n)
     else [c])"

definition Quote :: "string \<Rightarrow> string" where
  "Quote s = [CHR 0x22] @ concat (map quote_char s) @ [CHR 0x22]"

definition is_digit :: "char \<Rightarrow> bool" where
  "is_digit c \<longleftrightarrow> 48 \<le> (of_char c :: nat) \<and> (of_char c :: nat) \<le> 57"

definition digit_val :: "char \<Rightarrow> nat" where
  "digit_val c = of_char c - 48"

definition dec_val :: "string \<Rightarrow> nat" where
  "dec_val s = foldl (\<lambda>v c. v * 10 + digit_val c) 0 s"

text \<open>The range of \<open>int\<close>.\<close>

definition int_range :: "int \<Rightarrow> bool" where
  "int_range n \<longleftrightarrow> - (2 ^ 63) \<le> n \<and> n < 2 ^ 63"

text \<open>\<open>strconv.Atoi\<close>.\<close>

definition Atoi :: "string \<Rightarrow> int option" where
  "Atoi s =
     (let neg = (take 1 s = ''-''); ds = (if neg \<or> take 1 s = ''+'' then drop 1 s else s);
          n = (if neg then - int (dec_val ds) else int (dec_val ds))
      in if ds = [] \<or> \<not> list_all is_digit ds \<or> \<not> int_range n then None else Some n)"

lemma of_digit_char: "d < 10 \<Longrightarrow> (of_char (digit_char d) :: nat) = 48 + d"
  by (simp add: digit_char_def)

lemma is_digit_char [simp]: "d < 10 \<Longrightarrow> is_digit (digit_char d)"
  by (simp add: is_digit_def of_digit_char)

lemma digit_val_char [simp]: "d < 10 \<Longrightarrow> digit_val (digit_char d) = d"
  by (simp add: digit_val_def of_digit_char)

lemma dec_of_nat_digits: "\<forall>c \<in> set (dec_of_nat n). is_digit c"
proof (induction n rule: dec_of_nat.induct)
  case (1 n)
  then show ?case by (cases "n < 10") (auto simp: dec_of_nat.simps [of n])
qed

lemma dec_of_nat_ne [simp]: "dec_of_nat n \<noteq> []"
  by (subst dec_of_nat.simps) simp

lemma dec_val_snoc [simp]: "dec_val (s @ [c]) = dec_val s * 10 + digit_val c"
  by (simp add: dec_val_def)

lemma dec_val_Cons: "dec_val (c # s) = digit_val c * 10 ^ length s + dec_val s"
proof (induction s rule: rev_induct)
  case Nil
  then show ?case by (simp add: dec_val_def)
next
  case (snoc d s)
  have "dec_val (c # s @ [d]) = dec_val ((c # s) @ [d])" by simp
  also have "\<dots> = dec_val (c # s) * 10 + digit_val d" by (rule dec_val_snoc)
  finally show ?case by (simp add: snoc algebra_simps)
qed

lemma dec_val_of_nat [simp]: "dec_val (dec_of_nat n) = n"
proof (induction n rule: dec_of_nat.induct)
  case (1 n)
  show ?case
  proof (cases "n < 10")
    case True
    then have "dec_of_nat n = [] @ [digit_char n]" by (simp add: dec_of_nat.simps [of n])
    with True show ?thesis by (simp only: dec_val_snoc) (simp add: dec_val_def)
  next
    case False
    with "1.IH" show ?thesis by (simp add: dec_of_nat.simps [of n])
  qed
qed

lemma dec_of_nat_inj: "dec_of_nat m = dec_of_nat n \<longleftrightarrow> m = n"
  by (metis dec_val_of_nat)

text \<open>Two strings split at the first separator agree on both sides.\<close>

lemma sep_append_inj:
  assumes "a @ c # b = a' @ c # b'" "c \<notin> set a" "c \<notin> set a'"
  shows "a = a' \<and> b = b'"
  using assms
proof (induction a arbitrary: a')
  case Nil
  then show ?case by (cases a') auto
next
  case (Cons x xs)
  then show ?case by (cases a') auto
qed

section \<open>File paths\<close>

text \<open>\<open>filepath.Join\<close> of two elements, with \<open>filepath.Clean\<close>.\<close>

fun split_on :: "char \<Rightarrow> string \<Rightarrow> string list" where
  "split_on d [] = [[]]"
| "split_on d (c # cs) =
     (if c = d then [] # split_on d cs
      else case split_on d cs of [] \<Rightarrow> [[c]] | p # ps \<Rightarrow> (c # p) # ps)"

fun join_with :: "string \<Rightarrow> string list \<Rightarrow> string" where
  "join_with sep [] = []"
| "join_with sep [x] = x"
| "join_with sep (x # y # ys) = x @ sep @ join_with sep (y # ys)"

fun clean_elems :: "bool \<Rightarrow> string list \<Rightarrow> string list \<Rightarrow> string list" where
  "clean_elems rooted acc [] = rev acc"
| "clean_elems rooted acc (e # es) =
     (if e = [] \<or> e = ''.'' then clean_elems rooted acc es
      else if e = ''..'' then
        (case acc of
           [] \<Rightarrow> clean_elems rooted (if rooted then [] else [e]) es
         | a # as \<Rightarrow> clean_elems rooted (if a = ''..'' then e # acc else as) es)
      else clean_elems rooted (e # acc) es)"

definition filepath_Clean :: "string \<Rightarrow> string" where
  "filepath_Clean p =
     (let rooted = (take 1 p = ''/''); out = join_with ''/'' (clean_elems rooted [] (split_on (CHR ''/'') p))
      in if rooted then ''/'' @ out else if out = [] then ''.'' else out)"

definition filepath_Join :: "string \<Rightarrow> string \<Rightarrow> string" where
  "filepath_Join a b =
     (if a = [] \<and> b = [] then []
      else if a = [] then filepath_Clean b
      else if b = [] then filepath_Clean a
      else filepath_Clean (a @ ''/'' @ b))"

section \<open>Fallible calls in sequence\<close>

text \<open>The error of a call whose value is discarded (\<open>_ = f()\<close>), and the state it left.\<close>

definition ignore_err :: "'a res \<times> 's \<Rightarrow> 's" where
  "ignore_err r = snd r"

lemma ignore_err_simp [simp]: "ignore_err (r, s) = s"
  by (simp add: ignore_err_def)

section \<open>Tables as association by key\<close>

text \<open>A SQL table is its rows in insertion order. \<open>row_of\<close> is the row with a key,
  \<open>set_row\<close> the effect of an \<open>UPDATE ... WHERE key = ?\<close>.\<close>

definition row_of :: "('r \<Rightarrow> 'k) \<Rightarrow> 'r list \<Rightarrow> 'k \<Rightarrow> 'r option" where
  "row_of key rows k = find (\<lambda>r. key r = k) rows"

definition set_row :: "('r \<Rightarrow> 'k) \<Rightarrow> 'k \<Rightarrow> ('r \<Rightarrow> 'r) \<Rightarrow> 'r list \<Rightarrow> 'r list" where
  "set_row key k f rows = map (\<lambda>r. if key r = k then f r else r) rows"

lemma row_of_Nil [simp]: "row_of key [] = Map.empty"
  by (rule ext) (simp add: row_of_def)

lemma row_of_Cons: "row_of key (r # rows) k = (if key r = k then Some r else row_of key rows k)"
  by (simp add: row_of_def)

lemma row_of_None: "row_of key rows k = None \<longleftrightarrow> k \<notin> key ` set rows"
  by (auto simp: row_of_def find_None_iff)

lemma row_of_SomeD: "row_of key rows k = Some r \<Longrightarrow> r \<in> set rows \<and> key r = k"
  by (auto simp: row_of_def find_Some_iff)

lemma row_of_snoc:
  "row_of key rows (key r) = None \<Longrightarrow> row_of key (rows @ [r]) = (row_of key rows)(key r \<mapsto> r)"
  by (rule ext, induction rows) (auto simp: row_of_Cons split: if_splits)

lemma row_of_set_row:
  assumes "\<And>r. key (f r) = key r"
  shows "row_of key (set_row key k f rows) = (row_of key rows)(k := map_option f (row_of key rows k))"
  by (rule ext, induction rows) (auto simp: row_of_Cons set_row_def assms split: if_splits)

lemma row_of_distinct:
  "distinct (map key rows) \<Longrightarrow> r \<in> set rows \<Longrightarrow> row_of key rows (key r) = Some r"
  by (induction rows) (auto simp: row_of_Cons rev_image_eqI)

lemma row_of_filter:
  "row_of key (filter (\<lambda>r. key r \<noteq> k) rows) = (row_of key rows)(k := None)"
  by (rule ext, induction rows) (auto simp: row_of_Cons split: if_splits)

lemma row_of_filter_rows:
  assumes "distinct (map key rows)"
  shows "row_of key (filter P rows) k = (case row_of key rows k of Some r \<Rightarrow> if P r then Some r else None | None \<Rightarrow> None)"
  using assms
proof (induction rows)
  case (Cons a rows)
  then have "row_of key rows (key a) = None" by (simp add: row_of_None)
  with Cons show ?case by (auto simp: row_of_Cons split: option.splits)
qed (simp add: row_of_def)

lemma map_key_set_row [simp]:
  "(\<And>r. key (f r) = key r) \<Longrightarrow> map key (set_row key k f rows) = map key rows"
  by (auto simp: set_row_def)

end
