(* ===== verification/Model.thy ===== *)
theory Model
  imports Prelude
begin

text \<open>
  The persistent entities of \<open>internal/model\<close>: the VM with its lifecycle status and power
  state, the job with its state machine, the IP allocation and the idempotency record.
  Each string-typed enumeration of the source is a datatype with the source's constants and
  a constructor for the zero value (the empty string); \<open>*_text\<close> is the string the constant
  stands for, which is what a status filter compares with. A job type can also be a string
  outside the enumeration, which the dispatcher rejects.
\<close>

datatype VMStatus =
    VMStatusProvisioning | VMStatusRunning | VMStatusStopped | VMStatusSuspended
  | VMStatusError | VMStatusTerminated | VMStatusNone

fun VMStatus_text :: "VMStatus \<Rightarrow> string" where
  "VMStatus_text VMStatusProvisioning = ''provisioning''"
| "VMStatus_text VMStatusRunning = ''running''"
| "VMStatus_text VMStatusStopped = ''stopped''"
| "VMStatus_text VMStatusSuspended = ''suspended''"
| "VMStatus_text VMStatusError = ''error''"
| "VMStatus_text VMStatusTerminated = ''terminated''"
| "VMStatus_text VMStatusNone = ''''"

lemma VMStatus_text_inj: "VMStatus_text a = VMStatus_text b \<longleftrightarrow> a = b"
  by (cases a; cases b) simp_all

datatype PowerState = PowerUnknown | PowerRunning | PowerShutoff | PowerPaused | PowerNone

fun PowerState_text :: "PowerState \<Rightarrow> string" where
  "PowerState_text PowerUnknown = ''unknown''"
| "PowerState_text PowerRunning = ''running''"
| "PowerState_text PowerShutoff = ''shutoff''"
| "PowerState_text PowerPaused = ''paused''"
| "PowerState_text PowerNone = ''''"

text \<open>\<open>model.NetworkMode\<close> is converted from the configured mode string without a check, so
  it stays a string; the two constants are:\<close>

definition NetworkNAT :: string where "NetworkNAT = ''nat''"
definition NetworkBridge :: string where "NetworkBridge = ''bridge''"

record VM =
  vm_ID :: string
  vm_DomainName :: string
  vm_DomainUUID :: string
  vm_Hostname :: string
  vm_FlavorID :: string
  vm_ImageID :: string
  vm_VCPUs :: int
  vm_MemoryMB :: int
  vm_DiskGB :: int
  vm_NetworkID :: string
  vm_NetworkMode :: string
  vm_MAC :: string
  vm_IP :: string
  vm_Gateway :: string
  vm_Netmask :: string
  vm_Status :: VMStatus
  vm_PowerState :: PowerState
  vm_PrevPowerState :: PowerState
  vm_DiskPath :: string
  vm_SeedPath :: string
  vm_Password :: string
  vm_SSHKeys :: "string list"
  vm_TrafficQuotaBytes :: "64 word"
  vm_TrafficUsedBytes :: "64 word"
  vm_TrafficPeriodStart :: time
  vm_NetworkBlocked :: bool
  vm_NetworkBlockReason :: string
  vm_CreatedAt :: time
  vm_UpdatedAt :: time

text \<open>The zero value of the struct, which composite literals start from.\<close>

definition zero_VM :: VM where
  "zero_VM = \<lparr>vm_ID = '''', vm_DomainName = '''', vm_DomainUUID = '''', vm_Hostname = '''',
     vm_FlavorID = '''', vm_ImageID = '''', vm_VCPUs = 0, vm_MemoryMB = 0, vm_DiskGB = 0,
     vm_NetworkID = '''', vm_NetworkMode = '''', vm_MAC = '''', vm_IP = '''', vm_Gateway = '''',
     vm_Netmask = '''', vm_Status = VMStatusNone, vm_PowerState = PowerNone,
     vm_PrevPowerState = PowerNone, vm_DiskPath = '''', vm_SeedPath = '''', vm_Password = '''',
     vm_SSHKeys = [], vm_TrafficQuotaBytes = 0, vm_TrafficUsedBytes = 0,
     vm_TrafficPeriodStart = time_zero, vm_NetworkBlocked = False, vm_NetworkBlockReason = '''',
     vm_CreatedAt = time_zero, vm_UpdatedAt = time_zero\<rparr>"

datatype JobType =
    JobCreate | JobStart | JobShutdown | JobReboot | JobStop | JobSuspend | JobUnsuspend
  | JobPassword | JobHostname | JobRebuild | JobResize | JobSnapshotCreate
  | JobSnapshotDelete | JobSnapshotRevert | JobNetBlock | JobNetUnblock | JobTrafficReset
  | JobTerminate | JobTypeOther string

datatype JobState = JobQueued | JobRunning | JobSucceeded | JobFailed

text \<open>A payload is a Go map; it is kept as an association list with at most one entry per key
  (\<open>payload_get\<close> is the map index expression, which yields the empty string for a missing key).\<close>

type_synonym payload = "(string \<times> string) list"

definition payload_get :: "payload \<Rightarrow> string \<Rightarrow> string" where
  "payload_get p k = (case map_of p k of None \<Rightarrow> '''' | Some v \<Rightarrow> v)"

record Job =
  job_ID :: string
  job_Type :: JobType
  job_VMID :: string
  job_State :: JobState
  job_Error :: string
  job_IdempotencyKey :: string
  job_Payload :: payload
  job_Attempts :: int
  job_CreatedAt :: time
  job_StartedAt :: "time option"
  job_FinishedAt :: "time option"

record IPAllocation =
  ipa_NetworkID :: string
  ipa_IP :: string
  ipa_VMID :: string
  ipa_MAC :: string
  ipa_CreatedAt :: time

record IdempotencyRecord =
  idr_Key :: string
  idr_JobID :: string
  idr_RequestHash :: string
  idr_Response :: string
  idr_StatusCode :: int
  idr_CreatedAt :: time
  idr_ExpiresAt :: time

text \<open>Terminal job states: the ones \<open>process\<close> returns from at once.\<close>

fun job_done :: "JobState \<Rightarrow> bool" where
  "job_done JobSucceeded = True"
| "job_done JobFailed = True"
| "job_done JobQueued = False"
| "job_done JobRunning = False"

end
