(* ===== verification/Store.thy ===== *)
theory Store
  imports Model
begin

text \<open>
  The persistence layer, \<open>internal/store\<close>.

  \<open>SQLiteStore\<close> is the database: the rows of the four tables in insertion order. Columns
  whose SQL form differs from the Go field are kept in that form: instants as RFC 3339 text
  (\<open>stamp\<close>), \<open>uint64\<close> counters as \<open>int64\<close>, booleans as integers, slices and maps as JSON
  documents. Every statement may fail in the driver, and \<open>db_faults\<close> lists what happens to
  the statements to come (an empty list: no failure). A failing statement leaves the tables
  unchanged, and a transaction that does not commit is rolled back.

  \<open>store_ops\<close> is the interface \<open>Store\<close> of store.go as a record of operations on an abstract
  state, \<open>store_api\<close> the contract its clients rely on, stated over the abstract
  \<open>store_view\<close> (keyed maps), and \<open>sqlite_ops\<close> the implementation.
\<close>

section \<open>Instants as text\<close>

text \<open>
  \<open>t.UTC().Format(time.RFC3339Nano)\<close>: the calendar part has a fixed width for the years
  0 to 9999 and is monotone in the seconds, so it is represented by the seconds; the
  fractional part is kept as text because its trailing zeros are dropped, which matters
  when SQLite compares such columns as strings.
\<close>

type_synonym stamp = "int \<times> string"

definition pad9 :: "nat \<Rightarrow> string" where
  "pad9 n = map (\<lambda>k. digit_char (n div 10 ^ k mod 10)) (rev [0..<9])"

definition trim_zeros :: "string \<Rightarrow> string" where
  "trim_zeros s = rev (dropWhile (\<lambda>c. c = CHR ''0'') (rev s))"

definition frac_text :: "nat \<Rightarrow> string" where
  "frac_text n = (if n = 0 then ''Z'' else CHR ''.'' # trim_zeros (pad9 n) @ ''Z'')"

definition fmtTime :: "time \<Rightarrow> stamp" where
  "fmtTime t = (t div second, frac_text (nat (t mod second)))"

definition fmtTimePtr :: "time option \<Rightarrow> stamp option" where
  "fmtTimePtr t = map_option fmtTime t"

fun parse_frac :: "string \<Rightarrow> nat" where
  "parse_frac (c # cs) =
     (if c = CHR ''.'' then dec_val (take 9 (butlast cs @ replicate 9 (CHR ''0''))) else 0)"
| "parse_frac [] = 0"

definition parseTime :: "stamp \<Rightarrow> time" where
  "parseTime st = fst st * second + int (parse_frac (snd st))"

definition parseTimePtr :: "stamp option \<Rightarrow> time option" where
  "parseTimePtr ns = map_option parseTime ns"

lemma trim_zeros_pad: "\<exists>k. s = trim_zeros s @ replicate k (CHR ''0'')"
proof (induction s rule: rev_induct)
  case Nil
  then show ?case by (simp add: trim_zeros_def)
next
  case (snoc c s)
  show ?case
  proof (cases "c = CHR ''0''")
    case True
    from snoc obtain k where "s = trim_zeros s @ replicate k (CHR ''0'')" by blast
    then have "s @ [c] = trim_zeros s @ replicate (Suc k) (CHR ''0'')"
      by (metis True append_assoc replicate_append_same replicate_Suc)
    moreover from True have "trim_zeros (s @ [c]) = trim_zeros s" by (simp add: trim_zeros_def)
    ultimately show ?thesis by metis
  next
    case False
    then have "trim_zeros (s @ [c]) = s @ [c]" by (simp add: trim_zeros_def)
    then show ?thesis by (metis append_Nil2 replicate_0)
  qed
qed

lemma take_trim_zeros:
  assumes "length s = n"
  shows "take n (trim_zeros s @ replicate n (CHR ''0'')) = s"
proof -
  obtain k where k: "s = trim_zeros s @ replicate k (CHR ''0'')" using trim_zeros_pad by blast
  let ?t = "trim_zeros s"
  from k assms have n: "n = length ?t + k" by (metis length_append length_replicate)
  then have "take n (?t @ replicate n (CHR ''0'')) = ?t @ replicate k (CHR ''0'')"
    by (simp add: take_append)
  with k show ?thesis by simp
qed

lemma dec_val_digits:
  "dec_val (map (\<lambda>k. digit_char (n div 10 ^ k mod 10)) (rev [0..<m])) = n mod 10 ^ m"
proof (induction m)
  case 0
  then show ?case by (simp add: dec_val_def)
next
  case (Suc m)
  then show ?case
    using mod_mult2_eq [of n "10 ^ m" 10] by (simp add: dec_val_Cons mult.commute)
qed

lemma dec_val_pad9: "n < 1000000000 \<Longrightarrow> dec_val (pad9 n) = n"
  by (simp only: pad9_def dec_val_digits) simp

lemma length_pad9: "length (pad9 n) = 9"
  by (simp only: pad9_def length_map length_rev length_upt)

lemma parse_frac_text: "n < 1000000000 \<Longrightarrow> parse_frac (frac_text n) = n"
  using take_trim_zeros [OF length_pad9, of n] dec_val_pad9 [of n]
  by (simp add: frac_text_def butlast_append)

lemma parseTime_fmtTime [simp]: "parseTime (fmtTime t) = t"
proof -
  have "t mod second < 1000000000" "0 \<le> t mod second"
    by (simp_all add: second_def)
  then have "nat (t mod second) < 1000000000" by linarith
  then have "parse_frac (frac_text (nat (t mod second))) = nat (t mod second)"
    by (rule parse_frac_text)
  with \<open>0 \<le> t mod second\<close> show ?thesis by (simp add: parseTime_def fmtTime_def)
qed

lemma fmtTime_less: "t + second \<le> u \<Longrightarrow> fmtTime t < fmtTime u"
proof -
  assume "t + second \<le> u"
  then have "(t + second) div second \<le> u div second" by (rule zdiv_mono1) (simp add: second_def)
  then have "t div second < u div second" by (simp add: second_def)
  then show ?thesis by (simp add: fmtTime_def)
qed

text \<open>Within a second the texts are not ordered as the instants are.\<close>

lemma fmtTime_not_monotone: "fmtTime 500000000 < fmtTime 0"
  by (simp add: fmtTime_def second_def frac_text_def less_char_def)

lemma parseTimePtr_fmtTimePtr [simp]: "parseTimePtr (fmtTimePtr t) = t"
  by (cases t) (simp_all add: parseTimePtr_def fmtTimePtr_def)

section \<open>JSON columns\<close>

text \<open>A JSON column is kept as the document it holds.\<close>

datatype json_doc = JsonArr "string list" | JsonObj payload | JsonEmpty

definition marshalStrings :: "string list \<Rightarrow> json_doc" where
  "marshalStrings ss = (if length ss = 0 then JsonArr [] else JsonArr ss)"

fun unmarshalStrings :: "json_doc \<Rightarrow> string list" where
  "unmarshalStrings JsonEmpty = []"
| "unmarshalStrings (JsonArr ss) = ss"
| "unmarshalStrings (JsonObj _) = []"

definition marshalMap :: "payload \<Rightarrow> json_doc" where
  "marshalMap m = (if length m = 0 then JsonObj [] else JsonObj m)"

fun unmarshalMap :: "json_doc \<Rightarrow> payload" where
  "unmarshalMap JsonEmpty = []"
| "unmarshalMap (JsonObj m) = m"
| "unmarshalMap (JsonArr _) = []"

definition boolToInt :: "bool \<Rightarrow> int" where
  "boolToInt b = (if b then 1 else 0)"

lemma json_roundtrip [simp]:
  "unmarshalStrings (marshalStrings ss) = ss" "unmarshalMap (marshalMap m) = m"
  by (simp_all add: marshalStrings_def marshalMap_def)

section \<open>Rows\<close>

text \<open>A row of \<open>vms\<close>: the columns with the Go field's own form (\<open>row_plain\<close>, whose other
  fields are not used) and the converted columns.\<close>

record vm_row =
  row_plain :: VM
  row_ssh_keys :: json_doc
  row_quota :: int
  row_used :: int
  row_period_start :: stamp
  row_blocked :: int
  row_created_at :: stamp
  row_updated_at :: stamp

definition vm_values :: "VM \<Rightarrow> vm_row" where
  "vm_values vm = \<lparr>
     row_plain = vm\<lparr>vm_SSHKeys := [], vm_TrafficQuotaBytes := 0, vm_TrafficUsedBytes := 0,
        vm_TrafficPeriodStart := 0, vm_NetworkBlocked := False, vm_CreatedAt := 0,
        vm_UpdatedAt := 0\<rparr>,
     row_ssh_keys = marshalStrings (vm_SSHKeys vm),
     row_quota = sint (vm_TrafficQuotaBytes vm),
     row_used = sint (vm_TrafficUsedBytes vm),
     row_period_start = fmtTime (vm_TrafficPeriodStart vm),
     row_blocked = boolToInt (vm_NetworkBlocked vm),
     row_created_at = fmtTime (vm_CreatedAt vm),
     row_updated_at = fmtTime (vm_UpdatedAt vm)\<rparr>"

definition scanVM :: "vm_row \<Rightarrow> VM" where
  "scanVM r = (row_plain r)\<lparr>
     vm_SSHKeys := unmarshalStrings (row_ssh_keys r),
     vm_TrafficQuotaBytes := word_of_int (row_quota r),
     vm_TrafficUsedBytes := word_of_int (row_used r),
     vm_TrafficPeriodStart := parseTime (row_period_start r),
     vm_NetworkBlocked := (row_blocked r \<noteq> 0),
     vm_CreatedAt := parseTime (row_created_at r),
     vm_UpdatedAt := parseTime (row_updated_at r)\<rparr>"

definition row_id :: "vm_row \<Rightarrow> string" where
  "row_id r = vm_ID (row_plain r)"

record job_row =
  jrow_plain :: Job
  jrow_payload :: json_doc
  jrow_created_at :: stamp
  jrow_started_at :: "stamp option"
  jrow_finished_at :: "stamp option"

definition job_values :: "Job \<Rightarrow> job_row" where
  "job_values j = \<lparr>
     jrow_plain = j\<lparr>job_Payload := [], job_CreatedAt := 0, job_StartedAt := None,
        job_FinishedAt := None\<rparr>,
     jrow_payload = marshalMap (job_Payload j),
     jrow_created_at = fmtTime (job_CreatedAt j),
     jrow_started_at = fmtTimePtr (job_StartedAt j),
     jrow_finished_at = fmtTimePtr (job_FinishedAt j)\<rparr>"

definition scanJob :: "job_row \<Rightarrow> Job" where
  "scanJob r = (jrow_plain r)\<lparr>
     job_Payload := unmarshalMap (jrow_payload r),
     job_CreatedAt := parseTime (jrow_created_at r),
     job_StartedAt := parseTimePtr (jrow_started_at r),
     job_FinishedAt := parseTimePtr (jrow_finished_at r)\<rparr>"

definition jrow_id :: "job_row \<Rightarrow> string" where
  "jrow_id r = job_ID (jrow_plain r)"

record idem_row =
  irow_plain :: IdempotencyRecord
  irow_created_at :: stamp
  irow_expires_at :: stamp

definition idem_values :: "IdempotencyRecord \<Rightarrow> idem_row" where
  "idem_values rec = \<lparr>irow_plain = rec\<lparr>idr_CreatedAt := 0, idr_ExpiresAt := 0\<rparr>,
     irow_created_at = fmtTime (idr_CreatedAt rec), irow_expires_at = fmtTime (idr_ExpiresAt rec)\<rparr>"

definition scanIdem :: "idem_row \<Rightarrow> IdempotencyRecord" where
  "scanIdem r = (irow_plain r)\<lparr>idr_CreatedAt := parseTime (irow_created_at r),
     idr_ExpiresAt := parseTime (irow_expires_at r)\<rparr>"

definition irow_key :: "idem_row \<Rightarrow> string" where
  "irow_key r = idr_Key (irow_plain r)"

lemma scanVM_values [simp]: "scanVM (vm_values vm) = vm"
  by (simp add: scanVM_def vm_values_def boolToInt_def)

lemma scanJob_values [simp]: "scanJob (job_values j) = j"
  by (simp add: scanJob_def job_values_def)

lemma scanIdem_values [simp]: "scanIdem (idem_values r) = r"
  by (simp add: scanIdem_def idem_values_def)

lemma row_keys [simp]:
  "row_id (vm_values vm) = vm_ID vm" "vm_ID (scanVM r) = row_id r"
  "jrow_id (job_values j) = job_ID j" "job_ID (scanJob jr) = jrow_id jr"
  "irow_key (idem_values i) = idr_Key i" "idr_Key (scanIdem ir) = irow_key ir"
  by (simp_all add: row_id_def vm_values_def scanVM_def jrow_id_def job_values_def scanJob_def
      irow_key_def idem_values_def scanIdem_def)

section \<open>The database and its operations\<close>

datatype fault = Cancelled | DriverError string

fun fault_err :: "fault \<Rightarrow> goerr" where
  "fault_err Cancelled = sentinel_err ContextCanceled"
| "fault_err (DriverError msg) = errors_New msg"

record SQLiteStore =
  db_vms :: "vm_row list"
  db_jobs :: "job_row list"
  db_idem :: "idem_row list"
  db_ips :: "IPAllocation list"
  db_faults :: "fault option list"

definition driver :: "SQLiteStore \<Rightarrow> goerr option \<times> SQLiteStore" where
  \<comment> \<open>what the driver makes of the next statement\<close>
  "driver s = (case db_faults s of
      [] \<Rightarrow> (None, s)
    | f # fs \<Rightarrow> (map_option fault_err f, s\<lparr>db_faults := fs\<rparr>))"

definition unique_err :: "string \<Rightarrow> goerr" where
  "unique_err col = errors_New (''constraint failed: UNIQUE constraint failed: '' @ col @ '' (1555)'')"

definition mapConstraintErr :: "goerr \<Rightarrow> goerr" where
  "mapConstraintErr err =
     (if Contains (err_text err) ''constraint failed'' then detail_err ErrConflict (err_text err)
      else err)"

definition requireAffected :: "nat \<Rightarrow> unit res" where
  "requireAffected n = (if n = 0 then Inl (sentinel_err ErrNotFound) else Inr ())"

subsection \<open>VMs\<close>

definition CreateVM :: "time \<Rightarrow> VM \<Rightarrow> SQLiteStore \<Rightarrow> unit res \<times> SQLiteStore" where
  "CreateVM now vm0 s =
     (let vm1 = (if IsZero (vm_CreatedAt vm0) then vm0\<lparr>vm_CreatedAt := now\<rparr> else vm0);
          vm = vm1\<lparr>vm_UpdatedAt := now\<rparr>
      in case driver s of
           (Some err, s1) \<Rightarrow> (Inl (mapConstraintErr err), s1)
         | (None, s1) \<Rightarrow>
             (if vm_ID vm \<in> row_id ` set (db_vms s1)
              then (Inl (mapConstraintErr (unique_err ''vms.id'')), s1)
              else (Inr (), s1\<lparr>db_vms := db_vms s1 @ [vm_values vm]\<rparr>)))"

definition GetVM :: "string \<Rightarrow> SQLiteStore \<Rightarrow> VM res \<times> SQLiteStore" where
  "GetVM i s = (case driver s of
      (Some err, s1) \<Rightarrow> (Inl err, s1)
    | (None, s1) \<Rightarrow> (case row_of row_id (db_vms s1) i of
          None \<Rightarrow> (Inl (sentinel_err ErrNotFound), s1)
        | Some r \<Rightarrow> (Inr (scanVM r), s1)))"

definition ListVMs :: "SQLiteStore \<Rightarrow> VM list res \<times> SQLiteStore" where
  "ListVMs s = (case driver s of
      (Some err, s1) \<Rightarrow> (Inl err, s1)
    | (None, s1) \<Rightarrow> (Inr (map scanVM (sort_key row_created_at (db_vms s1))), s1))"

definition UpdateVM :: "time \<Rightarrow> VM \<Rightarrow> SQLiteStore \<Rightarrow> unit res \<times> SQLiteStore" where
  \<comment> \<open>every column but \<open>created_at\<close>\<close>
  "UpdateVM now vm0 s =
     (let vm = vm0\<lparr>vm_UpdatedAt := now\<rparr>
      in case driver s of
           (Some err, s1) \<Rightarrow> (Inl err, s1)
         | (None, s1) \<Rightarrow>
             (requireAffected (length (filter (\<lambda>r. row_id r = vm_ID vm) (db_vms s1))),
              s1\<lparr>db_vms := set_row row_id (vm_ID vm)
                 (\<lambda>r. (vm_values vm)\<lparr>row_created_at := row_created_at r\<rparr>) (db_vms s1)\<rparr>))"

definition DeleteVM :: "string \<Rightarrow> SQLiteStore \<Rightarrow> unit res \<times> SQLiteStore" where
  "DeleteVM i s = (case driver s of
      (Some err, s1) \<Rightarrow> (Inl err, s1)
    | (None, s1) \<Rightarrow>
        (requireAffected (length (filter (\<lambda>r. row_id r = i) (db_vms s1))),
         s1\<lparr>db_vms := filter (\<lambda>r. row_id r \<noteq> i) (db_vms s1)\<rparr>))"

subsection \<open>Jobs\<close>

definition CreateJob :: "time \<Rightarrow> Job \<Rightarrow> SQLiteStore \<Rightarrow> Job res \<times> SQLiteStore" where
  \<comment> \<open>the job is passed by pointer; its creation time is set before the insert\<close>
  "CreateJob now j0 s =
     (let j = (if IsZero (job_CreatedAt j0) then j0\<lparr>job_CreatedAt := now\<rparr> else j0)
      in case driver s of
           (Some err, s1) \<Rightarrow> (Inl (mapConstraintErr err), s1)
         | (None, s1) \<Rightarrow>
             (if job_ID j \<in> jrow_id ` set (db_jobs s1)
              then (Inl (mapConstraintErr (unique_err ''jobs.id'')), s1)
              else (Inr j, s1\<lparr>db_jobs := db_jobs s1 @ [job_values j]\<rparr>)))"

definition GetJob :: "string \<Rightarrow> SQLiteStore \<Rightarrow> Job res \<times> SQLiteStore" where
  "GetJob i s = (case driver s of
      (Some err, s1) \<Rightarrow> (Inl err, s1)
    | (None, s1) \<Rightarrow> (case row_of jrow_id (db_jobs s1) i of
          None \<Rightarrow> (Inl (sentinel_err ErrNotFound), s1)
        | Some r \<Rightarrow> (Inr (scanJob r), s1)))"

definition UpdateJob :: "Job \<Rightarrow> SQLiteStore \<Rightarrow> unit res \<times> SQLiteStore" where
  "UpdateJob j s = (case driver s of
      (Some err, s1) \<Rightarrow> (Inl err, s1)
    | (None, s1) \<Rightarrow>
        (requireAffected (length (filter (\<lambda>r. jrow_id r = job_ID j) (db_jobs s1))),
         s1\<lparr>db_jobs := set_row jrow_id (job_ID j)
            (\<lambda>r. (job_values j)\<lparr>jrow_created_at := jrow_created_at r\<rparr>) (db_jobs s1)\<rparr>))"

definition ListJobsByState :: "JobState \<Rightarrow> SQLiteStore \<Rightarrow> Job list res \<times> SQLiteStore" where
  "ListJobsByState st s = (case driver s of
      (Some err, s1) \<Rightarrow> (Inl err, s1)
    | (None, s1) \<Rightarrow>
        (Inr (map scanJob (sort_key jrow_created_at
                (filter (\<lambda>r. job_State (jrow_plain r) = st) (db_jobs s1)))), s1))"

subsection \<open>Idempotency records\<close>

definition GetIdempotency ::
  "time \<Rightarrow> string \<Rightarrow> SQLiteStore \<Rightarrow> IdempotencyRecord res \<times> SQLiteStore" where
  "GetIdempotency now key s = (case driver s of
      (Some err, s1) \<Rightarrow> (Inl err, s1)
    | (None, s1) \<Rightarrow> (case row_of irow_key (db_idem s1) key of
          None \<Rightarrow> (Inl (sentinel_err ErrNotFound), s1)
        | Some r \<Rightarrow>
            (let rec = scanIdem r
             in if idr_ExpiresAt rec < now then (Inl (sentinel_err ErrNotFound), s1)
                else (Inr rec, s1))))"

definition DeleteIdempotency :: "string \<Rightarrow> SQLiteStore \<Rightarrow> unit res \<times> SQLiteStore" where
  "DeleteIdempotency key s = (case driver s of
      (Some err, s1) \<Rightarrow> (Inl err, s1)
    | (None, s1) \<Rightarrow> (Inr (), s1\<lparr>db_idem := filter (\<lambda>r. irow_key r \<noteq> key) (db_idem s1)\<rparr>))"

definition DeleteExpiredIdempotency :: "time \<Rightarrow> SQLiteStore \<Rightarrow> nat res \<times> SQLiteStore" where
  \<comment> \<open>\<open>expires_at < ?\<close> compares the two texts\<close>
  "DeleteExpiredIdempotency now s = (case driver s of
      (Some err, s1) \<Rightarrow> (Inl err, s1)
    | (None, s1) \<Rightarrow>
        (Inr (length (filter (\<lambda>r. irow_expires_at r < fmtTime now) (db_idem s1))),
         s1\<lparr>db_idem := filter (\<lambda>r. \<not> irow_expires_at r < fmtTime now) (db_idem s1)\<rparr>))"

definition PutIdempotency ::
  "time \<Rightarrow> IdempotencyRecord \<Rightarrow> SQLiteStore \<Rightarrow> IdempotencyRecord res \<times> SQLiteStore" where
  \<comment> \<open>the record is passed by pointer; its creation time is set before the insert\<close>
  "PutIdempotency now rec0 s =
     (let rec = (if IsZero (idr_CreatedAt rec0) then rec0\<lparr>idr_CreatedAt := now\<rparr> else rec0)
      in case driver s of
           (Some err, s1) \<Rightarrow> (Inl (mapConstraintErr err), s1)
         | (None, s1) \<Rightarrow>
             (if idr_Key rec \<in> irow_key ` set (db_idem s1)
              then (Inl (mapConstraintErr (unique_err ''idempotency_keys.key'')), s1)
              else (Inr rec, s1\<lparr>db_idem := db_idem s1 @ [idem_values rec]\<rparr>)))"

definition UpdateIdempotency :: "IdempotencyRecord \<Rightarrow> SQLiteStore \<Rightarrow> unit res \<times> SQLiteStore" where
  \<comment> \<open>only \<open>job_id\<close>, \<open>response\<close> and \<open>status_code\<close>\<close>
  "UpdateIdempotency rec s = (case driver s of
      (Some err, s1) \<Rightarrow> (Inl err, s1)
    | (None, s1) \<Rightarrow>
        (requireAffected (length (filter (\<lambda>r. irow_key r = idr_Key rec) (db_idem s1))),
         s1\<lparr>db_idem := set_row irow_key (idr_Key rec)
            (\<lambda>r. r\<lparr>irow_plain := (irow_plain r)\<lparr>idr_JobID := idr_JobID rec,
                idr_Response := idr_Response rec, idr_StatusCode := idr_StatusCode rec\<rparr>\<rparr>)
            (db_idem s1)\<rparr>))"

subsection \<open>IP allocations\<close>

definition ip_key :: "IPAllocation \<Rightarrow> string \<times> string" where
  "ip_key a = (ipa_NetworkID a, ipa_IP a)"

definition taken_ips :: "string \<Rightarrow> SQLiteStore \<Rightarrow> string set" where
  "taken_ips networkID s = ipa_IP ` {a \<in> set (db_ips s). ipa_NetworkID a = networkID}"

definition AllocateIP ::
  "time \<Rightarrow> string \<Rightarrow> string \<Rightarrow> string \<Rightarrow> string list \<Rightarrow> SQLiteStore \<Rightarrow> string res \<times> SQLiteStore" where
  \<comment> \<open>one transaction: begin, select, insert, commit; anything but a commit rolls back\<close>
  "AllocateIP now networkID vmID mac candidates s = (case driver s of
      (Some err, s1) \<Rightarrow> (Inl err, s1)
    | (None, s1) \<Rightarrow> (case driver s1 of
        (Some err, s2) \<Rightarrow> (Inl err, s2)
      | (None, s2) \<Rightarrow> (case find (\<lambda>ip. ip \<notin> taken_ips networkID s2) candidates of
          None \<Rightarrow> (Inl (sentinel_err ErrNoIPAvailable), s2)
        | Some ip \<Rightarrow> (case driver s2 of
            (Some err, s3) \<Rightarrow> (Inl err, s3)
          | (None, s3) \<Rightarrow> (case driver s3 of
              (Some err, s4) \<Rightarrow> (Inl err, s4)
            | (None, s4) \<Rightarrow>
                (Inr ip, s4\<lparr>db_ips := db_ips s4 @ [\<lparr>ipa_NetworkID = networkID, ipa_IP = ip,
                   ipa_VMID = vmID, ipa_MAC = mac, ipa_CreatedAt = now\<rparr>]\<rparr>))))))"

definition ReleaseIPByVM :: "string \<Rightarrow> SQLiteStore \<Rightarrow> unit res \<times> SQLiteStore" where
  "ReleaseIPByVM vmID s = (case driver s of
      (Some err, s1) \<Rightarrow> (Inl err, s1)
    | (None, s1) \<Rightarrow> (Inr (), s1\<lparr>db_ips := filter (\<lambda>a. ipa_VMID a \<noteq> vmID) (db_ips s1)\<rparr>))"

definition AllocatedIPs :: "string \<Rightarrow> SQLiteStore \<Rightarrow> string set res \<times> SQLiteStore" where
  "AllocatedIPs networkID s = (case driver s of
      (Some err, s1) \<Rightarrow> (Inl err, s1)
    | (None, s1) \<Rightarrow> (Inr (taken_ips networkID s1), s1))"

section \<open>The interface and its contract\<close>

record 's store_ops =
  so_CreateVM :: "time \<Rightarrow> VM \<Rightarrow> 's \<Rightarrow> unit res \<times> 's"
  so_GetVM :: "string \<Rightarrow> 's \<Rightarrow> VM res \<times> 's"
  so_ListVMs :: "'s \<Rightarrow> VM list res \<times> 's"
  so_UpdateVM :: "time \<Rightarrow> VM \<Rightarrow> 's \<Rightarrow> unit res \<times> 's"
  so_DeleteVM :: "string \<Rightarrow> 's \<Rightarrow> unit res \<times> 's"
  so_CreateJob :: "time \<Rightarrow> Job \<Rightarrow> 's \<Rightarrow> Job res \<times> 's"
  so_GetJob :: "string \<Rightarrow> 's \<Rightarrow> Job res \<times> 's"
  so_UpdateJob :: "Job \<Rightarrow> 's \<Rightarrow> unit res \<times> 's"
  so_ListJobsByState :: "JobState \<Rightarrow> 's \<Rightarrow> Job list res \<times> 's"
  so_GetIdempotency :: "time \<Rightarrow> string \<Rightarrow> 's \<Rightarrow> IdempotencyRecord res \<times> 's"
  so_PutIdempotency :: "time \<Rightarrow> IdempotencyRecord \<Rightarrow> 's \<Rightarrow> IdempotencyRecord res \<times> 's"
  so_UpdateIdempotency :: "IdempotencyRecord \<Rightarrow> 's \<Rightarrow> unit res \<times> 's"
  so_DeleteIdempotency :: "string \<Rightarrow> 's \<Rightarrow> unit res \<times> 's"
  so_DeleteExpiredIdempotency :: "time \<Rightarrow> 's \<Rightarrow> nat res \<times> 's"
  so_AllocateIP :: "time \<Rightarrow> string \<Rightarrow> string \<Rightarrow> string \<Rightarrow> string list \<Rightarrow> 's \<Rightarrow> string res \<times> 's"
  so_ReleaseIPByVM :: "string \<Rightarrow> 's \<Rightarrow> unit res \<times> 's"
  so_AllocatedIPs :: "string \<Rightarrow> 's \<Rightarrow> string set res \<times> 's"

definition sqlite_ops :: "SQLiteStore store_ops" where
  "sqlite_ops = \<lparr>so_CreateVM = CreateVM, so_GetVM = GetVM, so_ListVMs = ListVMs,
     so_UpdateVM = UpdateVM, so_DeleteVM = DeleteVM, so_CreateJob = CreateJob,
     so_GetJob = GetJob, so_UpdateJob = UpdateJob, so_ListJobsByState = ListJobsByState,
     so_GetIdempotency = GetIdempotency, so_PutIdempotency = PutIdempotency,
     so_UpdateIdempotency = UpdateIdempotency, so_DeleteIdempotency = DeleteIdempotency,
     so_DeleteExpiredIdempotency = DeleteExpiredIdempotency, so_AllocateIP = AllocateIP,
     so_ReleaseIPByVM = ReleaseIPByVM, so_AllocatedIPs = AllocatedIPs\<rparr>"

text \<open>What a client may see of a store: the records under their keys.\<close>

record store_view =
  sv_vms :: "string \<rightharpoonup> VM"
  sv_jobs :: "string \<rightharpoonup> Job"
  sv_idem :: "string \<rightharpoonup> IdempotencyRecord"
  sv_ips :: "(string \<times> string) \<rightharpoonup> string"

definition vm_created :: "time \<Rightarrow> VM \<Rightarrow> VM" where
  "vm_created now v = (if IsZero (vm_CreatedAt v) then v\<lparr>vm_CreatedAt := now\<rparr> else v)\<lparr>vm_UpdatedAt := now\<rparr>"

definition vm_written :: "time \<Rightarrow> VM \<Rightarrow> VM \<Rightarrow> VM" where
  "vm_written now old v = v\<lparr>vm_UpdatedAt := now, vm_CreatedAt := vm_CreatedAt old\<rparr>"

definition job_created :: "time \<Rightarrow> Job \<Rightarrow> Job" where
  "job_created now j = (if IsZero (job_CreatedAt j) then j\<lparr>job_CreatedAt := now\<rparr> else j)"

definition job_written :: "Job \<Rightarrow> Job \<Rightarrow> Job" where
  "job_written old j = j\<lparr>job_CreatedAt := job_CreatedAt old\<rparr>"

definition idem_created :: "time \<Rightarrow> IdempotencyRecord \<Rightarrow> IdempotencyRecord" where
  "idem_created now r = (if IsZero (idr_CreatedAt r) then r\<lparr>idr_CreatedAt := now\<rparr> else r)"

definition idem_written :: "IdempotencyRecord \<Rightarrow> IdempotencyRecord \<Rightarrow> IdempotencyRecord" where
  "idem_written old r = old\<lparr>idr_JobID := idr_JobID r, idr_Response := idr_Response r,
     idr_StatusCode := idr_StatusCode r\<rparr>"

lemma written_keys [simp]:
  "vm_ID (vm_created now v) = vm_ID v" "vm_ID (vm_written now old v) = vm_ID v"
  "job_ID (job_created now j) = job_ID j" "job_ID (job_written jo j) = job_ID j"
  "idr_Key (idem_created now r) = idr_Key r" "idr_Key (idem_written old' r) = idr_Key old'"
  by (simp_all add: vm_created_def vm_written_def job_created_def job_written_def
      idem_created_def idem_written_def)

text \<open>
  The contract: a successful operation has its effect on the view, a failed one has none,
  and \<open>ErrNotFound\<close> means the key is absent. \<open>sinv\<close> is what the implementation keeps true.
\<close>

locale store_api =
  fixes so :: "'s store_ops"
    and view :: "'s \<Rightarrow> store_view"
    and sinv :: "'s \<Rightarrow> bool"
  assumes CreateVM_ok: "so_CreateVM so now v s = (Inr u, s') \<Longrightarrow> sinv s \<Longrightarrow>
      sv_vms (view s) (vm_ID v) = None \<and> sinv s' \<and>
      view s' = (view s)\<lparr>sv_vms := (sv_vms (view s))(vm_ID v \<mapsto> vm_created now v)\<rparr>"
    and CreateVM_err: "so_CreateVM so now v s = (Inl e, s') \<Longrightarrow> sinv s \<Longrightarrow> sinv s' \<and> view s' = view s"
    and GetVM_ok: "so_GetVM so i s = (Inr v, s') \<Longrightarrow> sinv s \<Longrightarrow>
      sinv s' \<and> view s' = view s \<and> sv_vms (view s) i = Some v \<and> vm_ID v = i"
    and GetVM_err: "so_GetVM so i s = (Inl e, s') \<Longrightarrow> sinv s \<Longrightarrow>
      sinv s' \<and> view s' = view s \<and> (errors_Is e ErrNotFound \<longrightarrow> sv_vms (view s) i = None)"
    and ListVMs_ok: "so_ListVMs so s = (Inr vs, s') \<Longrightarrow> sinv s \<Longrightarrow>
      sinv s' \<and> view s' = view s \<and> distinct (map vm_ID vs) \<and> set vs = ran (sv_vms (view s)) \<and>
      (\<forall>v\<in>set vs. sv_vms (view s) (vm_ID v) = Some v)"
    and ListVMs_err: "so_ListVMs so s = (Inl e, s') \<Longrightarrow> sinv s \<Longrightarrow> sinv s' \<and> view s' = view s"
    and UpdateVM_ok: "so_UpdateVM so now v s = (Inr u, s') \<Longrightarrow> sinv s \<Longrightarrow>
      \<exists>old. sv_vms (view s) (vm_ID v) = Some old \<and> sinv s' \<and>
        view s' = (view s)\<lparr>sv_vms := (sv_vms (view s))(vm_ID v \<mapsto> vm_written now old v)\<rparr>"
    and UpdateVM_err: "so_UpdateVM so now v s = (Inl e, s') \<Longrightarrow> sinv s \<Longrightarrow> sinv s' \<and> view s' = view s"
    and CreateJob_ok: "so_CreateJob so now j s = (Inr j', s') \<Longrightarrow> sinv s \<Longrightarrow>
      j' = job_created now j \<and> sv_jobs (view s) (job_ID j) = None \<and> sinv s' \<and>
      view s' = (view s)\<lparr>sv_jobs := (sv_jobs (view s))(job_ID j \<mapsto> job_created now j)\<rparr>"
    and CreateJob_err: "so_CreateJob so now j s = (Inl e, s') \<Longrightarrow> sinv s \<Longrightarrow> sinv s' \<and> view s' = view s"
    and GetJob_ok: "so_GetJob so i s = (Inr j, s') \<Longrightarrow> sinv s \<Longrightarrow>
      sinv s' \<and> view s' = view s \<and> sv_jobs (view s) i = Some j \<and> job_ID j = i"
    and GetJob_err: "so_GetJob so i s = (Inl e, s') \<Longrightarrow> sinv s \<Longrightarrow>
      sinv s' \<and> view s' = view s \<and> (errors_Is e ErrNotFound \<longrightarrow> sv_jobs (view s) i = None)"
    and UpdateJob_ok: "so_UpdateJob so j s = (Inr u, s') \<Longrightarrow> sinv s \<Longrightarrow>
      \<exists>old. sv_jobs (view s) (job_ID j) = Some old \<and> sinv s' \<and>
        view s' = (view s)\<lparr>sv_jobs := (sv_jobs (view s))(job_ID j \<mapsto> job_written old j)\<rparr>"
    and UpdateJob_err: "so_UpdateJob so j s = (Inl e, s') \<Longrightarrow> sinv s \<Longrightarrow> sinv s' \<and> view s' = view s"
    and ListJobs_ok: "so_ListJobsByState so st s = (Inr js, s') \<Longrightarrow> sinv s \<Longrightarrow>
      sinv s' \<and> view s' = view s \<and> distinct (map job_ID js) \<and>
      (\<forall>j. j \<in> set js \<longleftrightarrow> sv_jobs (view s) (job_ID j) = Some j \<and> job_State j = st)"
    and ListJobs_err: "so_ListJobsByState so st s = (Inl e, s') \<Longrightarrow> sinv s \<Longrightarrow> sinv s' \<and> view s' = view s"
    and GetIdem_ok: "so_GetIdempotency so now k s = (Inr r, s') \<Longrightarrow> sinv s \<Longrightarrow>
      sinv s' \<and> view s' = view s \<and> sv_idem (view s) k = Some r \<and> now \<le> idr_ExpiresAt r"
    and GetIdem_err: "so_GetIdempotency so now k s = (Inl e, s') \<Longrightarrow> sinv s \<Longrightarrow>
      sinv s' \<and> view s' = view s \<and>
      (errors_Is e ErrNotFound \<longrightarrow> (\<forall>r. sv_idem (view s) k = Some r \<longrightarrow> idr_ExpiresAt r < now))"
    and PutIdem_ok: "so_PutIdempotency so now r s = (Inr r', s') \<Longrightarrow> sinv s \<Longrightarrow>
      r' = idem_created now r \<and> sv_idem (view s) (idr_Key r) = None \<and> sinv s' \<and>
      view s' = (view s)\<lparr>sv_idem := (sv_idem (view s))(idr_Key r \<mapsto> idem_created now r)\<rparr>"
    and PutIdem_err: "so_PutIdempotency so now r s = (Inl e, s') \<Longrightarrow> sinv s \<Longrightarrow> sinv s' \<and> view s' = view s"
    and UpdateIdem_ok: "so_UpdateIdempotency so r s = (Inr u, s') \<Longrightarrow> sinv s \<Longrightarrow>
      \<exists>old. sv_idem (view s) (idr_Key r) = Some old \<and> sinv s' \<and>
        view s' = (view s)\<lparr>sv_idem := (sv_idem (view s))(idr_Key r \<mapsto> idem_written old r)\<rparr>"
    and UpdateIdem_err: "so_UpdateIdempotency so r s = (Inl e, s') \<Longrightarrow> sinv s \<Longrightarrow> sinv s' \<and> view s' = view s"
    and DeleteIdem_ok: "so_DeleteIdempotency so k s = (Inr u, s') \<Longrightarrow> sinv s \<Longrightarrow>
      sinv s' \<and> view s' = (view s)\<lparr>sv_idem := (sv_idem (view s))(k := None)\<rparr>"
    and DeleteIdem_err: "so_DeleteIdempotency so k s = (Inl e, s') \<Longrightarrow> sinv s \<Longrightarrow> sinv s' \<and> view s' = view s"
    and AllocateIP_ok: "so_AllocateIP so now n vid m cs s = (Inr ip, s') \<Longrightarrow> sinv s \<Longrightarrow>
      ip \<in> set cs \<and> sv_ips (view s) (n, ip) = None \<and> sinv s' \<and>
      view s' = (view s)\<lparr>sv_ips := (sv_ips (view s))((n, ip) \<mapsto> vid)\<rparr>"
    and AllocateIP_err: "so_AllocateIP so now n vid m cs s = (Inl e, s') \<Longrightarrow> sinv s \<Longrightarrow>
      sinv s' \<and> view s' = view s \<and>
      (errors_Is e ErrNoIPAvailable \<longrightarrow> (\<forall>ip\<in>set cs. sv_ips (view s) (n, ip) \<noteq> None))"
    and ReleaseIP_ok: "so_ReleaseIPByVM so vid s = (Inr u, s') \<Longrightarrow> sinv s \<Longrightarrow>
      sinv s' \<and> view s' = (view s)\<lparr>sv_ips := (\<lambda>key. if sv_ips (view s) key = Some vid then None else sv_ips (view s) key)\<rparr>"
    and ReleaseIP_err: "so_ReleaseIPByVM so vid s = (Inl e, s') \<Longrightarrow> sinv s \<Longrightarrow> sinv s' \<and> view s' = view s"

text \<open>A store with no failure ahead: reads leave it as it is and every operation whose
  record exists (or, for an insert, does not) succeeds.\<close>

locale calm_store = store_api so view sinv
  for so :: "'s store_ops" and view :: "'s \<Rightarrow> store_view" and sinv :: "'s \<Rightarrow> bool" +
  fixes calm :: "'s \<Rightarrow> bool"
  assumes calm_GetVM: "calm s \<Longrightarrow> sv_vms (view s) i = Some v \<Longrightarrow> so_GetVM so i s = (Inr v, s)"
    and calm_GetVM_None: "calm s \<Longrightarrow> sv_vms (view s) i = None \<Longrightarrow>
      so_GetVM so i s = (Inl (sentinel_err ErrNotFound), s)"
    and calm_UpdateVM: "calm s \<Longrightarrow> sv_vms (view s) (vm_ID v) = Some old \<Longrightarrow>
      \<exists>s'. so_UpdateVM so now v s = (Inr (), s') \<and> calm s'"
    and calm_GetJob: "calm s \<Longrightarrow> sv_jobs (view s) i = Some j \<Longrightarrow> so_GetJob so i s = (Inr j, s)"
    and calm_UpdateJob: "calm s \<Longrightarrow> sv_jobs (view s) (job_ID j) = Some old' \<Longrightarrow>
      \<exists>s'. so_UpdateJob so j s = (Inr (), s') \<and> calm s'"
    and calm_ListJobs: "calm s \<Longrightarrow> \<exists>js. so_ListJobsByState so st s = (Inr js, s)"
    and calm_ReleaseIP: "calm s \<Longrightarrow> \<exists>s'. so_ReleaseIPByVM so i s = (Inr (), s') \<and> calm s'"
    and calm_AllocateIP: "calm s \<Longrightarrow> so_AllocateIP so now n i m cs s = (r, s') \<Longrightarrow> calm s'"
    and calm_ListVMs: "calm s \<Longrightarrow> \<exists>vs. so_ListVMs so s = (Inr vs, s)"
    and calm_CreateVM: "calm s \<Longrightarrow> sv_vms (view s) (vm_ID v) = None \<Longrightarrow>
      \<exists>s'. so_CreateVM so now v s = (Inr (), s') \<and> calm s'"
    and calm_CreateJob: "calm s \<Longrightarrow> sv_jobs (view s) (job_ID j) = None \<Longrightarrow>
      \<exists>s'. so_CreateJob so now j s = (Inr (job_created now j), s') \<and> calm s'"
    and calm_kept: "calm s \<Longrightarrow>
      calm (snd (so_CreateVM so now v s)) \<and> calm (snd (so_GetVM so i s)) \<and> calm (snd (so_ListVMs so s)) \<and>
      calm (snd (so_UpdateVM so now v s)) \<and> calm (snd (so_CreateJob so now j s)) \<and>
      calm (snd (so_GetJob so i s)) \<and> calm (snd (so_UpdateJob so j s)) \<and>
      calm (snd (so_ListJobsByState so st s)) \<and> calm (snd (so_GetIdempotency so now k s)) \<and>
      calm (snd (so_PutIdempotency so now rec s)) \<and> calm (snd (so_UpdateIdempotency so rec s)) \<and>
      calm (snd (so_DeleteIdempotency so k s)) \<and> calm (snd (so_AllocateIP so now n i m cs s)) \<and>
      calm (snd (so_ReleaseIPByVM so i s))"
    and calm_errors: "calm s \<Longrightarrow> so_GetVM so i s = (Inl e, s1) \<or> so_UpdateVM so now v s = (Inl e, s1) \<or>
        so_AllocateIP so now n i m cs s = (Inl e, s1) \<or> so_ListVMs so s = (Inl e, s1) \<Longrightarrow>
      \<not> errors_Is e ContextCanceled"

context calm_store
begin

lemma calm_stays:
  assumes "calm s"
  shows "so_CreateVM so now v s = (r, s') \<Longrightarrow> calm s'" "so_GetVM so i s = (rv, s') \<Longrightarrow> calm s'"
    "so_ListVMs so s = (rl, s') \<Longrightarrow> calm s'" "so_UpdateVM so now v s = (r, s') \<Longrightarrow> calm s'"
    "so_CreateJob so now j s = (rj, s') \<Longrightarrow> calm s'" "so_GetJob so i s = (rj, s') \<Longrightarrow> calm s'"
    "so_UpdateJob so j s = (r, s') \<Longrightarrow> calm s'" "so_ListJobsByState so st s = (rjs, s') \<Longrightarrow> calm s'"
    "so_GetIdempotency so now k s = (ri, s') \<Longrightarrow> calm s'" "so_PutIdempotency so now rec s = (ri, s') \<Longrightarrow> calm s'"
    "so_UpdateIdempotency so rec s = (r, s') \<Longrightarrow> calm s'" "so_DeleteIdempotency so k s = (r, s') \<Longrightarrow> calm s'"
    "so_AllocateIP so now n i m cs s = (rs, s') \<Longrightarrow> calm s'" "so_ReleaseIPByVM so i s = (r, s') \<Longrightarrow> calm s'"
  using calm_kept [OF assms, of now v i j st k rec n m cs] by simp_all

lemmas api_laws = CreateVM_ok CreateVM_err GetVM_ok GetVM_err ListVMs_ok ListVMs_err UpdateVM_ok UpdateVM_err
  CreateJob_ok CreateJob_err GetJob_ok GetJob_err UpdateJob_ok UpdateJob_err ListJobs_ok ListJobs_err
  GetIdem_ok GetIdem_err PutIdem_ok PutIdem_err UpdateIdem_ok UpdateIdem_err DeleteIdem_ok DeleteIdem_err
  AllocateIP_ok AllocateIP_err ReleaseIP_ok ReleaseIP_err

lemma store_api_calm: "store_api so view (\<lambda>s. sinv s \<and> calm s)"
  by unfold_locales (erule conjE, frule (1) api_laws, drule (1) calm_stays [rotated], force)+

end

section \<open>SQLite implements the contract\<close>

definition sqlite_view :: "SQLiteStore \<Rightarrow> store_view" where
  "sqlite_view s = \<lparr>
     sv_vms = (\<lambda>i. map_option scanVM (row_of row_id (db_vms s) i)),
     sv_jobs = (\<lambda>i. map_option scanJob (row_of jrow_id (db_jobs s) i)),
     sv_idem = (\<lambda>k. map_option scanIdem (row_of irow_key (db_idem s) k)),
     sv_ips = (\<lambda>k. map_option ipa_VMID (row_of ip_key (db_ips s) k))\<rparr>"

text \<open>The primary keys of the four tables are unique.\<close>

definition sqlite_inv :: "SQLiteStore \<Rightarrow> bool" where
  "sqlite_inv s \<longleftrightarrow> distinct (map row_id (db_vms s)) \<and> distinct (map jrow_id (db_jobs s)) \<and>
     distinct (map irow_key (db_idem s)) \<and> distinct (map ip_key (db_ips s))"

definition sqlite_calm :: "SQLiteStore \<Rightarrow> bool" where
  "sqlite_calm s \<longleftrightarrow> db_faults s = []"

lemma driver_frame:
  assumes "driver s = (r, s1)"
  shows "db_vms s1 = db_vms s \<and> db_jobs s1 = db_jobs s \<and> db_idem s1 = db_idem s \<and> db_ips s1 = db_ips s"
  using assms by (auto simp: driver_def split: list.splits)

lemma fault_err_Is [simp]: "errors_Is (fault_err f) k \<longleftrightarrow> f = Cancelled \<and> k = ContextCanceled"
  by (cases f) auto

lemma driver_err:
  assumes "driver s = (Some e, s1)"
  shows "errors_Is e k \<Longrightarrow> k = ContextCanceled"
  using assms by (auto simp: driver_def split: list.splits)

lemma driver_calm: "sqlite_calm s \<Longrightarrow> driver s = (None, s)"
  by (simp add: driver_def sqlite_calm_def)

lemma sqlite_view_cong:
  assumes "db_vms s1 = db_vms s" "db_jobs s1 = db_jobs s" "db_idem s1 = db_idem s" "db_ips s1 = db_ips s"
  shows "sqlite_view s1 = sqlite_view s" and "sqlite_inv s1 = sqlite_inv s"
  using assms by (simp_all add: sqlite_view_def sqlite_inv_def)

lemma driver_view [simp]:
  assumes "driver s = (r, s1)"
  shows "sqlite_view s1 = sqlite_view s" and "sqlite_inv s1 = sqlite_inv s"
  using driver_frame [OF assms] sqlite_view_cong by blast+

lemma requireAffected_Inr: "requireAffected n = Inr u \<longleftrightarrow> n \<noteq> 0"
  by (simp add: requireAffected_def)

lemma affected_row: "length (filter (\<lambda>r. key r = k) rows) = 0 \<longleftrightarrow> row_of key rows k = None"
  by (induction rows) (auto simp: row_of_Cons)

lemma filter_key_row: "filter (\<lambda>r. key r = k) rows \<noteq> [] \<Longrightarrow> \<exists>r. row_of key rows k = Some r"
  using affected_row [of key k rows] by (cases "row_of key rows k") auto

lemma set_row_absent:
  "row_of key rows k = None \<Longrightarrow> set_row key k f rows = rows"
  by (induction rows) (auto simp: set_row_def row_of_Cons split: if_splits)

lemma distinct_sort_map: "distinct (map f (sort_key g xs)) \<longleftrightarrow> distinct (map f xs)"
  by (metis distinct_map inj_on_cong set_sort distinct_sort)

lemma ran_row_of:
  assumes "distinct (map key rows)"
  shows "ran (\<lambda>i. map_option f (row_of key rows i)) = f ` set rows"
  using assms by (auto simp: ran_def dest: row_of_SomeD) (metis row_of_distinct option.map(2))

lemma scan_updated_row:
  "scanVM ((vm_values v)\<lparr>row_created_at := row_created_at r\<rparr>) = v\<lparr>vm_CreatedAt := vm_CreatedAt (scanVM r)\<rparr>"
  "row_id ((vm_values v)\<lparr>row_created_at := c\<rparr>) = vm_ID v"
  by (simp_all add: scanVM_def vm_values_def boolToInt_def row_id_def)

lemma scan_updated_jrow:
  "scanJob ((job_values j)\<lparr>jrow_created_at := jrow_created_at r\<rparr>) = j\<lparr>job_CreatedAt := job_CreatedAt (scanJob r)\<rparr>"
  "jrow_id ((job_values j)\<lparr>jrow_created_at := c\<rparr>) = job_ID j"
  by (simp_all add: scanJob_def job_values_def jrow_id_def)

text \<open>\<open>UPDATE ... WHERE key = k\<close> on a keyed table, as the view sees it.\<close>

lemma set_row_view:
  assumes "\<And>r. key r = k \<Longrightarrow> key (f r) = k"
  shows "row_of key (set_row key k f rows) = (row_of key rows)(k := map_option f (row_of key rows k))"
    and "map key (set_row key k f rows) = map key rows"
proof -
  let ?g = "\<lambda>r. if key r = k then f r else r"
  have g: "set_row key k f rows = set_row key k ?g rows" by (simp add: set_row_def)
  have key: "\<And>r. key (?g r) = key r" using assms by simp
  show "map key (set_row key k f rows) = map key rows"
    unfolding g by (rule map_key_set_row) (rule key)
  have "map_option ?g (row_of key rows k) = map_option f (row_of key rows k)"
    by (cases "row_of key rows k") (auto dest: row_of_SomeD)
  then show "row_of key (set_row key k f rows) = (row_of key rows)(k := map_option f (row_of key rows k))"
    unfolding g using row_of_set_row [where f = ?g and k = k and key = key and rows = rows, OF key] by simp
qed

text \<open>One lemma per operation; together they discharge the contract.\<close>

named_theorems sqlite_laws \<open>the contract, operation by operation\<close>

lemma sqlite_CreateVM [sqlite_laws]:
  assumes "CreateVM now v s = (r, s')" "sqlite_inv s"
  shows "case r of
      Inl e \<Rightarrow> sqlite_inv s' \<and> sqlite_view s' = sqlite_view s
    | Inr u \<Rightarrow> sv_vms (sqlite_view s) (vm_ID v) = None \<and> sqlite_inv s' \<and>
        sqlite_view s' = (sqlite_view s)\<lparr>sv_vms := (sv_vms (sqlite_view s))(vm_ID v \<mapsto> vm_created now v)\<rparr>"
proof (cases "driver s")
  case (Pair f s1)
  note d = driver_frame [OF Pair] driver_view [OF Pair]
  let ?vm = "vm_created now v"
  show ?thesis
  proof (cases "f = None \<and> vm_ID v \<notin> row_id ` set (db_vms s)")
    case False
    with assms Pair d show ?thesis by (auto simp: CreateVM_def Let_def split: if_splits option.splits)
  next
    case True
    with assms Pair d have r: "r = Inr ()" and s': "s' = s1\<lparr>db_vms := db_vms s1 @ [vm_values ?vm]\<rparr>"
      by (auto simp: CreateVM_def Let_def vm_created_def split: if_splits)
    have n: "row_of row_id (db_vms s) (vm_ID v) = None" using True by (simp add: row_of_None)
    then have "row_of row_id (db_vms s @ [vm_values ?vm]) = (row_of row_id (db_vms s))(vm_ID v \<mapsto> vm_values ?vm)"
      using row_of_snoc [of row_id "db_vms s" "vm_values ?vm"] by simp
    with r s' n d assms(2) True show ?thesis
      by (auto simp: sqlite_view_def sqlite_inv_def fun_eq_iff)
  qed
qed

lemma sqlite_CreateJob [sqlite_laws]:
  assumes "CreateJob now j s = (r, s')" "sqlite_inv s"
  shows "case r of
      Inl e \<Rightarrow> sqlite_inv s' \<and> sqlite_view s' = sqlite_view s
    | Inr j' \<Rightarrow> j' = job_created now j \<and> sv_jobs (sqlite_view s) (job_ID j) = None \<and> sqlite_inv s' \<and>
        sqlite_view s' = (sqlite_view s)\<lparr>sv_jobs := (sv_jobs (sqlite_view s))(job_ID j \<mapsto> job_created now j)\<rparr>"
proof (cases "driver s")
  case (Pair f s1)
  note d = driver_frame [OF Pair] driver_view [OF Pair]
  let ?j = "job_created now j"
  show ?thesis
  proof (cases "f = None \<and> job_ID j \<notin> jrow_id ` set (db_jobs s)")
    case False
    with assms Pair d show ?thesis by (auto simp: CreateJob_def Let_def split: if_splits option.splits)
  next
    case True
    with assms Pair d have r: "r = Inr ?j" and s': "s' = s1\<lparr>db_jobs := db_jobs s1 @ [job_values ?j]\<rparr>"
      by (auto simp: CreateJob_def Let_def job_created_def split: if_splits)
    have n: "row_of jrow_id (db_jobs s) (job_ID j) = None" using True by (simp add: row_of_None)
    then have "row_of jrow_id (db_jobs s @ [job_values ?j]) = (row_of jrow_id (db_jobs s))(job_ID j \<mapsto> job_values ?j)"
      using row_of_snoc [of jrow_id "db_jobs s" "job_values ?j"] by simp
    with r s' n d assms(2) True show ?thesis
      by (auto simp: sqlite_view_def sqlite_inv_def fun_eq_iff)
  qed
qed

lemma sqlite_PutIdempotency [sqlite_laws]:
  assumes "PutIdempotency now j s = (r, s')" "sqlite_inv s"
  shows "case r of
      Inl e \<Rightarrow> sqlite_inv s' \<and> sqlite_view s' = sqlite_view s
    | Inr j' \<Rightarrow> j' = idem_created now j \<and> sv_idem (sqlite_view s) (idr_Key j) = None \<and> sqlite_inv s' \<and>
        sqlite_view s' = (sqlite_view s)\<lparr>sv_idem := (sv_idem (sqlite_view s))(idr_Key j \<mapsto> idem_created now j)\<rparr>"
proof (cases "driver s")
  case (Pair f s1)
  note d = driver_frame [OF Pair] driver_view [OF Pair]
  let ?j = "idem_created now j"
  show ?thesis
  proof (cases "f = None \<and> idr_Key j \<notin> irow_key ` set (db_idem s)")
    case False
    with assms Pair d show ?thesis by (auto simp: PutIdempotency_def Let_def split: if_splits option.splits)
  next
    case True
    with assms Pair d have r: "r = Inr ?j" and s': "s' = s1\<lparr>db_idem := db_idem s1 @ [idem_values ?j]\<rparr>"
      by (auto simp: PutIdempotency_def Let_def idem_created_def split: if_splits)
    have n: "row_of irow_key (db_idem s) (idr_Key j) = None" using True by (simp add: row_of_None)
    then have "row_of irow_key (db_idem s @ [idem_values ?j]) = (row_of irow_key (db_idem s))(idr_Key j \<mapsto> idem_values ?j)"
      using row_of_snoc [of irow_key "db_idem s" "idem_values ?j"] by simp
    with r s' n d assms(2) True show ?thesis
      by (auto simp: sqlite_view_def sqlite_inv_def fun_eq_iff)
  qed
qed

lemma sqlite_GetVM [sqlite_laws]:
  assumes "GetVM i s = (r, s')" "sqlite_inv s"
  shows "sqlite_inv s' \<and> sqlite_view s' = sqlite_view s \<and>
    (case r of Inl e \<Rightarrow> errors_Is e ErrNotFound \<longrightarrow> sv_vms (sqlite_view s) i = None
             | Inr v \<Rightarrow> sv_vms (sqlite_view s) i = Some v \<and> vm_ID v = i)"
proof (cases "driver s")
  case (Pair f s1)
  note d = driver_frame [OF Pair] driver_view [OF Pair]
  from assms Pair d driver_err [of s] show ?thesis
    by (fastforce simp: GetVM_def sqlite_view_def dest: row_of_SomeD split: option.splits)
qed

lemma sqlite_GetJob [sqlite_laws]:
  assumes "GetJob i s = (r, s')" "sqlite_inv s"
  shows "sqlite_inv s' \<and> sqlite_view s' = sqlite_view s \<and>
    (case r of Inl e \<Rightarrow> errors_Is e ErrNotFound \<longrightarrow> sv_jobs (sqlite_view s) i = None
             | Inr j \<Rightarrow> sv_jobs (sqlite_view s) i = Some j \<and> job_ID j = i)"
proof (cases "driver s")
  case (Pair f s1)
  note d = driver_frame [OF Pair] driver_view [OF Pair]
  from assms Pair d driver_err [of s] show ?thesis
    by (fastforce simp: GetJob_def sqlite_view_def dest: row_of_SomeD split: option.splits)
qed

lemma sqlite_GetIdempotency [sqlite_laws]:
  assumes "GetIdempotency now k s = (r, s')" "sqlite_inv s"
  shows "sqlite_inv s' \<and> sqlite_view s' = sqlite_view s \<and>
    (case r of Inl e \<Rightarrow> errors_Is e ErrNotFound \<longrightarrow>
                 (\<forall>rec. sv_idem (sqlite_view s) k = Some rec \<longrightarrow> idr_ExpiresAt rec < now)
             | Inr rec \<Rightarrow> sv_idem (sqlite_view s) k = Some rec \<and> now \<le> idr_ExpiresAt rec)"
proof (cases "driver s")
  case (Pair f s1)
  note d = driver_frame [OF Pair] driver_view [OF Pair]
  from assms Pair d driver_err [of s] show ?thesis
    by (fastforce simp: GetIdempotency_def sqlite_view_def Let_def split: option.splits if_splits)
qed

lemma sqlite_UpdateVM [sqlite_laws]:
  assumes "UpdateVM now v s = (r, s')" "sqlite_inv s"
  shows "case r of
      Inl e \<Rightarrow> sqlite_inv s' \<and> sqlite_view s' = sqlite_view s
    | Inr u \<Rightarrow> (\<exists>old. sv_vms (sqlite_view s) (vm_ID v) = Some old \<and> sqlite_inv s' \<and>
        sqlite_view s' = (sqlite_view s)\<lparr>sv_vms := (sv_vms (sqlite_view s))(vm_ID v \<mapsto> vm_written now old v)\<rparr>)"
proof (cases "driver s")
  case (Pair f s1)
  note d = driver_frame [OF Pair] driver_view [OF Pair]
  let ?f = "\<lambda>r. (vm_values (v\<lparr>vm_UpdatedAt := now\<rparr>))\<lparr>row_created_at := row_created_at r\<rparr>"
  let ?rows = "set_row row_id (vm_ID v) ?f (db_vms s)"
  note upd = set_row_view [where key = row_id and k = "vm_ID v" and f = ?f and rows = "db_vms s"]
  show ?thesis
  proof (cases "f = None")
    case False
    with assms Pair d show ?thesis by (auto simp: UpdateVM_def split: option.splits)
  next
    case True
    with assms Pair d
    have r: "r = requireAffected (length (filter (\<lambda>r. row_id r = vm_ID v) (db_vms s)))"
      and s': "s' = s1\<lparr>db_vms := ?rows\<rparr>"
      by (auto simp: UpdateVM_def)
    show ?thesis
    proof (cases "row_of row_id (db_vms s) (vm_ID v)")
      case None
      then have "?rows = db_vms s" by (rule set_row_absent)
      moreover have "r = Inl (sentinel_err ErrNotFound)"
        using None affected_row [of row_id "vm_ID v" "db_vms s"] r by (simp add: requireAffected_def)
      ultimately show ?thesis using s' d assms(2) by (simp add: sqlite_view_def sqlite_inv_def)
    next
      case (Some old)
      then have "r = Inr ()"
        using affected_row [of row_id "vm_ID v" "db_vms s"] r by (simp add: requireAffected_def)
      moreover have "v\<lparr>vm_UpdatedAt := now, vm_CreatedAt := vm_CreatedAt (scanVM old)\<rparr> = vm_written now (scanVM old) v"
        by (simp add: vm_written_def)
      ultimately show ?thesis using s' d assms(2) upd Some
        by (simp add: sqlite_view_def sqlite_inv_def fun_eq_iff scan_updated_row)
    qed
  qed
qed

lemma sqlite_UpdateJob [sqlite_laws]:
  assumes "UpdateJob j s = (r, s')" "sqlite_inv s"
  shows "case r of
      Inl e \<Rightarrow> sqlite_inv s' \<and> sqlite_view s' = sqlite_view s
    | Inr u \<Rightarrow> (\<exists>old. sv_jobs (sqlite_view s) (job_ID j) = Some old \<and> sqlite_inv s' \<and>
        sqlite_view s' = (sqlite_view s)\<lparr>sv_jobs := (sv_jobs (sqlite_view s))(job_ID j \<mapsto> job_written old j)\<rparr>)"
proof (cases "driver s")
  case (Pair f s1)
  note d = driver_frame [OF Pair] driver_view [OF Pair]
  let ?f = "\<lambda>r. (job_values j)\<lparr>jrow_created_at := jrow_created_at r\<rparr>"
  let ?rows = "set_row jrow_id (job_ID j) ?f (db_jobs s)"
  note upd = set_row_view [where key = jrow_id and k = "job_ID j" and f = ?f and rows = "db_jobs s"]
  show ?thesis
  proof (cases "f = None")
    case False
    with assms Pair d show ?thesis by (auto simp: UpdateJob_def split: option.splits)
  next
    case True
    with assms Pair d
    have r: "r = requireAffected (length (filter (\<lambda>r. jrow_id r = job_ID j) (db_jobs s)))"
      and s': "s' = s1\<lparr>db_jobs := ?rows\<rparr>"
      by (auto simp: UpdateJob_def)
    show ?thesis
    proof (cases "row_of jrow_id (db_jobs s) (job_ID j)")
      case None
      then have "?rows = db_jobs s" by (rule set_row_absent)
      moreover have "r = Inl (sentinel_err ErrNotFound)"
        using None affected_row [of jrow_id "job_ID j" "db_jobs s"] r by (simp add: requireAffected_def)
      ultimately show ?thesis using s' d assms(2) by (simp add: sqlite_view_def sqlite_inv_def)
    next
      case (Some old)
      then have "r = Inr ()"
        using affected_row [of jrow_id "job_ID j" "db_jobs s"] r by (simp add: requireAffected_def)
      then show ?thesis using s' d assms(2) upd Some
        by (simp add: sqlite_view_def sqlite_inv_def fun_eq_iff scan_updated_jrow job_written_def)
    qed
  qed
qed

lemma sqlite_UpdateIdempotency [sqlite_laws]:
  assumes "UpdateIdempotency rec s = (r, s')" "sqlite_inv s"
  shows "case r of
      Inl e \<Rightarrow> sqlite_inv s' \<and> sqlite_view s' = sqlite_view s
    | Inr u \<Rightarrow> (\<exists>old. sv_idem (sqlite_view s) (idr_Key rec) = Some old \<and> sqlite_inv s' \<and>
        sqlite_view s' = (sqlite_view s)\<lparr>sv_idem := (sv_idem (sqlite_view s))(idr_Key rec \<mapsto> idem_written old rec)\<rparr>)"
proof (cases "driver s")
  case (Pair f s1)
  note d = driver_frame [OF Pair] driver_view [OF Pair]
  let ?f = "\<lambda>r. r\<lparr>irow_plain := (irow_plain r)\<lparr>idr_JobID := idr_JobID rec,
                idr_Response := idr_Response rec, idr_StatusCode := idr_StatusCode rec\<rparr>\<rparr>"
  let ?rows = "set_row irow_key (idr_Key rec) ?f (db_idem s)"
  note upd = set_row_view [where key = irow_key and k = "idr_Key rec" and f = ?f and rows = "db_idem s"]
  have f: "irow_key (?f r) = irow_key r" "scanIdem (?f r) = idem_written (scanIdem r) rec" for r
    by (simp_all add: irow_key_def scanIdem_def idem_written_def)
  show ?thesis
  proof (cases "f = None")
    case False
    with assms Pair d show ?thesis by (auto simp: UpdateIdempotency_def split: option.splits)
  next
    case True
    with assms Pair d
    have r: "r = requireAffected (length (filter (\<lambda>r. irow_key r = idr_Key rec) (db_idem s)))"
      and s': "s' = s1\<lparr>db_idem := ?rows\<rparr>"
      by (auto simp: UpdateIdempotency_def)
    show ?thesis
    proof (cases "row_of irow_key (db_idem s) (idr_Key rec)")
      case None
      then have "?rows = db_idem s" by (rule set_row_absent)
      moreover have "r = Inl (sentinel_err ErrNotFound)"
        using None affected_row [of irow_key "idr_Key rec" "db_idem s"] r by (simp add: requireAffected_def)
      ultimately show ?thesis using s' d assms(2) by (simp add: sqlite_view_def sqlite_inv_def)
    next
      case (Some old)
      then have "r = Inr ()"
        using affected_row [of irow_key "idr_Key rec" "db_idem s"] r by (simp add: requireAffected_def)
      then show ?thesis using s' d assms(2) upd Some f
        by (simp add: sqlite_view_def sqlite_inv_def fun_eq_iff)
    qed
  qed
qed

lemma sqlite_ListVMs [sqlite_laws]:
  assumes "ListVMs s = (r, s')" "sqlite_inv s"
  shows "sqlite_inv s' \<and> sqlite_view s' = sqlite_view s \<and>
    (\<forall>vs. r = Inr vs \<longrightarrow> distinct (map vm_ID vs) \<and> set vs = ran (sv_vms (sqlite_view s)) \<and>
       (\<forall>v\<in>set vs. sv_vms (sqlite_view s) (vm_ID v) = Some v))"
proof (cases "driver s")
  case (Pair f s1)
  note d = driver_frame [OF Pair] driver_view [OF Pair]
  have keys: "vm_ID \<circ> scanVM = row_id" by (rule ext) simp
  show ?thesis
  proof (cases "f = None")
    case False
    with assms Pair d show ?thesis by (auto simp: ListVMs_def split: option.splits)
  next
    case True
    with assms Pair d have "r = Inr (map scanVM (sort_key row_created_at (db_vms s)))" "s' = s1"
      by (auto simp: ListVMs_def)
    with d assms(2) keys show ?thesis
      by (auto simp: sqlite_view_def sqlite_inv_def distinct_sort_map ran_row_of row_of_distinct)
  qed
qed

lemma sqlite_ListJobsByState [sqlite_laws]:
  assumes "ListJobsByState st s = (r, s')" "sqlite_inv s"
  shows "sqlite_inv s' \<and> sqlite_view s' = sqlite_view s \<and>
    (\<forall>js. r = Inr js \<longrightarrow> distinct (map job_ID js) \<and>
       (\<forall>j. j \<in> set js \<longleftrightarrow> sv_jobs (sqlite_view s) (job_ID j) = Some j \<and> job_State j = st))"
proof (cases "driver s")
  case (Pair f s1)
  note d = driver_frame [OF Pair] driver_view [OF Pair]
  have keys: "job_ID \<circ> scanJob = jrow_id" by (rule ext) simp
  have st: "job_State (scanJob r) = job_State (jrow_plain r)" for r by (simp add: scanJob_def)
  show ?thesis
  proof (cases "f = None")
    case False
    with assms Pair d show ?thesis by (auto simp: ListJobsByState_def split: option.splits)
  next
    case True
    with assms Pair d have r: "r = Inr (map scanJob (sort_key jrow_created_at
        (filter (\<lambda>r. job_State (jrow_plain r) = st) (db_jobs s))))" "s' = s1"
      by (auto simp: ListJobsByState_def)
    have dj: "distinct (map jrow_id (db_jobs s))" using assms(2) by (simp add: sqlite_inv_def)
    let ?js = "map scanJob (sort_key jrow_created_at (filter (\<lambda>r. job_State (jrow_plain r) = st) (db_jobs s)))"
    have "distinct (map job_ID ?js)"
      using dj keys by (simp add: distinct_sort_map distinct_map_filter)
    moreover have "j \<in> set ?js \<longleftrightarrow> sv_jobs (sqlite_view s) (job_ID j) = Some j \<and> job_State j = st" for j
    proof
      assume "j \<in> set ?js"
      then obtain r where "r \<in> set (db_jobs s)" "j = scanJob r" "job_State j = st" by (auto simp: st)
      with dj show "sv_jobs (sqlite_view s) (job_ID j) = Some j \<and> job_State j = st"
        by (simp add: sqlite_view_def row_of_distinct)
    next
      assume "sv_jobs (sqlite_view s) (job_ID j) = Some j \<and> job_State j = st"
      then obtain r where "row_of jrow_id (db_jobs s) (job_ID j) = Some r" "scanJob r = j" "job_State j = st"
        by (auto simp: sqlite_view_def)
      then show "j \<in> set ?js" using row_of_SomeD by (force simp: st)
    qed
    ultimately show ?thesis using r d assms(2) by simp
  qed
qed

lemma sqlite_DeleteIdempotency [sqlite_laws]:
  assumes "DeleteIdempotency k s = (r, s')" "sqlite_inv s"
  shows "case r of
      Inl e \<Rightarrow> sqlite_inv s' \<and> sqlite_view s' = sqlite_view s
    | Inr u \<Rightarrow> sqlite_inv s' \<and> sqlite_view s' = (sqlite_view s)\<lparr>sv_idem := (sv_idem (sqlite_view s))(k := None)\<rparr>"
proof (cases "driver s")
  case (Pair f s1)
  note d = driver_frame [OF Pair] driver_view [OF Pair]
  from assms Pair d show ?thesis
    by (auto simp: DeleteIdempotency_def sqlite_view_def sqlite_inv_def row_of_filter fun_eq_iff
        distinct_map_filter split: option.splits)
qed

lemma row_of_release:
  assumes "distinct (map key rows)"
  shows "map_option g (row_of key (filter (\<lambda>a. g a \<noteq> x) rows) k) =
    (if map_option g (row_of key rows k) = Some x then None else map_option g (row_of key rows k))"
  using assms
proof (induction rows)
  case Nil
  then show ?case by simp
next
  case (Cons a rows)
  have "row_of key (filter (\<lambda>a. g a \<noteq> x) rows) k = None" if "key a = k"
    using Cons.prems that by (auto simp: row_of_None)
  with Cons show ?case by (auto simp: row_of_Cons)
qed

lemma sqlite_ReleaseIPByVM [sqlite_laws]:
  assumes "ReleaseIPByVM vid s = (r, s')" "sqlite_inv s"
  shows "case r of
      Inl e \<Rightarrow> sqlite_inv s' \<and> sqlite_view s' = sqlite_view s
    | Inr u \<Rightarrow> sqlite_inv s' \<and> sqlite_view s' = (sqlite_view s)\<lparr>sv_ips :=
        (\<lambda>key. if sv_ips (sqlite_view s) key = Some vid then None else sv_ips (sqlite_view s) key)\<rparr>"
proof (cases "driver s")
  case (Pair f s1)
  note d = driver_frame [OF Pair] driver_view [OF Pair]
  have "distinct (map ip_key (db_ips s))" using assms(2) by (simp add: sqlite_inv_def)
  note rel = row_of_release [where g = ipa_VMID and x = vid, OF this]
  from assms Pair d show ?thesis
    by (auto simp: ReleaseIPByVM_def sqlite_view_def sqlite_inv_def distinct_map_filter fun_eq_iff rel
        split: option.splits)
qed

lemma taken_ips_view: "ip \<in> taken_ips n s \<longleftrightarrow> sv_ips (sqlite_view s) (n, ip) \<noteq> None"
  by (auto simp: taken_ips_def sqlite_view_def row_of_None ip_key_def image_iff)

lemma sqlite_AllocateIP [sqlite_laws]:
  assumes "AllocateIP now n vid m cs s = (r, s')" "sqlite_inv s"
  shows "case r of
      Inl e \<Rightarrow> sqlite_inv s' \<and> sqlite_view s' = sqlite_view s \<and>
        (errors_Is e ErrNoIPAvailable \<longrightarrow> (\<forall>ip\<in>set cs. sv_ips (sqlite_view s) (n, ip) \<noteq> None))
    | Inr ip \<Rightarrow> ip \<in> set cs \<and> sv_ips (sqlite_view s) (n, ip) = None \<and> sqlite_inv s' \<and>
        sqlite_view s' = (sqlite_view s)\<lparr>sv_ips := (sv_ips (sqlite_view s))((n, ip) \<mapsto> vid)\<rparr>"
proof (cases r)
  case (Inl e)
  with assms show ?thesis
    by (auto simp: AllocateIP_def find_None_iff driver_view taken_ips_view dest: driver_err
        split: prod.splits option.splits)
next
  case (Inr ip)
  with assms obtain s1 s2 s3 s4 where d: "driver s = (None, s1)" "driver s1 = (None, s2)"
      "driver s2 = (None, s3)" "driver s3 = (None, s4)"
    and f: "find (\<lambda>ip. ip \<notin> taken_ips n s2) cs = Some ip"
    and s': "s' = s4\<lparr>db_ips := db_ips s4 @ [\<lparr>ipa_NetworkID = n, ipa_IP = ip,
       ipa_VMID = vid, ipa_MAC = m, ipa_CreatedAt = now\<rparr>]\<rparr>"
    by (auto simp: AllocateIP_def split: prod.splits option.splits)
  let ?a = "\<lparr>ipa_NetworkID = n, ipa_IP = ip, ipa_VMID = vid, ipa_MAC = m, ipa_CreatedAt = now\<rparr>"
  have key: "ip_key ?a = (n, ip)" by (simp add: ip_key_def)
  from f have "ip \<in> set cs" and "ip \<notin> taken_ips n s2" by (auto simp: find_Some_iff)
  then have none: "sv_ips (sqlite_view s) (n, ip) = None"
    using driver_view [OF d(1)] driver_view [OF d(2)] by (simp add: taken_ips_view)
  then have nr: "row_of ip_key (db_ips s) (n, ip) = None" by (simp add: sqlite_view_def)
  note snoc = row_of_snoc [of ip_key "db_ips s" ?a, unfolded key, OF nr]
  have notin: "(n, ip) \<notin> ip_key ` set (db_ips s)" using nr by (simp add: row_of_None)
  have same: "db_vms s4 = db_vms s" "db_jobs s4 = db_jobs s" "db_idem s4 = db_idem s" "db_ips s4 = db_ips s"
    using d [THEN driver_frame] by simp_all
  have "sqlite_view s' = (sqlite_view s)\<lparr>sv_ips := (sv_ips (sqlite_view s))((n, ip) \<mapsto> vid)\<rparr>"
    by (simp add: sqlite_view_def s' same snoc fun_eq_iff)
  moreover have "sqlite_inv s'"
    using assms(2) notin by (simp add: sqlite_inv_def s' same key)
  ultimately show ?thesis using Inr none \<open>ip \<in> set cs\<close> by simp
qed

lemma sqlite_ops_simps [simp]:
  "so_CreateVM sqlite_ops = CreateVM" "so_GetVM sqlite_ops = GetVM" "so_ListVMs sqlite_ops = ListVMs"
  "so_UpdateVM sqlite_ops = UpdateVM" "so_DeleteVM sqlite_ops = DeleteVM"
  "so_CreateJob sqlite_ops = CreateJob" "so_GetJob sqlite_ops = GetJob"
  "so_UpdateJob sqlite_ops = UpdateJob" "so_ListJobsByState sqlite_ops = ListJobsByState"
  "so_GetIdempotency sqlite_ops = GetIdempotency" "so_PutIdempotency sqlite_ops = PutIdempotency"
  "so_UpdateIdempotency sqlite_ops = UpdateIdempotency"
  "so_DeleteIdempotency sqlite_ops = DeleteIdempotency"
  "so_DeleteExpiredIdempotency sqlite_ops = DeleteExpiredIdempotency"
  "so_AllocateIP sqlite_ops = AllocateIP" "so_ReleaseIPByVM sqlite_ops = ReleaseIPByVM"
  "so_AllocatedIPs sqlite_ops = AllocatedIPs"
  by (simp_all add: sqlite_ops_def)

interpretation sqlite: store_api sqlite_ops sqlite_view sqlite_inv
  by unfold_locales (simp_all, (drule (1) sqlite_laws, simp)+)

lemma sqlite_affected:
  "row_of key rows k = Some x \<Longrightarrow> requireAffected (length (filter (\<lambda>r. key r = k) rows)) = Inr ()"
  using affected_row [of key k rows] by (auto simp: requireAffected_def)

lemma sqlite_calm_creates:
  assumes "sqlite_calm s"
  shows "sv_vms (sqlite_view s) (vm_ID v) = None \<Longrightarrow> \<exists>s'. CreateVM now v s = (Inr (), s') \<and> sqlite_calm s'"
    and "sv_jobs (sqlite_view s) (job_ID j) = None \<Longrightarrow>
      \<exists>s'. CreateJob now j s = (Inr (job_created now j), s') \<and> sqlite_calm s'"
  using assms row_of_None [of row_id "db_vms s" "vm_ID v"] row_of_None [of jrow_id "db_jobs s" "job_ID j"]
  by (auto simp: CreateVM_def CreateJob_def sqlite_view_def driver_calm sqlite_calm_def Let_def job_created_def)

lemma sqlite_calm_AllocateIP: "sqlite_calm s \<Longrightarrow> AllocateIP now n i m cs s = (r, s') \<Longrightarrow> sqlite_calm s'"
  by (auto simp: AllocateIP_def driver_calm sqlite_calm_def split: option.splits)

lemma sqlite_calm_kept:
  assumes "sqlite_calm s"
  shows "sqlite_calm (snd (CreateVM now v s))" "sqlite_calm (snd (GetVM i s))" "sqlite_calm (snd (ListVMs s))"
    "sqlite_calm (snd (UpdateVM now v s))" "sqlite_calm (snd (CreateJob now j s))"
    "sqlite_calm (snd (GetJob i s))" "sqlite_calm (snd (UpdateJob j s))"
    "sqlite_calm (snd (ListJobsByState st s))" "sqlite_calm (snd (GetIdempotency now k s))"
    "sqlite_calm (snd (PutIdempotency now rec s))" "sqlite_calm (snd (UpdateIdempotency rec s))"
    "sqlite_calm (snd (DeleteIdempotency k s))" "sqlite_calm (snd (AllocateIP now n i m cs s))"
    "sqlite_calm (snd (ReleaseIPByVM i s))"
  using assms
  by (simp_all add: CreateVM_def GetVM_def ListVMs_def UpdateVM_def CreateJob_def GetJob_def UpdateJob_def
      ListJobsByState_def GetIdempotency_def PutIdempotency_def UpdateIdempotency_def
      DeleteIdempotency_def AllocateIP_def ReleaseIPByVM_def driver_calm Let_def split: option.split)
    (simp_all add: sqlite_calm_def)

lemma sqlite_calm_errors:
  assumes "sqlite_calm s"
  shows "GetVM i s = (Inl e, s1) \<Longrightarrow> \<not> errors_Is e ContextCanceled"
    "UpdateVM now v s = (Inl e, s1) \<Longrightarrow> \<not> errors_Is e ContextCanceled"
    "AllocateIP now n i m cs s = (Inl e, s1) \<Longrightarrow> \<not> errors_Is e ContextCanceled"
    "ListVMs s = (Inl e, s1) \<Longrightarrow> \<not> errors_Is e ContextCanceled"
  using assms
  by (auto simp: GetVM_def ListVMs_def UpdateVM_def AllocateIP_def requireAffected_def driver_calm Let_def
      split: option.splits if_splits)

interpretation sqlite: calm_store sqlite_ops sqlite_view sqlite_inv sqlite_calm
proof (unfold_locales, goal_cases)
  case (12 s now v i j st k rec n m cs)
  then show ?case by (simp add: sqlite_calm_kept)
next
  case (13 s i e s1 now v n m cs)
  then show ?case using sqlite_calm_errors [OF 13(1)] by auto
qed (auto simp: driver_calm GetVM_def UpdateVM_def GetJob_def UpdateJob_def ListJobsByState_def
      ReleaseIPByVM_def ListVMs_def sqlite_view_def sqlite_calm_def driver_def Let_def
      sqlite_affected
      intro: sqlite_calm_creates [unfolded sqlite_view_def sqlite_calm_def, simplified]
        sqlite_calm_AllocateIP [unfolded sqlite_calm_def])

section \<open>Properties\<close>



text \<open>What \<open>AllocateIP\<close> does when the database answers: it takes the first candidate that is
  not allocated in that network and records exactly it, and reports that no address is available
  exactly when every candidate is taken.\<close>

lemma AllocateIP_first_free:
  assumes "sqlite_calm s" "sqlite_inv s"
  shows "AllocateIP now n v m cs s = (case find (\<lambda>ip. sv_ips (sqlite_view s) (n, ip) = None) cs of
      None \<Rightarrow> (Inl (sentinel_err ErrNoIPAvailable), s)
    | Some ip \<Rightarrow> (Inr ip, s\<lparr>db_ips := db_ips s @ [\<lparr>ipa_NetworkID = n, ipa_IP = ip, ipa_VMID = v,
        ipa_MAC = m, ipa_CreatedAt = now\<rparr>]\<rparr>))"
proof -
  have "(\<lambda>ip. ip \<notin> taken_ips n s) = (\<lambda>ip. sv_ips (sqlite_view s) (n, ip) = None)"
    using taken_ips_view [of _ n s] by (auto simp: fun_eq_iff)
  then show ?thesis using assms(1) by (simp add: AllocateIP_def driver_calm split: option.splits)
qed

text \<open>Expiry as the table holds it: text the agent wrote. Every operation on the table keeps that.\<close>

definition idem_stamped :: "SQLiteStore \<Rightarrow> bool" where
  "idem_stamped s \<longleftrightarrow> (\<forall>r\<in>set (db_idem s). \<exists>t. irow_expires_at r = fmtTime t)"

lemma idem_stamped_ops:
  assumes "idem_stamped s"
  shows "idem_stamped (snd (PutIdempotency now rec s))" "idem_stamped (snd (UpdateIdempotency rec s))"
    "idem_stamped (snd (DeleteIdempotency key s))" "idem_stamped (snd (DeleteExpiredIdempotency now s))"
    "idem_stamped (snd (GetIdempotency now key s))"
proof -
  obtain e s1 where d: "driver s = (e, s1)" by fastforce
  then have "db_idem s1 = db_idem s" by (simp add: driver_frame)
  with assms have s1: "idem_stamped s1" by (simp add: idem_stamped_def)
  show "idem_stamped (snd (PutIdempotency now rec s))"
    using s1 by (cases e) (auto simp: PutIdempotency_def d idem_stamped_def idem_values_def Let_def)
  show "idem_stamped (snd (UpdateIdempotency rec s))"
    using s1 by (cases e) (auto simp: UpdateIdempotency_def d idem_stamped_def set_row_def)
  show "idem_stamped (snd (DeleteIdempotency key s))" "idem_stamped (snd (DeleteExpiredIdempotency now s))"
    using s1 by (cases e; simp add: DeleteIdempotency_def DeleteExpiredIdempotency_def d idem_stamped_def)+
  show "idem_stamped (snd (GetIdempotency now key s))"
    using s1 by (cases e) (auto simp: GetIdempotency_def d Let_def split: option.splits)
qed

lemma sweep_exact:
  assumes "sqlite_calm s" "sqlite_inv s" "idem_stamped s"
  obtains n s' where "DeleteExpiredIdempotency now s = (Inr n, s')" "sqlite_calm s'" "sqlite_inv s'"
    "\<And>k. sv_idem (sqlite_view s') k = (case sv_idem (sqlite_view s) k of None \<Rightarrow> None
       | Some r \<Rightarrow> if fmtTime (idr_ExpiresAt r) < fmtTime now then None else Some r)"
proof -
  let ?s = "s\<lparr>db_idem := filter (\<lambda>r. \<not> irow_expires_at r < fmtTime now) (db_idem s)\<rparr>"
  have stamp: "fmtTime (idr_ExpiresAt (scanIdem r)) = irow_expires_at r" if "row_of irow_key (db_idem s) k = Some r" for k r
    using assms(3) row_of_SomeD [OF that] by (auto simp: idem_stamped_def scanIdem_def)
  show thesis
  proof (rule that)
    show "DeleteExpiredIdempotency now s = (Inr (length (filter (\<lambda>r. irow_expires_at r < fmtTime now) (db_idem s))), ?s)"
      using assms(1) by (simp add: DeleteExpiredIdempotency_def driver_calm)
    show "sqlite_calm ?s" using assms(1) by (simp add: sqlite_calm_def)
    show inv: "sqlite_inv ?s" using assms(2) by (simp add: sqlite_inv_def distinct_map_filter)
    show "sv_idem (sqlite_view ?s) k = (case sv_idem (sqlite_view s) k of None \<Rightarrow> None
       | Some r \<Rightarrow> if fmtTime (idr_ExpiresAt r) < fmtTime now then None else Some r)" for k
      using assms(2) stamp [of k] by (auto simp: sqlite_view_def sqlite_inv_def row_of_filter_rows split: option.splits)
  qed
qed

lemma expired_key_conflicts:
  assumes "sqlite_calm s" "sqlite_inv s"
    and "sv_idem (sqlite_view s) key = Some old" "idr_ExpiresAt old < now" "idr_Key rec = key"
  shows "GetIdempotency now key s = (Inl (sentinel_err ErrNotFound), s) \<and>
    (\<exists>e. PutIdempotency now rec s = (Inl e, s) \<and> errors_Is e ErrConflict)"
proof -
  obtain row where row: "row_of irow_key (db_idem s) key = Some row" "old = scanIdem row"
    using assms(3) by (auto simp: sqlite_view_def)
  have "key \<in> irow_key ` set (db_idem s)" using row_of_SomeD [OF row(1)] by auto
  then have "PutIdempotency now rec s = (Inl (mapConstraintErr (unique_err ''idempotency_keys.key'')), s)"
    using assms(1,5) by (simp add: PutIdempotency_def Let_def driver_calm)
  moreover have "errors_Is (mapConstraintErr (unique_err ''idempotency_keys.key'')) ErrConflict"
    by (simp add: mapConstraintErr_def unique_err_def errors_New_def Contains_def IndexOf.simps HasPrefix_def)
  moreover have "GetIdempotency now key s = (Inl (sentinel_err ErrNotFound), s)"
    using assms(1,4) row by (simp add: GetIdempotency_def driver_calm)
  ultimately show ?thesis by simp
qed

text \<open>(C40) An expired idempotency key that has not been swept is not reusable: the lookup reports it
  as absent, yet the insert that then claims the key fails with a conflict and changes nothing. The
  sweep makes it reusable from a second after its expiry on (the texts it compares are not in the
  order of the instants within one second), loses no key that is valid for a second more, and adds
  none.\<close>

theorem expired_key_until_sweep:
  assumes "sqlite_calm s" "sqlite_inv s" "idem_stamped s"
    and "sv_idem (sqlite_view s) key = Some old" "idr_ExpiresAt old < now" "idr_Key rec = key"
    and "idr_ExpiresAt old + second \<le> later"
  shows "GetIdempotency now key s = (Inl (sentinel_err ErrNotFound), s) \<and>
    (\<exists>e. PutIdempotency now rec s = (Inl e, s) \<and> errors_Is e ErrConflict) \<and>
    (\<exists>n s1. DeleteExpiredIdempotency later s = (Inr n, s1) \<and>
       (\<exists>claimed s2. PutIdempotency later rec s1 = (Inr claimed, s2)) \<and>
       (\<forall>k r. sv_idem (sqlite_view s) k = Some r \<and> later + second \<le> idr_ExpiresAt r \<longrightarrow> sv_idem (sqlite_view s1) k = Some r) \<and>
       (\<forall>k r. sv_idem (sqlite_view s1) k = Some r \<longrightarrow> sv_idem (sqlite_view s) k = Some r \<and> later < idr_ExpiresAt r + second))"
proof -
  obtain n s1 where s1: "DeleteExpiredIdempotency later s = (Inr n, s1)" "sqlite_calm s1" "sqlite_inv s1"
    "\<And>k. sv_idem (sqlite_view s1) k = (case sv_idem (sqlite_view s) k of None \<Rightarrow> None
       | Some r \<Rightarrow> if fmtTime (idr_ExpiresAt r) < fmtTime later then None else Some r)"
    by (rule sweep_exact [OF assms(1-3), of later]) blast
  have gone: "sv_idem (sqlite_view s1) key = None" by (simp add: s1(4) assms(4) fmtTime_less [OF assms(7)])
  have put: "\<exists>claimed s2. PutIdempotency later rec s1 = (Inr claimed, s2)"
    using gone assms(6) by (auto simp: PutIdempotency_def driver_calm [OF s1(2)] Let_def sqlite_view_def row_of_None)
  have kept: "sv_idem (sqlite_view s1) k = Some r"
    if "sv_idem (sqlite_view s) k = Some r" "later + second \<le> idr_ExpiresAt r" for k r
    using that fmtTime_less [OF that(2)] by (simp add: s1(4))
  have old: "sv_idem (sqlite_view s) k = Some r \<and> later < idr_ExpiresAt r + second"
    if "sv_idem (sqlite_view s1) k = Some r" for k r
    using that fmtTime_less [of "idr_ExpiresAt r" later]
    by (cases "idr_ExpiresAt r + second \<le> later") (auto simp: s1(4) split: option.splits if_splits)
  show ?thesis
    using expired_key_conflicts [OF assms(1,2,4-6)] s1(1) put kept old by blast
qed

definition stale_record :: IdempotencyRecord where
  "stale_record = \<lparr>idr_Key = ''k'', idr_JobID = [], idr_RequestHash = ''h'', idr_Response = [],
     idr_StatusCode = 202, idr_CreatedAt = 0, idr_ExpiresAt = 10\<rparr>"

definition stale_store :: SQLiteStore where
  "stale_store = \<lparr>db_vms = [], db_jobs = [], db_idem = [idem_values stale_record], db_ips = [], db_faults = []\<rparr>"

theorem expired_key_until_sweep_witness:
  "fst (GetIdempotency 11 ''k'' stale_store) = Inl (sentinel_err ErrNotFound) \<and>
   (\<exists>e. fst (PutIdempotency 11 stale_record stale_store) = Inl e \<and> errors_Is e ErrConflict) \<and>
   (\<exists>n s1. DeleteExpiredIdempotency (10 + second) stale_store = (Inr n, s1) \<and>
      (\<exists>claimed s2. PutIdempotency (10 + second) stale_record s1 = (Inr claimed, s2)))"
proof -
  have ok: "sqlite_calm stale_store" "sqlite_inv stale_store" "idem_stamped stale_store"
    by (auto simp: stale_store_def sqlite_calm_def sqlite_inv_def idem_stamped_def idem_values_def)
  have row: "sv_idem (sqlite_view stale_store) ''k'' = Some stale_record"
    by (simp add: stale_store_def sqlite_view_def row_of_Cons) (simp add: stale_record_def)
  from expired_key_until_sweep [OF ok row, of 11 stale_record "10 + second"]
  show ?thesis by (simp add: stale_record_def) (elim exE conjE; intro conjI exI; simp)
qed

end
