(* ===== verification/Conn.thy ===== *)
theory Conn
  imports Prelude "HOL-Library.AList"
begin

text \<open>
  The seam over libvirt, \<open>internal/libvirt\<close>: the data of conn.go, the interface \<open>Conn\<close> as a
  record of operations on an abstract connection state (\<open>conn_ops\<close>), and the in-memory
  implementation \<open>Fake\<close> of fake.go, which the agent runs with when the URI is \<open>fake://\<close>.
  Go maps whose keys are enumerated are association lists, the others are functions.

  \<open>conn_api\<close> is the contract the VM service relies on, over the view of a connection (the
  domains with their states, the volumes and the DHCP leases); \<open>responsive_conn\<close> adds when an
  operation succeeds. The \<open>Fake\<close> satisfies both.
\<close>

section \<open>Data\<close>

datatype DomainState = StateUnknown | StateRunning | StateShutoff | StatePaused

fun DomainState_String :: "DomainState \<Rightarrow> string" where
  "DomainState_String StateRunning = ''running''"
| "DomainState_String StateShutoff = ''shutoff''"
| "DomainState_String StatePaused = ''paused''"
| "DomainState_String StateUnknown = ''unknown''"

record DomainStats =
  ds_Name :: string
  ds_State :: DomainState
  ds_CPUTimeNs :: "64 word"
  ds_MemBalloonKiB :: "64 word"
  ds_MemRSSKiB :: "64 word"
  ds_NetRxBytes :: "64 word"
  ds_NetTxBytes :: "64 word"
  ds_BlockRdBytes :: "64 word"
  ds_BlockWrBytes :: "64 word"
  ds_BlockAllocation :: "64 word"
  ds_BlockCapacity :: "64 word"

definition zero_DomainStats :: DomainStats where
  "zero_DomainStats = \<lparr>ds_Name = [], ds_State = StateUnknown, ds_CPUTimeNs = 0, ds_MemBalloonKiB = 0,
     ds_MemRSSKiB = 0, ds_NetRxBytes = 0, ds_NetTxBytes = 0, ds_BlockRdBytes = 0, ds_BlockWrBytes = 0,
     ds_BlockAllocation = 0, ds_BlockCapacity = 0\<rparr>"

record HostInfo =
  hi_Hostname :: string
  hi_CPUs :: int
  hi_MemoryTotalBytes :: "64 word"
  hi_MemoryFreeBytes :: "64 word"
  hi_StorageBytes :: "64 word"
  hi_StorageFreeBytes :: "64 word"
  hi_LibvirtVersion :: string

record SnapshotInfo =
  sn_Name :: string
  sn_State :: string
  sn_CreationTime :: time
  sn_Current :: bool

record StorageVolSpec =
  vs_Pool :: string
  vs_Name :: string
  vs_CapacityBytes :: "64 word"
  vs_BackingPath :: string
  vs_BackingFmt :: string

section \<open>The interface\<close>

record 'c conn_ops =
  co_Connect :: "'c \<Rightarrow> unit res \<times> 'c"
  co_Close :: "'c \<Rightarrow> unit res \<times> 'c"
  co_Ping :: "'c \<Rightarrow> unit res \<times> 'c"
  co_HostInfo :: "string \<Rightarrow> 'c \<Rightarrow> HostInfo res \<times> 'c"
  co_DefineDomain :: "string \<Rightarrow> 'c \<Rightarrow> string res \<times> 'c"
  co_StartDomain :: "string \<Rightarrow> 'c \<Rightarrow> unit res \<times> 'c"
  co_ShutdownDomain :: "string \<Rightarrow> 'c \<Rightarrow> unit res \<times> 'c"
  co_RebootDomain :: "string \<Rightarrow> 'c \<Rightarrow> unit res \<times> 'c"
  co_DestroyDomain :: "string \<Rightarrow> 'c \<Rightarrow> unit res \<times> 'c"
  co_SuspendDomain :: "string \<Rightarrow> 'c \<Rightarrow> unit res \<times> 'c"
  co_ResumeDomain :: "string \<Rightarrow> 'c \<Rightarrow> unit res \<times> 'c"
  co_UndefineDomain :: "string \<Rightarrow> 'c \<Rightarrow> unit res \<times> 'c"
  co_UpdateInterface :: "string \<Rightarrow> string \<Rightarrow> 'c \<Rightarrow> unit res \<times> 'c"
  co_DomainState :: "string \<Rightarrow> 'c \<Rightarrow> DomainState res \<times> 'c"
  co_ListDomains :: "'c \<Rightarrow> string list res \<times> 'c"
  co_DomainXML :: "string \<Rightarrow> 'c \<Rightarrow> string res \<times> 'c"
  co_DomainVNCAddress :: "string \<Rightarrow> 'c \<Rightarrow> (string \<times> int) res \<times> 'c"
  co_CreateVolume :: "StorageVolSpec \<Rightarrow> 'c \<Rightarrow> string res \<times> 'c"
  co_DeleteVolume :: "string \<Rightarrow> string \<Rightarrow> 'c \<Rightarrow> unit res \<times> 'c"
  co_ResizeVolume :: "string \<Rightarrow> string \<Rightarrow> 64 word \<Rightarrow> 'c \<Rightarrow> unit res \<times> 'c"
  co_AllDomainStats :: "'c \<Rightarrow> DomainStats list res \<times> 'c"
  co_AddDHCPHost :: "string \<Rightarrow> string \<Rightarrow> string \<Rightarrow> string \<Rightarrow> 'c \<Rightarrow> unit res \<times> 'c"
  co_RemoveDHCPHost :: "string \<Rightarrow> string \<Rightarrow> 'c \<Rightarrow> unit res \<times> 'c"
  co_CreateSnapshot :: "time \<Rightarrow> string \<Rightarrow> string \<Rightarrow> string \<Rightarrow> 'c \<Rightarrow> unit res \<times> 'c"
  co_ListSnapshots :: "string \<Rightarrow> 'c \<Rightarrow> SnapshotInfo list res \<times> 'c"
  co_DeleteSnapshot :: "string \<Rightarrow> string \<Rightarrow> 'c \<Rightarrow> unit res \<times> 'c"
  co_RevertSnapshot :: "string \<Rightarrow> string \<Rightarrow> 'c \<Rightarrow> unit res \<times> 'c"

section \<open>The in-memory implementation\<close>

record fakeDomain =
  fd_uuid :: string
  fd_xml :: string
  fd_state :: DomainState

record dhcpHost =
  dh_name :: string
  dh_ip :: string

record Fake =
  f_PingErr :: "goerr option"
  f_BaseDir :: string
  f_domains :: "(string \<times> fakeDomain) list"
  f_volumes :: "string \<rightharpoonup> string"
  f_dhcp :: "string \<Rightarrow> string \<rightharpoonup> dhcpHost"
  f_stats :: "string \<rightharpoonup> DomainStats"
  f_snapshots :: "string \<Rightarrow> SnapshotInfo list"
  f_linkDown :: "string \<Rightarrow> bool"

definition NewFake :: Fake where
  "NewFake = \<lparr>f_PingErr = None, f_BaseDir = ''/var/lib/libvirt/images'', f_domains = [],
     f_volumes = Map.empty, f_dhcp = (\<lambda>_. Map.empty), f_stats = Map.empty,
     f_snapshots = (\<lambda>_. []), f_linkDown = (\<lambda>_. False)\<rparr>"

definition fake_Connect :: "Fake \<Rightarrow> unit res \<times> Fake" where
  "fake_Connect f = (Inr (), f)"

definition fake_Close :: "Fake \<Rightarrow> unit res \<times> Fake" where
  "fake_Close f = (Inr (), f)"

definition fake_Ping :: "Fake \<Rightarrow> unit res \<times> Fake" where
  "fake_Ping f = ((case f_PingErr f of None \<Rightarrow> Inr () | Some e \<Rightarrow> Inl e), f)"

definition fake_HostInfo :: "string \<Rightarrow> Fake \<Rightarrow> HostInfo res \<times> Fake" where
  "fake_HostInfo pool f = (Inr \<lparr>hi_Hostname = ''fake-host'', hi_CPUs = 8,
     hi_MemoryTotalBytes = push_bit 30 16, hi_MemoryFreeBytes = push_bit 30 8,
     hi_StorageBytes = push_bit 30 500, hi_StorageFreeBytes = push_bit 30 400,
     hi_LibvirtVersion = ''0.0.0''\<rparr>, f)"

definition domainNameFromXML :: "string \<Rightarrow> string res" where
  "domainNameFromXML xml = (case IndexOf xml ''<name>'' of
      None \<Rightarrow> Inl (errors_New ''libvirt fake: domain xml missing <name>'')
    | Some i \<Rightarrow>
        (let rest = drop (i + length ''<name>'') xml
         in case IndexOf rest ''</name>'' of
              None \<Rightarrow> Inl (errors_New ''libvirt fake: domain xml missing </name>'')
            | Some j \<Rightarrow> Inr (take j rest)))"

definition fake_DefineDomain :: "string \<Rightarrow> Fake \<Rightarrow> string res \<times> Fake" where
  "fake_DefineDomain xml f = (case domainNameFromXML xml of
      Inl err \<Rightarrow> (Inl err, f)
    | Inr name \<Rightarrow>
        (let d = (case map_of (f_domains f) name of
               None \<Rightarrow> \<lparr>fd_uuid = ''fake-uuid-'' @ name, fd_xml = [], fd_state = StateShutoff\<rparr>
             | Some d \<Rightarrow> d)
         in (Inr (fd_uuid d), f\<lparr>f_domains := AList.update name (d\<lparr>fd_xml := xml\<rparr>) (f_domains f)\<rparr>)))"

definition requireDomain :: "string \<Rightarrow> (fakeDomain \<Rightarrow> fakeDomain) \<Rightarrow> Fake \<Rightarrow> unit res \<times> Fake" where
  "requireDomain name fn f = (case map_of (f_domains f) name of
      None \<Rightarrow> (Inl (sentinel_err ErrDomainNotFound), f)
    | Some d \<Rightarrow> (Inr (), f\<lparr>f_domains := AList.update name (fn d) (f_domains f)\<rparr>))"

definition setState :: "string \<Rightarrow> DomainState \<Rightarrow> Fake \<Rightarrow> unit res \<times> Fake" where
  "setState name st f = requireDomain name (\<lambda>d. d\<lparr>fd_state := st\<rparr>) f"

definition fake_StartDomain :: "string \<Rightarrow> Fake \<Rightarrow> unit res \<times> Fake" where
  "fake_StartDomain name f = setState name StateRunning f"

definition fake_ShutdownDomain :: "string \<Rightarrow> Fake \<Rightarrow> unit res \<times> Fake" where
  "fake_ShutdownDomain name f = setState name StateShutoff f"

definition fake_RebootDomain :: "string \<Rightarrow> Fake \<Rightarrow> unit res \<times> Fake" where
  "fake_RebootDomain name f = requireDomain name (\<lambda>d. d) f"

definition fake_DestroyDomain :: "string \<Rightarrow> Fake \<Rightarrow> unit res \<times> Fake" where
  "fake_DestroyDomain name f = setState name StateShutoff f"

definition fake_SuspendDomain :: "string \<Rightarrow> Fake \<Rightarrow> unit res \<times> Fake" where
  "fake_SuspendDomain name f = setState name StatePaused f"

definition fake_ResumeDomain :: "string \<Rightarrow> Fake \<Rightarrow> unit res \<times> Fake" where
  "fake_ResumeDomain name f = setState name StateRunning f"

definition fake_UndefineDomain :: "string \<Rightarrow> Fake \<Rightarrow> unit res \<times> Fake" where
  "fake_UndefineDomain name f = (case map_of (f_domains f) name of
      None \<Rightarrow> (Inl (sentinel_err ErrDomainNotFound), f)
    | Some d \<Rightarrow> (Inr (), f\<lparr>f_domains := AList.delete name (f_domains f)\<rparr>))"

definition fake_DomainState :: "string \<Rightarrow> Fake \<Rightarrow> DomainState res \<times> Fake" where
  "fake_DomainState name f = (case map_of (f_domains f) name of
      None \<Rightarrow> (Inl (sentinel_err ErrDomainNotFound), f)
    | Some d \<Rightarrow> (Inr (fd_state d), f))"

definition fake_ListDomains :: "Fake \<Rightarrow> string list res \<times> Fake" where
  "fake_ListDomains f = (Inr (sort (map fst (f_domains f))), f)"

definition fake_DomainXML :: "string \<Rightarrow> Fake \<Rightarrow> string res \<times> Fake" where
  "fake_DomainXML name f = (case map_of (f_domains f) name of
      None \<Rightarrow> (Inl (sentinel_err ErrDomainNotFound), f)
    | Some d \<Rightarrow> (Inr (fd_xml d), f))"

definition state_down :: string where
  "state_down = ''state='' @ [CHR 0x22] @ ''down'' @ [CHR 0x22]"

definition fake_UpdateInterface :: "string \<Rightarrow> string \<Rightarrow> Fake \<Rightarrow> unit res \<times> Fake" where
  "fake_UpdateInterface name ifaceXML f = (case map_of (f_domains f) name of
      None \<Rightarrow> (Inl (sentinel_err ErrDomainNotFound), f)
    | Some d \<Rightarrow> (Inr (), f\<lparr>f_linkDown := (f_linkDown f)(name := Contains ifaceXML state_down)\<rparr>))"

definition fake_DomainVNCAddress :: "string \<Rightarrow> Fake \<Rightarrow> (string \<times> int) res \<times> Fake" where
  "fake_DomainVNCAddress name f = (case map_of (f_domains f) name of
      None \<Rightarrow> (Inl (sentinel_err ErrDomainNotFound), f)
    | Some d \<Rightarrow> (Inr (''127.0.0.1'', 5901), f))"

definition vol_key :: "string \<Rightarrow> string \<Rightarrow> string" where
  "vol_key pool name = pool @ ''/'' @ name"

definition fake_CreateVolume :: "StorageVolSpec \<Rightarrow> Fake \<Rightarrow> string res \<times> Fake" where
  "fake_CreateVolume spec f =
     (let path = filepath_Join (f_BaseDir f) (vs_Name spec)
      in (Inr path, f\<lparr>f_volumes := (f_volumes f)(vol_key (vs_Pool spec) (vs_Name spec) \<mapsto> path)\<rparr>))"

definition fake_DeleteVolume :: "string \<Rightarrow> string \<Rightarrow> Fake \<Rightarrow> unit res \<times> Fake" where
  "fake_DeleteVolume pool name f =
     (Inr (), f\<lparr>f_volumes := (f_volumes f)(vol_key pool name := None)\<rparr>)"

definition fake_ResizeVolume :: "string \<Rightarrow> string \<Rightarrow> 64 word \<Rightarrow> Fake \<Rightarrow> unit res \<times> Fake" where
  "fake_ResizeVolume pool name cap f = (case f_volumes f (vol_key pool name) of
      None \<Rightarrow> (Inl (errors_New (''libvirt fake: volume '' @ vol_key pool name @ '' not found'')), f)
    | Some _ \<Rightarrow> (Inr (), f))"

definition fake_AllDomainStats :: "Fake \<Rightarrow> DomainStats list res \<times> Fake" where
  "fake_AllDomainStats f =
     (Inr (sort_key ds_Name (map (\<lambda>(name, d).
        (case f_stats f name of
           Some s \<Rightarrow> s\<lparr>ds_Name := name, ds_State := fd_state d\<rparr>
         | None \<Rightarrow> zero_DomainStats\<lparr>ds_Name := name, ds_State := fd_state d\<rparr>)) (f_domains f))), f)"

definition fake_AddDHCPHost :: "string \<Rightarrow> string \<Rightarrow> string \<Rightarrow> string \<Rightarrow> Fake \<Rightarrow> unit res \<times> Fake" where
  "fake_AddDHCPHost network mac name ip f =
     (Inr (), f\<lparr>f_dhcp := (f_dhcp f)(network := (f_dhcp f network)(mac \<mapsto> \<lparr>dh_name = name, dh_ip = ip\<rparr>))\<rparr>)"

definition fake_RemoveDHCPHost :: "string \<Rightarrow> string \<Rightarrow> Fake \<Rightarrow> unit res \<times> Fake" where
  "fake_RemoveDHCPHost network mac f =
     (Inr (), f\<lparr>f_dhcp := (f_dhcp f)(network := (f_dhcp f network)(mac := None))\<rparr>)"

definition fake_CreateSnapshot :: "time \<Rightarrow> string \<Rightarrow> string \<Rightarrow> string \<Rightarrow> Fake \<Rightarrow> unit res \<times> Fake" where
  "fake_CreateSnapshot now name snap desc f = (case map_of (f_domains f) name of
      None \<Rightarrow> (Inl (sentinel_err ErrDomainNotFound), f)
    | Some d \<Rightarrow> (Inr (), f\<lparr>f_snapshots := (f_snapshots f)(name :=
        map (\<lambda>s. s\<lparr>sn_Current := False\<rparr>) (f_snapshots f name) @
        [\<lparr>sn_Name = snap, sn_State = DomainState_String (fd_state d), sn_CreationTime = now,
          sn_Current = True\<rparr>])\<rparr>))"

definition fake_ListSnapshots :: "string \<Rightarrow> Fake \<Rightarrow> SnapshotInfo list res \<times> Fake" where
  "fake_ListSnapshots name f = (case map_of (f_domains f) name of
      None \<Rightarrow> (Inl (sentinel_err ErrDomainNotFound), f)
    | Some d \<Rightarrow> (Inr (f_snapshots f name), f))"

definition fake_DeleteSnapshot :: "string \<Rightarrow> string \<Rightarrow> Fake \<Rightarrow> unit res \<times> Fake" where
  "fake_DeleteSnapshot name snap f =
     (Inr (), f\<lparr>f_snapshots := (f_snapshots f)(name := filter (\<lambda>s. sn_Name s \<noteq> snap) (f_snapshots f name))\<rparr>)"

definition fake_RevertSnapshot :: "string \<Rightarrow> string \<Rightarrow> Fake \<Rightarrow> unit res \<times> Fake" where
  "fake_RevertSnapshot name snap f =
     (if (\<exists>s \<in> set (f_snapshots f name). sn_Name s = snap) then (Inr (), f)
      else (Inl (errors_New (''libvirt fake: snapshot '' @ Quote snap @ '' not found on '' @ Quote name)), f))"

definition fake_ops :: "Fake conn_ops" where
  "fake_ops = \<lparr>co_Connect = fake_Connect, co_Close = fake_Close, co_Ping = fake_Ping, co_HostInfo = fake_HostInfo, co_DefineDomain = fake_DefineDomain,
     co_StartDomain = fake_StartDomain, co_ShutdownDomain = fake_ShutdownDomain,
     co_RebootDomain = fake_RebootDomain, co_DestroyDomain = fake_DestroyDomain,
     co_SuspendDomain = fake_SuspendDomain, co_ResumeDomain = fake_ResumeDomain,
     co_UndefineDomain = fake_UndefineDomain, co_UpdateInterface = fake_UpdateInterface,
     co_DomainState = fake_DomainState, co_ListDomains = fake_ListDomains,
     co_DomainXML = fake_DomainXML, co_DomainVNCAddress = fake_DomainVNCAddress,
     co_CreateVolume = fake_CreateVolume, co_DeleteVolume = fake_DeleteVolume,
     co_ResizeVolume = fake_ResizeVolume, co_AllDomainStats = fake_AllDomainStats,
     co_AddDHCPHost = fake_AddDHCPHost, co_RemoveDHCPHost = fake_RemoveDHCPHost,
     co_CreateSnapshot = fake_CreateSnapshot, co_ListSnapshots = fake_ListSnapshots,
     co_DeleteSnapshot = fake_DeleteSnapshot, co_RevertSnapshot = fake_RevertSnapshot\<rparr>"

section \<open>The contract\<close>

text \<open>What a connection shows of a domain: its state as the agent reads it, whether an instance is
  running (which a domain that is shutting down still is), whether its definition survives that
  instance, and whether the hypervisor holds data that forbids undefining it (snapshots, a saved
  image).\<close>

record dom_view =
  dv_State :: DomainState
  dv_Active :: bool
  dv_Persistent :: bool
  dv_Held :: bool

record conn_view =
  cv_doms :: "string \<rightharpoonup> dom_view"
  cv_vols :: "string set"
  cv_leases :: "(string \<times> string) set"

text \<open>The effects of the operations. Undefining a domain that runs leaves it until it stops.\<close>

definition dom_set :: "string \<Rightarrow> (dom_view \<Rightarrow> dom_view option) \<Rightarrow> conn_view \<Rightarrow> conn_view" where
  "dom_set n f v = v\<lparr>cv_doms := (cv_doms v)(n := Option.bind (cv_doms v n) f)\<rparr>"

definition dom_started :: "dom_view \<Rightarrow> dom_view option" where
  "dom_started d = Some (d\<lparr>dv_State := StateRunning, dv_Active := True\<rparr>)"

definition dom_destroyed :: "dom_view \<Rightarrow> dom_view option" where
  "dom_destroyed d = (if dv_Persistent d then Some (d\<lparr>dv_State := StateShutoff, dv_Active := False\<rparr>) else None)"

definition dom_undefined :: "dom_view \<Rightarrow> dom_view option" where
  "dom_undefined d = (if dv_Active d then Some (d\<lparr>dv_Persistent := False\<rparr>) else None)"

definition fresh_dom :: dom_view where
  "fresh_dom = \<lparr>dv_State = StateShutoff, dv_Active = False, dv_Persistent = True, dv_Held = False\<rparr>"

definition dom_redefined :: "dom_view option \<Rightarrow> dom_view" where
  "dom_redefined d = (case d of None \<Rightarrow> fresh_dom | Some d \<Rightarrow> d\<lparr>dv_Persistent := True\<rparr>)"

text \<open>An operation that returns has had its effect; one that fails has had it or has changed nothing
  (the answer may be lost on the way).\<close>

definition acted :: "'a res \<Rightarrow> conn_view \<Rightarrow> conn_view \<Rightarrow> conn_view \<Rightarrow> bool" where
  "acted r old new eff \<longleftrightarrow> new = eff \<or> (isl r \<and> new = old)"

text \<open>Names that stand for themselves inside an XML document: the agent writes some names into
  documents as they are.\<close>

definition xml_plain :: "string \<Rightarrow> bool" where
  "xml_plain s \<longleftrightarrow> list_all (\<lambda>c. c \<notin> {CHR ''<'', CHR ''>'', CHR ''&'', CHR 0x22, CHR 0x27} \<and> 32 \<le> (of_char c :: nat)) s"

text \<open>\<open>domname\<close> is the domain name an XML document carries. \<open>ErrDomainNotFound\<close> from the state query
  means that the domain does not exist.\<close>

locale conn_api =
  fixes co :: "'c conn_ops"
    and cview :: "'c \<Rightarrow> conn_view"
    and domname :: "string \<Rightarrow> string option"
  assumes Active_law: "cv_doms (cview c) n = Some d \<Longrightarrow> dv_State d = StateRunning \<or> dv_State d = StatePaused \<Longrightarrow> dv_Active d"
    and State_law: "co_DomainState co n c = (r, c') \<Longrightarrow> cview c' = cview c \<and>
      (case r of Inl e \<Rightarrow> errors_Is e ErrDomainNotFound \<longrightarrow> cv_doms (cview c) n = None
               | Inr st \<Rightarrow> \<exists>d. cv_doms (cview c) n = Some d \<and> dv_State d = st)"
    and Start_law: "co_StartDomain co n c = (r', c') \<Longrightarrow> acted r' (cview c) (cview c') (dom_set n dom_started (cview c)) \<and>
      (r' = Inr () \<longrightarrow> cv_doms (cview c) n \<noteq> None)"
    and Destroy_law: "co_DestroyDomain co n c = (r', c') \<Longrightarrow> acted r' (cview c) (cview c') (dom_set n dom_destroyed (cview c)) \<and>
      (r' = Inr () \<longrightarrow> cv_doms (cview c) n \<noteq> None)"
    and Undefine_law: "co_UndefineDomain co n c = (r', c') \<Longrightarrow>
      acted r' (cview c) (cview c') (dom_set n dom_undefined (cview c)) \<or>
      acted r' (cview c) (cview c') (dom_set n Map.empty (cview c))"
    and Define_law: "co_DefineDomain co xml c = (rs, c') \<Longrightarrow> cview c' = cview c \<and> isl rs \<or>
      (\<exists>n. domname xml = Some n \<and> cview c' = (cview c)\<lparr>cv_doms := (cv_doms (cview c))(n \<mapsto> dom_redefined (cv_doms (cview c) n))\<rparr>)"
    and Update_law: "co_UpdateInterface co n xml c = (r', c') \<Longrightarrow> cview c' = cview c"
    and CreateVol_law: "co_CreateVolume co spec c = (rs, c') \<Longrightarrow> (\<exists>V. cview c' = (cview c)\<lparr>cv_vols := V\<rparr>) \<and>
      (xml_plain (vs_Name spec) \<longrightarrow> acted rs (cview c) (cview c')
        ((cview c)\<lparr>cv_vols := insert (vol_key (vs_Pool spec) (vs_Name spec)) (cv_vols (cview c))\<rparr>))"
    and DeleteVol_law: "co_DeleteVolume co pool n c = (r', c') \<Longrightarrow> acted r' (cview c) (cview c')
      ((cview c)\<lparr>cv_vols := cv_vols (cview c) - {vol_key pool n}\<rparr>)"
    and AddLease_law: "co_AddDHCPHost co net mac n ip c = (r', c') \<Longrightarrow> (\<exists>L. cview c' = (cview c)\<lparr>cv_leases := L\<rparr>) \<and>
      (xml_plain mac \<longrightarrow> acted r' (cview c) (cview c')
        ((cview c)\<lparr>cv_leases := insert (net, mac) (cv_leases (cview c))\<rparr>))"
    and RemoveLease_law: "co_RemoveDHCPHost co net mac c = (r', c') \<Longrightarrow> (\<exists>L. cview c' = (cview c)\<lparr>cv_leases := L\<rparr>) \<and>
      (xml_plain mac \<longrightarrow> acted r' (cview c) (cview c')
        ((cview c)\<lparr>cv_leases := cv_leases (cview c) - {(net, mac)}\<rparr>))"

text \<open>A connection that answers: an instance that runs can be destroyed, a domain that does not run
  can be started, and undefined unless it is held; deleting a volume never fails.\<close>

locale responsive_conn = conn_api co cview domname
  for co :: "'c conn_ops" and cview :: "'c \<Rightarrow> conn_view" and domname :: "string \<Rightarrow> string option" +
  assumes State_answers: "\<exists>c'. co_DomainState co n c =
      ((case cv_doms (cview c) n of None \<Rightarrow> Inl (sentinel_err ErrDomainNotFound) | Some d \<Rightarrow> Inr (dv_State d)), c')"
    and Start_answers: "cv_doms (cview c) n = Some d \<Longrightarrow> \<not> dv_Active d \<Longrightarrow> \<exists>c'. co_StartDomain co n c = (Inr (), c')"
    and Destroy_answers: "cv_doms (cview c) n = Some d \<Longrightarrow> dv_Active d \<Longrightarrow> \<exists>c'. co_DestroyDomain co n c = (Inr (), c')"
    and Undefine_answers: "cv_doms (cview c) n = Some d \<Longrightarrow> \<not> dv_Active d \<Longrightarrow> \<not> dv_Held d \<Longrightarrow>
      \<exists>c'. co_UndefineDomain co n c = (Inr (), c')"
    and DeleteVol_answers: "\<exists>c'. co_DeleteVolume co pool n c = (Inr (), c')"
begin

text \<open>Destroying and undefining a domain removes it, whatever it was doing, unless it is held.\<close>

lemma remove_domain:
  assumes "co_DestroyDomain co n c = (r1, c1)" "co_UndefineDomain co n c1 = (r2, c2)"
    and "\<forall>d. cv_doms (cview c) n = Some d \<longrightarrow> \<not> dv_Held d"
  shows "cview c2 = (cview c)\<lparr>cv_doms := (cv_doms (cview c))(n := None)\<rparr>"
proof -
  have 1: "cview c1 = cview c \<and> (\<forall>d. cv_doms (cview c) n = Some d \<longrightarrow> \<not> dv_Active d) \<or> cview c1 = dom_set n dom_destroyed (cview c)"
    using Destroy_law [OF assms(1)] Destroy_answers [of c n] assms(1) by (fastforce simp: acted_def)
  have stopped: "\<not> dv_Active d \<and> \<not> dv_Held d" if "cv_doms (cview c1) n = Some d" for d
    using 1 that assms(3) by (auto simp: dom_set_def dom_destroyed_def bind_eq_Some_conv split: if_splits)
  have rest: "(cview c1)\<lparr>cv_doms := (cv_doms (cview c1))(n := None)\<rparr> = (cview c)\<lparr>cv_doms := (cv_doms (cview c))(n := None)\<rparr>"
    using 1 by (auto simp: dom_set_def)
  have "cview c2 = (cview c1)\<lparr>cv_doms := (cv_doms (cview c1))(n := None)\<rparr>"
  proof (cases "cv_doms (cview c1) n")
    case None
    then have "dom_set n f (cview c1) = cview c1" "(cv_doms (cview c1))(n := None) = cv_doms (cview c1)" for f
      by (auto simp: dom_set_def fun_upd_idem)
    then show ?thesis using Undefine_law [OF assms(2)] by (auto simp: acted_def)
  next
    case (Some d)
    then have "r2 = Inr ()" using Undefine_answers [OF Some] stopped assms(2) by auto
    then show ?thesis using Undefine_law [OF assms(2)] Some stopped [OF Some]
      by (auto simp: acted_def dom_set_def dom_undefined_def)
  qed
  then show ?thesis by (simp add: rest)
qed

end

text \<open>The helpers with which the tests of the agent look into the in-memory hypervisor.\<close>

definition HasDomain :: "Fake \<Rightarrow> string \<Rightarrow> bool" where
  "HasDomain f name \<longleftrightarrow> map_of (f_domains f) name \<noteq> None"

definition IsLinkDown :: "Fake \<Rightarrow> string \<Rightarrow> bool" where
  "IsLinkDown f domain = f_linkDown f domain"

definition HasVolume :: "Fake \<Rightarrow> string \<Rightarrow> string \<Rightarrow> bool" where
  "HasVolume f pool name \<longleftrightarrow> f_volumes f (vol_key pool name) \<noteq> None"

definition DHCPHostIP :: "Fake \<Rightarrow> string \<Rightarrow> string \<Rightarrow> string" where
  "DHCPHostIP f network mac = (case f_dhcp f network mac of None \<Rightarrow> [] | Some h \<Rightarrow> dh_ip h)"

definition SetStats :: "string \<Rightarrow> DomainStats \<Rightarrow> Fake \<Rightarrow> Fake" where
  "SetStats name s f = f\<lparr>f_stats := (f_stats f)(name \<mapsto> s)\<rparr>"

definition fake_view :: "Fake \<Rightarrow> conn_view" where
  "fake_view f = \<lparr>
     cv_doms = (\<lambda>n. map_option (\<lambda>d. \<lparr>dv_State = fd_state d, dv_Active = (fd_state d \<noteq> StateShutoff),
       dv_Persistent = True, dv_Held = False\<rparr>) (map_of (f_domains f) n)),
     cv_vols = dom (f_volumes f),
     cv_leases = {(net, mac). f_dhcp f net mac \<noteq> None}\<rparr>"

definition fake_domname :: "string \<Rightarrow> string option" where
  "fake_domname xml = (case domainNameFromXML xml of Inl e \<Rightarrow> None | Inr n \<Rightarrow> Some n)"

lemma fake_helpers:
  "HasDomain f n \<longleftrightarrow> n \<in> dom (cv_doms (fake_view f))" "HasVolume f pool n \<longleftrightarrow> vol_key pool n \<in> cv_vols (fake_view f)"
  "DHCPHostIP f net mac \<noteq> [] \<Longrightarrow> (net, mac) \<in> cv_leases (fake_view f)"
  "map_of (f_domains f) n = Some d \<Longrightarrow> f_domains f = [(n, d)] \<Longrightarrow>
     fst (fake_AllDomainStats (SetStats n s f)) = Inr [s\<lparr>ds_Name := n, ds_State := fd_state d\<rparr>]"
  by (auto simp: HasDomain_def HasVolume_def DHCPHostIP_def SetStats_def fake_view_def fake_AllDomainStats_def split: option.splits)

lemma fake_ops_simps [simp]:
  "co_Connect fake_ops = fake_Connect" "co_Close fake_ops = fake_Close"
  "co_Ping fake_ops = fake_Ping" "co_HostInfo fake_ops = fake_HostInfo"
  "co_DefineDomain fake_ops = fake_DefineDomain" "co_StartDomain fake_ops = fake_StartDomain"
  "co_ShutdownDomain fake_ops = fake_ShutdownDomain" "co_RebootDomain fake_ops = fake_RebootDomain"
  "co_DestroyDomain fake_ops = fake_DestroyDomain" "co_SuspendDomain fake_ops = fake_SuspendDomain"
  "co_ResumeDomain fake_ops = fake_ResumeDomain" "co_UndefineDomain fake_ops = fake_UndefineDomain"
  "co_UpdateInterface fake_ops = fake_UpdateInterface" "co_DomainState fake_ops = fake_DomainState"
  "co_ListDomains fake_ops = fake_ListDomains" "co_DomainXML fake_ops = fake_DomainXML"
  "co_DomainVNCAddress fake_ops = fake_DomainVNCAddress" "co_CreateVolume fake_ops = fake_CreateVolume"
  "co_DeleteVolume fake_ops = fake_DeleteVolume" "co_ResizeVolume fake_ops = fake_ResizeVolume"
  "co_AllDomainStats fake_ops = fake_AllDomainStats" "co_AddDHCPHost fake_ops = fake_AddDHCPHost"
  "co_RemoveDHCPHost fake_ops = fake_RemoveDHCPHost" "co_CreateSnapshot fake_ops = fake_CreateSnapshot"
  "co_ListSnapshots fake_ops = fake_ListSnapshots" "co_DeleteSnapshot fake_ops = fake_DeleteSnapshot"
  "co_RevertSnapshot fake_ops = fake_RevertSnapshot"
  by (simp_all add: fake_ops_def)

lemmas fake_state_defs = setState_def requireDomain_def fake_StartDomain_def fake_DestroyDomain_def
  fake_ShutdownDomain_def fake_RebootDomain_def fake_UndefineDomain_def fake_DomainState_def
  fake_DefineDomain_def fake_UpdateInterface_def

lemmas fake_store_defs = fake_CreateVolume_def fake_DeleteVolume_def fake_AddDHCPHost_def
  fake_RemoveDHCPHost_def

lemmas view_defs = acted_def dom_set_def dom_started_def dom_destroyed_def dom_undefined_def dom_redefined_def fresh_dom_def

interpretation fake: conn_api fake_ops fake_view fake_domname
  by unfold_locales
    (auto simp: fake_state_defs fake_store_defs fake_view_def fake_domname_def view_defs Let_def fun_eq_iff
      update_conv' delete_conv' split: option.splits sum.splits if_splits)

interpretation fake: responsive_conn fake_ops fake_view fake_domname
  by unfold_locales
    (auto simp: fake_state_defs fake_store_defs fake_view_def split: option.splits)

end
