(* ===== verification/GoNet.thy ===== *)
theory GoNet
  imports Prelude
begin

text \<open>
  The part of Go's \<open>net\<close> package the agent uses: \<open>ParseIP\<close>, \<open>ParseCIDR\<close>, \<open>IPMask.Size\<close>,
  \<open>IP.To4\<close>, \<open>IP.Equal\<close>, \<open>IPNet.Contains\<close> and the dotted form of an IPv4 address. An \<open>IP\<close>
  is its 16 bytes, an IPv4 address in the mapped form (ten zero bytes, two bytes 255), as
  \<open>ParseIP\<close> returns it.

  The parsers follow \<open>net/netip\<close>: \<open>parseIPv4Fields\<close> and \<open>parseIPv6\<close> read their input from
  left to right with the same checks. The proved facts are the round trip of dotted IPv4
  addresses and what the mask of a CIDR keeps.
\<close>

unbundle bit_operations_syntax

type_synonym byte = "8 word"
type_synonym IP = "byte list"

definition v4InV6Prefix :: "byte list" where
  "v4InV6Prefix = replicate 10 0 @ [255, 255]"

definition IPv4 :: "byte \<Rightarrow> byte \<Rightarrow> byte \<Rightarrow> byte \<Rightarrow> IP" where
  "IPv4 a b c d = v4InV6Prefix @ [a, b, c, d]"

definition To4 :: "IP \<Rightarrow> (byte \<times> byte \<times> byte \<times> byte) option" where
  "To4 ip = (if length ip = 16 \<and> take 12 ip = v4InV6Prefix
     then Some (ip ! 12, ip ! 13, ip ! 14, ip ! 15) else None)"

section \<open>Parsing\<close>

text \<open>\<open>parseIPv4Fields\<close>: the fields finished so far, the value and the number of digits of
  the current one, whether any character has been read and the rest of the input.\<close>

fun parseIPv4Fields :: "byte list \<Rightarrow> nat \<Rightarrow> nat \<Rightarrow> string \<Rightarrow> byte list option" where
  "parseIPv4Fields fields v digLen [] =
     (if length fields < 3 then None else Some (fields @ [of_nat v]))"
| "parseIPv4Fields fields v digLen (c # cs) =
     (if is_digit c then
        (if digLen = 1 \<and> v = 0 then None
         else let v' = v * 10 + digit_val c
              in if v' > 255 then None else parseIPv4Fields fields v' (Suc digLen) cs)
      else if c = CHR ''.'' then
        (if digLen = 0 \<or> cs = [] then None
         else if length fields = 3 then None
         else parseIPv4Fields (fields @ [of_nat v]) 0 0 cs)
      else None)"

definition hex_val :: "char \<Rightarrow> nat option" where
  "hex_val c = (let n = (of_char c :: nat) in
     if 48 \<le> n \<and> n \<le> 57 then Some (n - 48)
     else if 97 \<le> n \<and> n \<le> 102 then Some (n - 87)
     else if 65 \<le> n \<and> n \<le> 70 then Some (n - 55)
     else None)"

text \<open>One hexadecimal group: its value, the number of digits and the rest; \<open>None\<close> when it
  has more than four digits.\<close>

fun hex_group :: "nat \<Rightarrow> nat \<Rightarrow> string \<Rightarrow> (nat \<times> nat \<times> string) option" where
  "hex_group acc off [] = Some (acc, off, [])"
| "hex_group acc off (c # cs) = (case hex_val c of
     None \<Rightarrow> Some (acc, off, c # cs)
   | Some d \<Rightarrow> if off > 3 then None else hex_group (acc * 16 + d) (Suc off) cs)"

text \<open>The loop of \<open>parseIPv6\<close>: the bytes so far, the position of the ellipsis and the
  rest. Eight rounds are enough: each adds at least two of the sixteen bytes. The result is
  the bytes, the ellipsis and what is left of the input.\<close>

fun parseIPv6_loop :: "nat \<Rightarrow> byte list \<Rightarrow> nat option \<Rightarrow> string
    \<Rightarrow> (byte list \<times> nat option \<times> string) option" where
  "parseIPv6_loop 0 bs ell s = Some (bs, ell, s)"
| "parseIPv6_loop (Suc n) bs ell s =
     (if length bs \<ge> 16 then Some (bs, ell, s)
      else case hex_group 0 0 s of
        None \<Rightarrow> None
      | Some (acc, off, rest) \<Rightarrow>
          if off = 0 then None
          else if rest \<noteq> [] \<and> hd rest = CHR ''.'' then
            (if ell = None \<and> length bs \<noteq> 12 then None
             else if length bs + 4 > 16 then None
             else case parseIPv4Fields [] 0 0 s of
               None \<Rightarrow> None
             | Some f \<Rightarrow> Some (bs @ f, ell, []))
          else
            let bs' = bs @ [of_nat (acc div 256), of_nat acc]
            in if rest = [] then Some (bs', ell, [])
               else if hd rest \<noteq> CHR '':'' then None
               else if length rest = 1 then None
               else let s2 = tl rest
                    in if hd s2 = CHR '':'' then
                         (if ell \<noteq> None then None
                          else if tl s2 = [] then Some (bs', Some (length bs'), [])
                          else parseIPv6_loop n bs' (Some (length bs')) (tl s2))
                       else parseIPv6_loop n bs' ell s2)"

definition parseIPv6 :: "string \<Rightarrow> IP option" where
  \<comment> \<open>an address with a zone (\<open>%\<close>) is refused by both callers\<close>
  "parseIPv6 inp =
     (if CHR ''%'' \<in> set inp then None
      else let lead = (take 2 inp = ''::''); s = (if lead then drop 2 inp else inp)
      in if lead \<and> s = [] then Some (replicate 16 0)
         else case parseIPv6_loop 8 [] (if lead then Some 0 else None) s of
           None \<Rightarrow> None
         | Some (bs, ell, rest) \<Rightarrow>
             if rest \<noteq> [] then None
             else if length bs < 16 then
               (case ell of
                  None \<Rightarrow> None
                | Some e \<Rightarrow> Some (take e bs @ replicate (16 - length bs) 0 @ drop e bs))
             else if ell \<noteq> None then None
             else Some bs)"

datatype addr = Addr4 IP | Addr6 IP

fun addr_bytes :: "addr \<Rightarrow> IP" where
  "addr_bytes (Addr4 ip) = ip"
| "addr_bytes (Addr6 ip) = ip"

fun BitLen :: "addr \<Rightarrow> nat" where
  "BitLen (Addr4 _) = 32"
| "BitLen (Addr6 _) = 128"

text \<open>\<open>netip.ParseAddr\<close>: the first of \<open>.\<close>, \<open>:\<close> and \<open>%\<close> decides.\<close>

definition ParseAddr :: "string \<Rightarrow> addr option" where
  "ParseAddr s = (case find (\<lambda>c. c = CHR ''.'' \<or> c = CHR '':'' \<or> c = CHR ''%'') s of
      None \<Rightarrow> None
    | Some c \<Rightarrow>
        if c = CHR ''.'' then
          map_option (\<lambda>f. Addr4 (v4InV6Prefix @ f)) (parseIPv4Fields [] 0 0 s)
        else if c = CHR '':'' then map_option Addr6 (parseIPv6 s)
        else None)"

definition ParseIP :: "string \<Rightarrow> IP option" where
  "ParseIP s = map_option addr_bytes (ParseAddr s)"

section \<open>Masks and CIDRs\<close>

text \<open>A mask of \<open>bits\<close> bits with \<open>ones\<close> leading ones (\<open>CIDRMask\<close>), as bytes.\<close>

fun cidr_bytes :: "nat \<Rightarrow> nat \<Rightarrow> byte list" where
  "cidr_bytes 0 ones = []"
| "cidr_bytes (Suc n) ones =
     (if ones \<ge> 8 then 255 # cidr_bytes n (ones - 8)
      else push_bit (8 - ones) 255 # cidr_bytes n 0)"

record IPNet =
  net_IP :: IP
  net_ones :: nat
  net_bits :: nat

definition net_mask :: "IPNet \<Rightarrow> byte list" where
  "net_mask n = cidr_bytes (net_bits n div 8) (net_ones n)"

definition mask_ip :: "nat \<Rightarrow> nat \<Rightarrow> IP \<Rightarrow> IP" where
  \<comment> \<open>\<open>IP.Mask\<close>: a 4-byte mask applies to the last four bytes of a mapped address\<close>
  "mask_ip bits ones ip =
     (if bits = 32 then take 12 ip @ map2 (AND) (drop 12 ip) (cidr_bytes 4 ones)
      else map2 (AND) ip (cidr_bytes 16 ones))"

text \<open>\<open>dtoi\<close> on the whole string: decimal digits only, below \<open>0xFFFFFF\<close>.\<close>

fun dtoi_loop :: "nat \<Rightarrow> string \<Rightarrow> nat option" where
  "dtoi_loop n [] = Some n"
| "dtoi_loop n (c # cs) =
     (if is_digit c then
        let n' = n * 10 + digit_val c in if n' \<ge> 0xFFFFFF then None else dtoi_loop n' cs
      else None)"

definition dtoi :: "string \<Rightarrow> nat option" where
  "dtoi s = (if s = [] then None else dtoi_loop 0 s)"

definition ParseCIDR :: "string \<Rightarrow> IPNet option" where
  "ParseCIDR s = (case IndexOf s ''/'' of
      None \<Rightarrow> None
    | Some i \<Rightarrow> (case ParseAddr (take i s) of
        None \<Rightarrow> None
      | Some a \<Rightarrow> (case dtoi (drop (Suc i) s) of
          None \<Rightarrow> None
        | Some n \<Rightarrow>
            if n > BitLen a then None
            else Some \<lparr>net_IP = mask_ip (BitLen a) n (addr_bytes a), net_ones = n,
                       net_bits = BitLen a\<rparr>)))"

definition ip_Equal :: "IP \<Rightarrow> IP \<Rightarrow> bool" where
  "ip_Equal a b \<longleftrightarrow> a = b"

definition net_Contains :: "IPNet \<Rightarrow> IP \<Rightarrow> bool" where
  \<comment> \<open>\<open>IPNet.Contains\<close>: both addresses are reduced to four bytes when they have that form,
      and addresses of different lengths are never contained\<close>
  "net_Contains n ip =
     (let nn = (case To4 (net_IP n) of Some (a, b, c, d) \<Rightarrow> [a, b, c, d] | None \<Rightarrow> net_IP n);
          m = (if length nn = 4 \<and> net_bits n = 128 then drop 12 (net_mask n) else net_mask n);
          x = (case To4 ip of Some (a, b, c, d) \<Rightarrow> [a, b, c, d] | None \<Rightarrow> ip)
      in length x = length nn \<and> length m = length nn \<and>
         map2 (AND) nn m = map2 (AND) x m)"

section \<open>Printing IPv4 addresses\<close>

definition ip4_String :: "byte \<times> byte \<times> byte \<times> byte \<Rightarrow> string" where
  "ip4_String ip = (case ip of (a, b, c, d) \<Rightarrow>
     dec_of_nat (unat a) @ ''.'' @ dec_of_nat (unat b) @ ''.'' @
     dec_of_nat (unat c) @ ''.'' @ dec_of_nat (unat d))"

section \<open>Parsing undoes printing\<close>

lemma dec_of_nat_small:
  "n < 10 \<Longrightarrow> dec_of_nat n = [digit_char n]"
  "10 \<le> n \<Longrightarrow> n < 100 \<Longrightarrow> dec_of_nat n = [digit_char (n div 10), digit_char (n mod 10)]"
  "100 \<le> n \<Longrightarrow> n < 1000 \<Longrightarrow>
     dec_of_nat n = [digit_char (n div 100), digit_char (n div 10 mod 10), digit_char (n mod 10)]"
proof -
  show one: "dec_of_nat n = [digit_char n]" if "n < 10" for n
    using that by (simp add: dec_of_nat.simps [of n])
  show two: "dec_of_nat n = [digit_char (n div 10), digit_char (n mod 10)]" if "10 \<le> n" "n < 100" for n
    using that one [of "n div 10"] by (simp add: dec_of_nat.simps [of n])
  show "dec_of_nat n = [digit_char (n div 100), digit_char (n div 10 mod 10), digit_char (n mod 10)]"
    if "100 \<le> n" "n < 1000"
    using that two [of "n div 10"] by (simp add: dec_of_nat.simps [of n] div_mult2_eq [symmetric])
qed

lemma parse_octet:
  assumes "n \<le> 255"
  shows "parseIPv4Fields fs 0 0 (dec_of_nat n @ rest) = parseIPv4Fields fs n (length (dec_of_nat n)) rest"
proof -
  consider "n < 10" | "10 \<le> n" "n < 100" | "100 \<le> n" "n < 1000" using assms by linarith
  then show ?thesis
  proof cases
    case 1
    then show ?thesis by (simp add: dec_of_nat_small)
  next
    case 2
    then have "n div 10 \<le> 255" "n div 10 < 10" "n div 10 \<noteq> 0" "n div 10 * 10 + n mod 10 = n" by simp_all
    with 2 assms show ?thesis by (simp add: dec_of_nat_small Let_def) linarith
  next
    case 3
    have a: "n div 100 < 10" "n div 100 \<noteq> 0" "n div 100 \<le> 255" using 3 by simp_all
    have b: "n div 100 * 10 + n div 10 mod 10 = n div 10"
    proof -
      have "n div 100 = n div 10 div 10" by (simp add: div_mult2_eq [symmetric])
      then show ?thesis by simp
    qed
    have c: "n div 10 * 10 + n mod 10 = n" by simp
    have "n div 10 \<le> 255" using assms by simp
    with 3 a b c assms show ?thesis by (simp add: dec_of_nat_small Let_def)
  qed
qed

lemma dot_not_digit [simp]: "\<not> is_digit (CHR ''.'')"
  by (simp add: is_digit_def)

lemma unat_byte_le: "unat (b :: byte) \<le> 255"
  using unsigned_less [of b, where ?'a = nat] by simp

lemma parse_octet_dot:
  assumes "length fs < 3" "rest \<noteq> []"
  shows "parseIPv4Fields fs 0 0 (dec_of_nat (unat b) @ CHR ''.'' # rest) = parseIPv4Fields (fs @ [b]) 0 0 rest"
  using assms parse_octet [OF unat_byte_le [of b], of fs "CHR ''.'' # rest"] by simp

lemma parse_octet_end:
  assumes "length fs = 3"
  shows "parseIPv4Fields fs 0 0 (dec_of_nat (unat b)) = Some (fs @ [b])"
  using assms parse_octet [OF unat_byte_le [of b], of fs "[]"] by simp

lemma parse_ip4_String: "parseIPv4Fields [] 0 0 (ip4_String (a, b, c, d)) = Some [a, b, c, d]"
  by (simp add: ip4_String_def parse_octet_dot parse_octet_end)

lemma find_dot_digits:
  "\<forall>c\<in>set xs. is_digit c \<Longrightarrow>
   find (\<lambda>c. c = CHR ''.'' \<or> c = CHR '':'' \<or> c = CHR ''%'') (xs @ CHR ''.'' # ys) = Some (CHR ''.'')"
  by (induction xs) (auto simp: is_digit_def)

lemma ParseIP_ip4_String: "ParseIP (ip4_String (a, b, c, d)) = Some (IPv4 a b c d)"
proof -
  have "find (\<lambda>c. c = CHR ''.'' \<or> c = CHR '':'' \<or> c = CHR ''%'') (ip4_String (a, b, c, d)) = Some (CHR ''.'')"
    using find_dot_digits [OF dec_of_nat_digits] by (simp add: ip4_String_def)
  then show ?thesis by (simp add: ParseIP_def ParseAddr_def parse_ip4_String IPv4_def)
qed

lemma ip4_String_inj: "ip4_String p = ip4_String q \<longleftrightarrow> p = q"
  by (metis (no_types) list.inject option.inject parse_ip4_String prod_cases4)

lemma To4_IPv4 [simp]: "To4 (IPv4 a b c d) = Some (a, b, c, d)"
  by (simp add: To4_def IPv4_def v4InV6Prefix_def nth_append)

section \<open>Evaluating the parsers\<close>

lemmas parse_eval = ParseIP_def ParseAddr_def is_digit_def digit_val_def IPv4_def
  dtoi_def IndexOf.simps HasPrefix_def Contains_def

lemma ParseCIDR_192_168_122:
  "ParseCIDR ''192.168.122.0/24'' =
     Some \<lparr>net_IP = IPv4 192 168 122 0, net_ones = 24, net_bits = 32\<rparr>"
proof -
  have i: "IndexOf ''192.168.122.0/24'' ''/'' = Some 13" by (simp add: parse_eval)
  have a: "ParseAddr ''192.168.122.0'' = Some (Addr4 (IPv4 192 168 122 0))" by (simp add: parse_eval)
  have d: "dtoi ''24'' = Some 24" by (simp add: parse_eval)
  have m: "mask_ip 32 24 (IPv4 192 168 122 0) = IPv4 192 168 122 0" by code_simp
  show ?thesis by (simp add: ParseCIDR_def i a d m)
qed

end
