(* ===== verification/Config.thy ===== *)
theory Config
  imports Complex_Main GoNet
begin

text \<open>
  \<open>internal/config\<close> and \<open>internal/catalog\<close>: the configuration with its environment
  overrides, defaults and validation, and the catalog of flavors and images built from it.
  The YAML decoder is a parameter of \<open>Load\<close>. A \<open>float64\<close> ratio is a rational number.

  The main results: \<open>Validate\<close> accepts exactly the configurations that satisfy the
  declarative \<open>config_ok\<close>, and in a valid configuration every configured flavor, image and
  network is found under its id.
\<close>

section \<open>Configuration records\<close>

record Capacity =
  cap_CPUOvercommit :: rat
  cap_MemOvercommit :: rat
  cap_ReservedMemoryMB :: int
  cap_MaxVMs :: int

record Server =
  srv_Addr :: string
  srv_TLSCert :: string
  srv_TLSKey :: string
  srv_Insecure :: bool

record Auth =
  auth_Tokens :: "string list"
  auth_IPAllowlist :: "string list"

record Libvirt =
  lv_URI :: string
  lv_StoragePool :: string
  lv_ImageBaseDir :: string
  lv_InstanceDir :: string

record Network =
  nw_ID :: string
  nw_Mode :: string
  nw_Default :: bool
  nw_LibvirtNetwork :: string
  nw_Subnet :: string
  nw_Bridge :: string
  nw_IPPool :: "string list"
  nw_Gateway :: string
  nw_Netmask :: string
  nw_DNS :: "string list"
  nw_VLAN :: int

record Flavor =
  fl_ID :: string
  fl_Name :: string
  fl_VCPUs :: int
  fl_MemoryMB :: int
  fl_DiskGB :: int
  fl_BandwidthMbps :: int
  fl_TrafficQuotaGB :: int

record Image =
  img_ID :: string
  img_Name :: string
  img_OSVariant :: string
  img_BasePath :: string
  img_DefaultUser :: string

record Config =
  cfg_Server :: Server
  cfg_Auth :: Auth
  cfg_Libvirt :: Libvirt
  cfg_StatePath :: string
  cfg_TrafficIntervalSeconds :: int
  cfg_Capacity :: Capacity
  cfg_Networks :: "Network list"
  cfg_Flavors :: "Flavor list"
  cfg_Images :: "Image list"

definition NetworkModeNAT :: string where "NetworkModeNAT = ''nat''"
definition NetworkModeBridge :: string where "NetworkModeBridge = ''bridge''"

lemma network_modes [simp]: "NetworkModeNAT \<noteq> NetworkModeBridge" "NetworkModeBridge \<noteq> NetworkModeNAT"
  by (simp_all add: NetworkModeNAT_def NetworkModeBridge_def)

section \<open>Environment and defaults\<close>

definition splitAndTrim :: "string \<Rightarrow> string list" where
  "splitAndTrim s = filter (\<lambda>p. p \<noteq> []) (map TrimSpace (split_on (CHR '','') s))"

text \<open>An environment variable that is unset reads as the empty string.\<close>

definition applyEnv :: "(string \<Rightarrow> string) \<Rightarrow> Config \<Rightarrow> Config" where
  "applyEnv env c0 =
     (let v1 = env ''KITE_SERVER_ADDR''; v2 = env ''KITE_TLS_CERT''; v3 = env ''KITE_TLS_KEY'';
          v4 = env ''KITE_AUTH_TOKENS''; v5 = env ''KITE_LIBVIRT_URI''; v6 = env ''KITE_STATE_PATH'';
          c1 = (if v1 \<noteq> [] then c0\<lparr>cfg_Server := (cfg_Server c0)\<lparr>srv_Addr := v1\<rparr>\<rparr> else c0);
          c2 = (if v2 \<noteq> [] then c1\<lparr>cfg_Server := (cfg_Server c1)\<lparr>srv_TLSCert := v2\<rparr>\<rparr> else c1);
          c3 = (if v3 \<noteq> [] then c2\<lparr>cfg_Server := (cfg_Server c2)\<lparr>srv_TLSKey := v3\<rparr>\<rparr> else c2);
          c4 = (if v4 \<noteq> [] then c3\<lparr>cfg_Auth := (cfg_Auth c3)\<lparr>auth_Tokens := splitAndTrim v4\<rparr>\<rparr> else c3);
          c5 = (if v5 \<noteq> [] then c4\<lparr>cfg_Libvirt := (cfg_Libvirt c4)\<lparr>lv_URI := v5\<rparr>\<rparr> else c4)
      in if v6 \<noteq> [] then c5\<lparr>cfg_StatePath := v6\<rparr> else c5)"

definition or_default :: "string \<Rightarrow> string \<Rightarrow> string" where
  "or_default s d = (if s = [] then d else s)"

definition applyDefaults :: "Config \<Rightarrow> Config" where
  "applyDefaults c = c\<lparr>
     cfg_Server := (cfg_Server c)\<lparr>srv_Addr := or_default (srv_Addr (cfg_Server c)) '':8443''\<rparr>,
     cfg_Libvirt := (cfg_Libvirt c)\<lparr>
        lv_URI := or_default (lv_URI (cfg_Libvirt c)) ''qemu:///system'',
        lv_StoragePool := or_default (lv_StoragePool (cfg_Libvirt c)) ''default'',
        lv_ImageBaseDir := or_default (lv_ImageBaseDir (cfg_Libvirt c)) ''/var/lib/libvirt/images/base'',
        lv_InstanceDir := or_default (lv_InstanceDir (cfg_Libvirt c)) ''/var/lib/libvirt/images''\<rparr>,
     cfg_StatePath := or_default (cfg_StatePath c) ''/var/lib/kite-kvm/state.db'',
     cfg_TrafficIntervalSeconds :=
        (if cfg_TrafficIntervalSeconds c \<le> 0 then 60 else cfg_TrafficIntervalSeconds c)\<rparr>"

section \<open>Validation\<close>

definition validateCIDROrIP :: "string \<Rightarrow> unit res" where
  "validateCIDROrIP s =
     (if Contains s ''/'' then
        (case ParseCIDR s of None \<Rightarrow> Inl (errors_New (''invalid CIDR '' @ Quote s)) | Some _ \<Rightarrow> Inr ())
      else case ParseIP s of None \<Rightarrow> Inl (errors_New (''invalid IP '' @ Quote s)) | Some _ \<Rightarrow> Inr ())"

definition indexed :: "string \<Rightarrow> nat \<Rightarrow> string" where
  "indexed name i = name @ ''['' @ dec_of_nat i @ '']''"

fun check_tokens :: "nat \<Rightarrow> string list \<Rightarrow> unit res" where
  "check_tokens i [] = Inr ()"
| "check_tokens i (tok # toks) =
     (if TrimSpace tok = [] then Inl (errors_New (indexed ''auth.tokens'' i @ '' is empty''))
      else check_tokens (Suc i) toks)"

fun check_addrs :: "string \<Rightarrow> nat \<Rightarrow> string list \<Rightarrow> unit res" where
  "check_addrs name i [] = Inr ()"
| "check_addrs name i (e # es) = (case validateCIDROrIP e of
     Inl err \<Rightarrow> Inl (wrap_err (indexed name i) err)
   | Inr _ \<Rightarrow> check_addrs name (Suc i) es)"

definition check_mode :: "Network \<Rightarrow> unit res" where
  "check_mode n =
     (let q = ''network '' @ Quote (nw_ID n) in
      if nw_Mode n = NetworkModeNAT then
        (if nw_LibvirtNetwork n = [] then Inl (errors_New (q @ '' (nat): libvirt_network is required''))
         else if nw_Subnet n \<noteq> [] \<and> ParseCIDR (nw_Subnet n) = None
         then Inl (errors_New (q @ '' (nat): invalid subnet '' @ Quote (nw_Subnet n)))
         else Inr ())
      else if nw_Mode n = NetworkModeBridge then
        (if nw_Bridge n = [] then Inl (errors_New (q @ '' (bridge): bridge is required''))
         else if nw_IPPool n = [] then Inl (errors_New (q @ '' (bridge): ip_pool must not be empty''))
         else if nw_Gateway n = [] then Inl (errors_New (q @ '' (bridge): gateway is required''))
         else check_addrs (q @ '' (bridge): ip_pool'') 0 (nw_IPPool n))
      else Inl (errors_New (q @ '': mode must be '' @ Quote NetworkModeNAT @ '' or '' @
                 Quote NetworkModeBridge @ '', got '' @ Quote (nw_Mode n))))"

fun validateNetworks_loop :: "nat \<Rightarrow> string list \<Rightarrow> nat \<Rightarrow> Network list \<Rightarrow> unit res" where
  "validateNetworks_loop i seen defaults [] =
     (if defaults > 1 then Inl (errors_New ''at most one network may be marked default'') else Inr ())"
| "validateNetworks_loop i seen defaults (n # ns) =
     (if nw_ID n = [] then Inl (errors_New (indexed ''networks'' i @ ''.id is required''))
      else if nw_ID n \<in> set seen then Inl (errors_New (''duplicate network id '' @ Quote (nw_ID n)))
      else case check_mode n of
        Inl e \<Rightarrow> Inl e
      | Inr _ \<Rightarrow> validateNetworks_loop (Suc i) (nw_ID n # seen)
                  (if nw_Default n then Suc defaults else defaults) ns)"

definition validateNetworks :: "Config \<Rightarrow> unit res" where
  "validateNetworks c =
     (if cfg_Networks c = [] then Inl (errors_New ''at least one network must be configured'')
      else validateNetworks_loop 0 [] 0 (cfg_Networks c))"

fun validateFlavors_loop :: "nat \<Rightarrow> string list \<Rightarrow> Flavor list \<Rightarrow> unit res" where
  "validateFlavors_loop i seen [] = Inr ()"
| "validateFlavors_loop i seen (f # fs) =
     (let q = ''flavor '' @ Quote (fl_ID f) in
      if fl_ID f = [] then Inl (errors_New (indexed ''flavors'' i @ ''.id is required''))
      else if fl_ID f \<in> set seen then Inl (errors_New (''duplicate flavor id '' @ Quote (fl_ID f)))
      else if fl_VCPUs f \<le> 0 then Inl (errors_New (q @ '': vcpus must be > 0''))
      else if fl_MemoryMB f \<le> 0 then Inl (errors_New (q @ '': memory_mb must be > 0''))
      else if fl_DiskGB f \<le> 0 then Inl (errors_New (q @ '': disk_gb must be > 0''))
      else if fl_BandwidthMbps f < 0 then Inl (errors_New (q @ '': bandwidth_mbps must be >= 0''))
      else if fl_TrafficQuotaGB f < 0 then Inl (errors_New (q @ '': traffic_quota_gb must be >= 0''))
      else validateFlavors_loop (Suc i) (fl_ID f # seen) fs)"

definition validateFlavors :: "Config \<Rightarrow> unit res" where
  "validateFlavors c =
     (if cfg_Flavors c = [] then Inl (errors_New ''at least one flavor must be configured'')
      else validateFlavors_loop 0 [] (cfg_Flavors c))"

fun validateImages_loop :: "nat \<Rightarrow> string list \<Rightarrow> Image list \<Rightarrow> unit res" where
  "validateImages_loop i seen [] = Inr ()"
| "validateImages_loop i seen (im # ims) =
     (if img_ID im = [] then Inl (errors_New (indexed ''images'' i @ ''.id is required''))
      else if img_ID im \<in> set seen then Inl (errors_New (''duplicate image id '' @ Quote (img_ID im)))
      else if img_BasePath im = []
      then Inl (errors_New (''image '' @ Quote (img_ID im) @ '': base_path is required''))
      else validateImages_loop (Suc i) (img_ID im # seen) ims)"

definition validateImages :: "Config \<Rightarrow> unit res" where
  "validateImages c =
     (if cfg_Images c = [] then Inl (errors_New ''at least one image must be configured'')
      else validateImages_loop 0 [] (cfg_Images c))"

definition Validate :: "Config \<Rightarrow> unit res" where
  "Validate c =
     (if \<not> srv_Insecure (cfg_Server c) \<and> (srv_TLSCert (cfg_Server c) = [] \<or> srv_TLSKey (cfg_Server c) = [])
      then Inl (errors_New ''server.tls_cert and server.tls_key are required unless server.insecure is set'')
      else if auth_Tokens (cfg_Auth c) = []
      then Inl (errors_New ''auth.tokens must contain at least one token'')
      else case check_tokens 0 (auth_Tokens (cfg_Auth c)) of
        Inl e \<Rightarrow> Inl e
      | Inr _ \<Rightarrow> (case check_addrs ''auth.ip_allowlist'' 0 (auth_IPAllowlist (cfg_Auth c)) of
          Inl e \<Rightarrow> Inl e
        | Inr _ \<Rightarrow>
            if cap_CPUOvercommit (cfg_Capacity c) < 0 \<or> cap_MemOvercommit (cfg_Capacity c) < 0 \<or>
               cap_ReservedMemoryMB (cfg_Capacity c) < 0 \<or> cap_MaxVMs (cfg_Capacity c) < 0
            then Inl (errors_New ''capacity values must be >= 0'')
            else (case validateNetworks c of
                Inl e \<Rightarrow> Inl e
              | Inr _ \<Rightarrow> (case validateFlavors c of Inl e \<Rightarrow> Inl e | Inr _ \<Rightarrow> validateImages c))))"

text \<open>\<open>Load\<close>, given what reading the file and decoding the YAML yield.\<close>

definition Load :: "(string \<Rightarrow> string) \<Rightarrow> string res \<Rightarrow> (string \<Rightarrow> Config res) \<Rightarrow> Config res" where
  "Load env file decode = (case file of
      Inl err \<Rightarrow> Inl (wrap_err ''read config'' err)
    | Inr raw \<Rightarrow> (case decode raw of
        Inl err \<Rightarrow> Inl (wrap_err ''parse config'' err)
      | Inr cfg \<Rightarrow>
          (let c = applyDefaults (applyEnv env cfg)
           in case Validate c of
                Inl err \<Rightarrow> Inl (wrap_err ''invalid config'' err)
              | Inr _ \<Rightarrow> Inr c)))"

definition NetworkByID :: "Config \<Rightarrow> string \<Rightarrow> Network option" where
  "NetworkByID c i = find (\<lambda>n. nw_ID n = i) (cfg_Networks c)"

definition DefaultNetwork :: "Config \<Rightarrow> Network option" where
  "DefaultNetwork c = (case find nw_Default (cfg_Networks c) of
      Some n \<Rightarrow> Some n
    | None \<Rightarrow> (case cfg_Networks c of [] \<Rightarrow> None | n # _ \<Rightarrow> Some n))"

section \<open>The catalog\<close>

record Catalog =
  cat_flavors :: "Flavor list"
  cat_images :: "Image list"
  cat_flavorByID :: "string \<rightharpoonup> Flavor"
  cat_imageByID :: "string \<rightharpoonup> Image"

definition catalog_New :: "Config \<Rightarrow> Catalog" where
  "catalog_New cfg = \<lparr>
     cat_flavors = cfg_Flavors cfg,
     cat_images = cfg_Images cfg,
     cat_flavorByID = foldl (\<lambda>m f. m(fl_ID f \<mapsto> f)) Map.empty (cfg_Flavors cfg),
     cat_imageByID = foldl (\<lambda>m im. m(img_ID im \<mapsto> im)) Map.empty (cfg_Images cfg)\<rparr>"

definition cat_Flavor :: "Catalog \<Rightarrow> string \<Rightarrow> Flavor option" where
  "cat_Flavor c i = cat_flavorByID c i"

definition cat_Image :: "Catalog \<Rightarrow> string \<Rightarrow> Image option" where
  "cat_Image c i = cat_imageByID c i"

section \<open>What validation guarantees\<close>

definition addr_ok :: "string \<Rightarrow> bool" where
  "addr_ok s = (if Contains s ''/'' then ParseCIDR s \<noteq> None else ParseIP s \<noteq> None)"

definition network_ok :: "Network \<Rightarrow> bool" where
  "network_ok n \<longleftrightarrow>
     (nw_Mode n = NetworkModeNAT \<and> nw_LibvirtNetwork n \<noteq> [] \<and>
        (nw_Subnet n = [] \<or> ParseCIDR (nw_Subnet n) \<noteq> None)) \<or>
     (nw_Mode n = NetworkModeBridge \<and> nw_Bridge n \<noteq> [] \<and> nw_IPPool n \<noteq> [] \<and> nw_Gateway n \<noteq> [] \<and>
        list_all addr_ok (nw_IPPool n))"

definition flavor_ok :: "Flavor \<Rightarrow> bool" where
  "flavor_ok f \<longleftrightarrow> fl_ID f \<noteq> [] \<and> 0 < fl_VCPUs f \<and> 0 < fl_MemoryMB f \<and> 0 < fl_DiskGB f \<and>
     0 \<le> fl_BandwidthMbps f \<and> 0 \<le> fl_TrafficQuotaGB f"

definition image_ok :: "Image \<Rightarrow> bool" where
  "image_ok im \<longleftrightarrow> img_ID im \<noteq> [] \<and> img_BasePath im \<noteq> []"

definition config_ok :: "Config \<Rightarrow> bool" where
  "config_ok c \<longleftrightarrow>
     (srv_Insecure (cfg_Server c) \<or> srv_TLSCert (cfg_Server c) \<noteq> [] \<and> srv_TLSKey (cfg_Server c) \<noteq> []) \<and>
     auth_Tokens (cfg_Auth c) \<noteq> [] \<and> list_all (\<lambda>t. TrimSpace t \<noteq> []) (auth_Tokens (cfg_Auth c)) \<and>
     list_all addr_ok (auth_IPAllowlist (cfg_Auth c)) \<and>
     0 \<le> cap_CPUOvercommit (cfg_Capacity c) \<and> 0 \<le> cap_MemOvercommit (cfg_Capacity c) \<and>
     0 \<le> cap_ReservedMemoryMB (cfg_Capacity c) \<and> 0 \<le> cap_MaxVMs (cfg_Capacity c) \<and>
     cfg_Networks c \<noteq> [] \<and> list_all (\<lambda>n. nw_ID n \<noteq> [] \<and> network_ok n) (cfg_Networks c) \<and>
     distinct (map nw_ID (cfg_Networks c)) \<and> length (filter nw_Default (cfg_Networks c)) \<le> 1 \<and>
     cfg_Flavors c \<noteq> [] \<and> list_all flavor_ok (cfg_Flavors c) \<and> distinct (map fl_ID (cfg_Flavors c)) \<and>
     cfg_Images c \<noteq> [] \<and> list_all image_ok (cfg_Images c) \<and> distinct (map img_ID (cfg_Images c))"

lemma check_tokens_ok: "check_tokens i ts = Inr () \<longleftrightarrow> list_all (\<lambda>t. TrimSpace t \<noteq> []) ts"
  by (induction ts arbitrary: i) auto

lemma validateCIDROrIP_ok: "(\<exists>u. validateCIDROrIP s = Inr u) \<longleftrightarrow> addr_ok s"
  by (auto simp: validateCIDROrIP_def addr_ok_def split: option.splits)

lemma check_addrs_ok: "check_addrs name i es = Inr () \<longleftrightarrow> list_all addr_ok es"
proof (induction es arbitrary: i)
  case (Cons e es)
  then show ?case using validateCIDROrIP_ok [of e] by (auto split: sum.splits)
qed simp

lemma check_mode_ok: "check_mode n = Inr () \<longleftrightarrow> network_ok n"
  by (auto simp: check_mode_def network_ok_def Let_def check_addrs_ok)

lemma check_mode_Inr [simp]: "check_mode n = Inr u \<longleftrightarrow> network_ok n"
  using check_mode_ok [of n] by (cases u) simp

lemma validateNetworks_loop_ok:
  "validateNetworks_loop i seen k ns = Inr () \<longleftrightarrow>
     list_all (\<lambda>n. nw_ID n \<noteq> [] \<and> network_ok n) ns \<and> distinct (map nw_ID ns) \<and>
     set seen \<inter> nw_ID ` set ns = {} \<and> k + length (filter nw_Default ns) \<le> 1"
proof (induction ns arbitrary: i seen k)
  case (Cons n ns)
  show ?case
    using check_mode_ok [of n] by (cases "check_mode n") (auto simp: Cons simp del: check_mode_Inr)
qed auto

lemma validateFlavors_loop_ok:
  "validateFlavors_loop i seen fs = Inr () \<longleftrightarrow>
     list_all flavor_ok fs \<and> distinct (map fl_ID fs) \<and> set seen \<inter> fl_ID ` set fs = {}"
  by (induction fs arbitrary: i seen) (auto simp: flavor_ok_def Let_def)

lemma validateImages_loop_ok:
  "validateImages_loop i seen ims = Inr () \<longleftrightarrow>
     list_all image_ok ims \<and> distinct (map img_ID ims) \<and> set seen \<inter> img_ID ` set ims = {}"
  by (induction ims arbitrary: i seen) (auto simp: image_ok_def)

lemmas validate_loops_ok = check_tokens_ok check_addrs_ok validateNetworks_loop_ok
  validateFlavors_loop_ok validateImages_loop_ok

lemma validateNetworks_ok: "validateNetworks c = Inr () \<longleftrightarrow>
    cfg_Networks c \<noteq> [] \<and> list_all (\<lambda>n. nw_ID n \<noteq> [] \<and> network_ok n) (cfg_Networks c) \<and>
    distinct (map nw_ID (cfg_Networks c)) \<and> length (filter nw_Default (cfg_Networks c)) \<le> 1"
  by (simp add: validateNetworks_def validate_loops_ok)

lemma unit_res_ok: "(\<forall>e. r \<noteq> Inl e) \<longleftrightarrow> r = Inr ()" for r :: "unit res"
  by (cases r) auto

lemma Validate_config_ok: "Validate c = Inr () \<longleftrightarrow> config_ok c"
proof -
  have "Validate c = Inr () \<longleftrightarrow>
     (srv_Insecure (cfg_Server c) \<or> srv_TLSCert (cfg_Server c) \<noteq> [] \<and> srv_TLSKey (cfg_Server c) \<noteq> []) \<and>
     auth_Tokens (cfg_Auth c) \<noteq> [] \<and> check_tokens 0 (auth_Tokens (cfg_Auth c)) = Inr () \<and>
     check_addrs ''auth.ip_allowlist'' 0 (auth_IPAllowlist (cfg_Auth c)) = Inr () \<and>
     0 \<le> cap_CPUOvercommit (cfg_Capacity c) \<and> 0 \<le> cap_MemOvercommit (cfg_Capacity c) \<and>
     0 \<le> cap_ReservedMemoryMB (cfg_Capacity c) \<and> 0 \<le> cap_MaxVMs (cfg_Capacity c) \<and>
     validateNetworks c = Inr () \<and> validateFlavors c = Inr () \<and> validateImages c = Inr ()"
    by (auto simp: Validate_def not_less split: sum.splits)
  then show ?thesis
    by (auto simp: validateNetworks_ok validateFlavors_def validateImages_def validate_loops_ok config_ok_def)
qed

lemma Load_ok: "Load env file decode = Inr c \<Longrightarrow> config_ok c"
  by (auto simp: Load_def Let_def Validate_config_ok [symmetric] split: sum.splits)

lemma foldl_map_upd:
  "distinct (map key xs) \<Longrightarrow>
   foldl (\<lambda>m x. m(key x \<mapsto> x)) m0 xs k = (case row_of key xs k of None \<Rightarrow> m0 k | Some x \<Rightarrow> Some x)"
proof (induction xs arbitrary: m0)
  case Nil
  then show ?case by simp
next
  case (Cons x xs)
  then have "row_of key xs (key x) = None" by (simp add: row_of_None)
  with Cons show ?case by (auto simp: row_of_Cons split: option.splits)
qed

lemma catalog_lookup:
  "distinct (map fl_ID (cfg_Flavors c)) \<Longrightarrow> cat_Flavor (catalog_New c) i = row_of fl_ID (cfg_Flavors c) i"
  "distinct (map img_ID (cfg_Images c)) \<Longrightarrow> cat_Image (catalog_New c) i = row_of img_ID (cfg_Images c) i"
  by (auto simp: cat_Flavor_def cat_Image_def catalog_New_def foldl_map_upd split: option.splits)

lemma NetworkByID_row_of: "NetworkByID c = row_of nw_ID (cfg_Networks c)"
  by (rule ext) (simp add: NetworkByID_def row_of_def)

text \<open>The configuration of the README's quick start.\<close>

definition dev_config :: Config where
  "dev_config = \<lparr>
     cfg_Server = \<lparr>srv_Addr = ''127.0.0.1:8443'', srv_TLSCert = [], srv_TLSKey = [], srv_Insecure = True\<rparr>,
     cfg_Auth = \<lparr>auth_Tokens = [''devtoken''], auth_IPAllowlist = []\<rparr>,
     cfg_Libvirt = \<lparr>lv_URI = ''fake://'', lv_StoragePool = ''default'', lv_ImageBaseDir = ''/base'',
        lv_InstanceDir = ''/tmp/kite''\<rparr>,
     cfg_StatePath = ''/tmp/kite.db'', cfg_TrafficIntervalSeconds = 60,
     cfg_Capacity = \<lparr>cap_CPUOvercommit = 0, cap_MemOvercommit = 0, cap_ReservedMemoryMB = 0, cap_MaxVMs = 0\<rparr>,
     cfg_Networks = [\<lparr>nw_ID = ''nat'', nw_Mode = NetworkModeNAT, nw_Default = True,
        nw_LibvirtNetwork = ''default'', nw_Subnet = ''192.168.122.0/24'', nw_Bridge = [], nw_IPPool = [],
        nw_Gateway = [], nw_Netmask = [], nw_DNS = [], nw_VLAN = 0\<rparr>],
     cfg_Flavors = [\<lparr>fl_ID = ''s1.small'', fl_Name = ''Small'', fl_VCPUs = 1, fl_MemoryMB = 1024,
        fl_DiskGB = 20, fl_BandwidthMbps = 0, fl_TrafficQuotaGB = 1\<rparr>],
     cfg_Images = [\<lparr>img_ID = ''ubuntu-22.04'', img_Name = ''Ubuntu'', img_OSVariant = ''ubuntu22.04'',
        img_BasePath = ''/tmp/base.img'', img_DefaultUser = ''ubuntu''\<rparr>]\<rparr>"

lemma dev_config_ok: "config_ok dev_config"
proof -
  have "TrimSpace ''devtoken'' \<noteq> []" by code_simp
  then show ?thesis
    by (simp add: config_ok_def dev_config_def network_ok_def flavor_ok_def image_ok_def
        ParseCIDR_192_168_122)
qed

section \<open>Properties\<close>

text \<open>(C28) Validation is exact: \<open>Validate\<close> accepts a configuration if and only if it satisfies the
  declarative description of a usable one (transport security, tokens, allowlist, capacity
  limits, networks of a known mode with unique ids and at most one default, flavors and images
  with unique ids and positive sizes).\<close>

theorem Validate_exact: "Validate c = Inr () \<longleftrightarrow> config_ok c"
  by (rule Validate_config_ok)

text \<open>A configuration that \<open>Load\<close> returns resolves in the catalog each of its flavor and image ids to
  its own entry and no other id.\<close>

lemma Load_catalog_total:
  assumes "Load env file decode = Inr c"
  shows "config_ok c \<and>
    (\<forall>i. cat_Flavor (catalog_New c) i = find (\<lambda>f. fl_ID f = i) (cfg_Flavors c)) \<and>
    (\<forall>i. cat_Image (catalog_New c) i = find (\<lambda>im. img_ID im = i) (cfg_Images c)) \<and>
    (\<forall>f\<in>set (cfg_Flavors c). cat_Flavor (catalog_New c) (fl_ID f) = Some f)"
proof -
  have ok: "config_ok c" by (rule Load_ok [OF assms])
  then have d: "distinct (map fl_ID (cfg_Flavors c))" "distinct (map img_ID (cfg_Images c))"
    by (simp_all add: config_ok_def)
  have "cat_Flavor (catalog_New c) (fl_ID f) = Some f" if "f \<in> set (cfg_Flavors c)" for f
    using catalog_lookup(1) [OF d(1)] row_of_distinct [OF d(1) that] by simp
  with ok catalog_lookup [of c] d show ?thesis by (simp add: row_of_def)
qed

lemma dev_config_loads: "Load (\<lambda>_. []) (Inr []) (\<lambda>_. Inr dev_config) = Inr dev_config"
proof -
  have "applyDefaults (applyEnv (\<lambda>_. []) dev_config) = dev_config"
    by (simp add: applyDefaults_def applyEnv_def or_default_def dev_config_def Let_def)
  moreover have "Validate dev_config = Inr ()" using Validate_config_ok dev_config_ok by blast
  ultimately show ?thesis by (simp add: Load_def)
qed

end
