(* ===== verification/DomainXml.thy ===== *)
theory DomainXml
  imports Prelude
begin

text \<open>
  \<open>internal/domainxml\<close>: from a VM spec to the typed domain description. The structs of
  \<open>libvirt.org/go/libvirtxml\<close> are the records below, reduced to the fields the renderer
  sets; their \<open>Marshal\<close> methods are a parameter (\<open>xml_marshal\<close>), because that package is
  not part of the program. The results: what a successful rendering says about the spec, and
  that the description carries the spec's name, memory, disks, NIC source, bandwidth cap
  (in kilobytes per second) and link state.
\<close>

definition ModeNAT :: string where "ModeNAT = ''nat''"
definition ModeBridge :: string where "ModeBridge = ''bridge''"

record NetworkAttachment =
  na_Mode :: string
  na_Source :: string
  na_VLAN :: int

record Spec =
  sp_Name :: string
  sp_UUID :: string
  sp_VCPUs :: int
  sp_MemoryMB :: int
  sp_DiskPath :: string
  sp_SeedPath :: string
  sp_MAC :: string
  sp_Network :: NetworkAttachment
  sp_BandwidthMbps :: int
  sp_LinkDown :: bool
  sp_VNCListen :: string

section \<open>The typed description\<close>

record DomainDisk =
  dk_Device :: string
  dk_DriverName :: string
  dk_DriverType :: string
  dk_File :: string
  dk_TargetDev :: string
  dk_TargetBus :: string
  dk_ReadOnly :: bool

datatype InterfaceSource = SourceBridge string | SourceNetwork string

record DomainInterface =
  if_MAC :: string
  if_ModelType :: string
  if_Source :: InterfaceSource
  if_VLan :: "int option"
  if_Bandwidth :: "(int \<times> int) option"
  if_LinkState :: "string option"

record Domain =
  dm_Type :: string
  dm_Name :: string
  dm_UUID :: string
  dm_MemoryMiB :: int
  dm_CurrentMemoryMiB :: int
  dm_VCPUPlacement :: string
  dm_VCPU :: int
  dm_OSArch :: string
  dm_OSMachine :: string
  dm_OSType :: string
  dm_BootDev :: string
  dm_ACPI :: bool
  dm_APIC :: bool
  dm_CPUMode :: string
  dm_ClockOffset :: string
  dm_OnPoweroff :: string
  dm_OnReboot :: string
  dm_OnCrash :: string
  dm_Disks :: "DomainDisk list"
  dm_Interfaces :: "DomainInterface list"
  dm_SerialPort :: int
  dm_ConsoleType :: string
  dm_ConsolePort :: int
  dm_VNC :: "int \<times> string \<times> string"
  dm_VideoType :: string
  dm_MemBalloon :: string

record xml_marshal =
  xm_Domain :: "Domain \<Rightarrow> string res"
  xm_Interface :: "DomainInterface \<Rightarrow> string res"

section \<open>Rendering\<close>

definition validateInterface :: "Spec \<Rightarrow> unit res" where
  "validateInterface spec =
     (if sp_MAC spec = [] then Inl (errors_New ''domainxml: mac is required'')
      else if na_Source (sp_Network spec) = [] then Inl (errors_New ''domainxml: network source is required'')
      else if na_Mode (sp_Network spec) \<noteq> ModeNAT \<and> na_Mode (sp_Network spec) \<noteq> ModeBridge
      then Inl (errors_New (''domainxml: network mode must be '' @ Quote ModeNAT @ '' or '' @ Quote ModeBridge))
      else Inr ())"

definition validate_spec :: "Spec \<Rightarrow> unit res" where
  "validate_spec spec =
     (if sp_Name spec = [] then Inl (errors_New ''domainxml: name is required'')
      else if sp_VCPUs spec \<le> 0 then Inl (errors_New ''domainxml: vcpus must be > 0'')
      else if sp_MemoryMB spec \<le> 0 then Inl (errors_New ''domainxml: memory_mb must be > 0'')
      else if sp_DiskPath spec = [] then Inl (errors_New ''domainxml: disk_path is required'')
      else validateInterface spec)"

definition buildDisks :: "Spec \<Rightarrow> DomainDisk list" where
  "buildDisks spec =
     [\<lparr>dk_Device = ''disk'', dk_DriverName = ''qemu'', dk_DriverType = ''qcow2'', dk_File = sp_DiskPath spec,
       dk_TargetDev = ''vda'', dk_TargetBus = ''virtio'', dk_ReadOnly = False\<rparr>] @
     (if sp_SeedPath spec \<noteq> []
      then [\<lparr>dk_Device = ''cdrom'', dk_DriverName = ''qemu'', dk_DriverType = ''raw'', dk_File = sp_SeedPath spec,
        dk_TargetDev = ''sda'', dk_TargetBus = ''sata'', dk_ReadOnly = True\<rparr>]
      else [])"

definition buildInterface :: "Spec \<Rightarrow> DomainInterface" where
  "buildInterface spec =
     (let net = sp_Network spec; kbps = sp_BandwidthMbps spec * 125
      in \<lparr>if_MAC = sp_MAC spec, if_ModelType = ''virtio'',
          if_Source = (if na_Mode net = ModeBridge then SourceBridge (na_Source net)
                       else SourceNetwork (na_Source net)),
          if_VLan = (if na_Mode net = ModeBridge \<and> na_VLAN net > 0 then Some (na_VLAN net) else None),
          if_Bandwidth = (if sp_BandwidthMbps spec > 0 then Some (kbps, kbps) else None),
          if_LinkState = (if sp_LinkDown spec then Some ''down'' else None)\<rparr>)"

definition build_domain :: "Spec \<Rightarrow> Domain" where
  "build_domain spec =
     (let listen = (if sp_VNCListen spec = [] then ''127.0.0.1'' else sp_VNCListen spec)
      in \<lparr>dm_Type = ''kvm'', dm_Name = sp_Name spec, dm_UUID = sp_UUID spec,
          dm_MemoryMiB = sp_MemoryMB spec, dm_CurrentMemoryMiB = sp_MemoryMB spec,
          dm_VCPUPlacement = ''static'', dm_VCPU = sp_VCPUs spec, dm_OSArch = ''x86_64'', dm_OSMachine = ''q35'', dm_OSType = ''hvm'',
          dm_BootDev = ''hd'', dm_ACPI = True, dm_APIC = True, dm_CPUMode = ''host-passthrough'', dm_ClockOffset = ''utc'',
          dm_OnPoweroff = ''destroy'', dm_OnReboot = ''restart'', dm_OnCrash = ''destroy'',
          dm_Disks = buildDisks spec, dm_Interfaces = [buildInterface spec],
          dm_SerialPort = 0, dm_ConsoleType = ''serial'', dm_ConsolePort = 0, dm_VNC = (-1, ''yes'', listen),
          dm_VideoType = ''vga'', dm_MemBalloon = ''virtio''\<rparr>)"

definition Render :: "xml_marshal \<Rightarrow> Spec \<Rightarrow> string res" where
  "Render xm spec = (case validate_spec spec of
      Inl err \<Rightarrow> Inl err
    | Inr _ \<Rightarrow> xm_Domain xm (build_domain spec))"

definition RenderInterface :: "xml_marshal \<Rightarrow> Spec \<Rightarrow> string res" where
  "RenderInterface xm spec = (case validateInterface spec of
      Inl err \<Rightarrow> Inl err
    | Inr _ \<Rightarrow> xm_Interface xm (buildInterface spec))"

lemma validateInterface_Inr:
  "validateInterface spec = Inr u \<longleftrightarrow> sp_MAC spec \<noteq> [] \<and> na_Source (sp_Network spec) \<noteq> [] \<and>
     (na_Mode (sp_Network spec) = ModeNAT \<or> na_Mode (sp_Network spec) = ModeBridge)"
  by (auto simp: validateInterface_def)

lemma validate_spec_Inr:
  "validate_spec spec = Inr u \<longleftrightarrow> sp_Name spec \<noteq> [] \<and> 0 < sp_VCPUs spec \<and> 0 < sp_MemoryMB spec \<and>
     sp_DiskPath spec \<noteq> [] \<and> validateInterface spec = Inr ()"
  by (auto simp: validate_spec_def)

end
