(* ===== verification/World.thy ===== *)
theory World
  imports Store Conn Config DomainXml
begin

text \<open>
  The state the agent's operations act on, and its dependencies.

  \<open>Service\<close> holds what \<open>NewService\<close> wires together and no operation changes: the
  configuration, the catalog, the store and connection implementations (as records of
  operations, like the Go interface values), and the code that is not part of the program
  (file system and ISO writer, XML marshalling, the SSH key parser), each a parameter.

  \<open>world\<close> holds what changes: the store, the hypervisor connection and the file system; the
  readings to come of the clock, of the UUID generator and of the system's random source;
  the job ids handed to the queue's channel and those waiting for a retry's delay; and the
  service's two in-memory maps.
\<close>

record 'f os_ops =
  os_Remove :: "string \<Rightarrow> 'f \<Rightarrow> unit res \<times> 'f"
  os_IsNotExist :: "goerr \<Rightarrow> bool"
  os_MkdirTemp :: "'f \<Rightarrow> string res \<times> 'f"
  os_RemoveAll :: "string \<Rightarrow> 'f \<Rightarrow> unit res \<times> 'f"
  os_Chmod :: "string \<Rightarrow> nat \<Rightarrow> 'f \<Rightarrow> unit res \<times> 'f"
  iso_Create :: "string \<Rightarrow> nat \<Rightarrow> nat \<Rightarrow> 'f \<Rightarrow> unit res \<times> 'f"
  iso_CreateFilesystem :: "string \<Rightarrow> string \<Rightarrow> string \<Rightarrow> 'f \<Rightarrow> bool res \<times> 'f"
  iso_OpenFile :: "string \<Rightarrow> string \<Rightarrow> 'f \<Rightarrow> unit res \<times> 'f"
  iso_Write :: "string \<Rightarrow> string \<Rightarrow> string \<Rightarrow> 'f \<Rightarrow> unit res \<times> 'f"
  iso_Finalize :: "string \<Rightarrow> string \<Rightarrow> 'f \<Rightarrow> unit res \<times> 'f"

text \<open>\<open>network.Strategy\<close>: its two implementations, each with its network's configuration
  (the store and the connection they share are the service's).\<close>

datatype Strategy = natStrategy Network | bridgeStrategy Network

type_synonym Manager = "string \<rightharpoonup> Strategy"

record ('s, 'c, 'f) Service =
  sv_cfg :: Config
  sv_store :: "'s store_ops"
  sv_conn :: "'c conn_ops"
  sv_catalog :: Catalog
  sv_network :: Manager
  sv_os :: "'f os_ops"
  sv_xml :: xml_marshal
  sv_ssh_ok :: "string \<Rightarrow> bool"

record netCounters =
  nc_rx :: "64 word"
  nc_tx :: "64 word"

record statsSample =
  ss_t :: time
  ss_s :: DomainStats

record ('s, 'c, 'f) world =
  w_store :: 's
  w_conn :: 'c
  w_fs :: 'f
  w_clock :: "nat \<Rightarrow> time"
  w_uuid :: "nat \<Rightarrow> string"
  w_rand :: "nat \<Rightarrow> string + (nat \<Rightarrow> byte)"
  w_sched :: "string list"
  w_timers :: "(string \<times> duration) list"
  w_lastStats :: "string \<rightharpoonup> statsSample"
  w_trafficLast :: "string \<rightharpoonup> netCounters"

section \<open>Primitive steps\<close>

definition on_store :: "('s \<Rightarrow> 'a \<times> 's) \<Rightarrow> ('s, 'c, 'f) world \<Rightarrow> 'a \<times> ('s, 'c, 'f) world" where
  "on_store f w = (case f (w_store w) of (a, s) \<Rightarrow> (a, w\<lparr>w_store := s\<rparr>))"

definition on_conn :: "('c \<Rightarrow> 'a \<times> 'c) \<Rightarrow> ('s, 'c, 'f) world \<Rightarrow> 'a \<times> ('s, 'c, 'f) world" where
  "on_conn f w = (case f (w_conn w) of (a, c) \<Rightarrow> (a, w\<lparr>w_conn := c\<rparr>))"

definition on_fs :: "('f \<Rightarrow> 'a \<times> 'f) \<Rightarrow> ('s, 'c, 'f) world \<Rightarrow> 'a \<times> ('s, 'c, 'f) world" where
  "on_fs f w = (case f (w_fs w) of (a, x) \<Rightarrow> (a, w\<lparr>w_fs := x\<rparr>))"

definition time_Now :: "('s, 'c, 'f) world \<Rightarrow> time \<times> ('s, 'c, 'f) world" where
  "time_Now w = (w_clock w 0, w\<lparr>w_clock := (\<lambda>n. w_clock w (Suc n))\<rparr>)"

definition uuid_NewString :: "('s, 'c, 'f) world \<Rightarrow> string \<times> ('s, 'c, 'f) world" where
  "uuid_NewString w = (w_uuid w 0, w\<lparr>w_uuid := (\<lambda>n. w_uuid w (Suc n))\<rparr>)"

definition rand_Read :: "nat \<Rightarrow> ('s, 'c, 'f) world \<Rightarrow> byte list res \<times> ('s, 'c, 'f) world" where
  \<comment> \<open>\<open>crypto/rand.Read\<close> into a buffer of \<open>len\<close> bytes: it fills the buffer or fails with a plain error\<close>
  "rand_Read len w =
     ((case w_rand w 0 of Inl msg \<Rightarrow> Inl (errors_New msg) | Inr bs \<Rightarrow> Inr (map bs [0..<len])),
      w\<lparr>w_rand := (\<lambda>n. w_rand w (Suc n))\<rparr>)"

text \<open>The store's operations that read the clock.\<close>

definition st_CreateVM :: "('s, 'c, 'f) Service \<Rightarrow> VM \<Rightarrow> ('s, 'c, 'f) world \<Rightarrow> unit res \<times> ('s, 'c, 'f) world" where
  "st_CreateVM S v w = (case time_Now w of (now, w1) \<Rightarrow> on_store (so_CreateVM (sv_store S) now v) w1)"

definition st_AllocateIP :: "('s, 'c, 'f) Service \<Rightarrow> string \<Rightarrow> string \<Rightarrow> string \<Rightarrow> string list
    \<Rightarrow> ('s, 'c, 'f) world \<Rightarrow> string res \<times> ('s, 'c, 'f) world" where
  "st_AllocateIP S net vmID mac cs w = (case time_Now w of (now, w1) \<Rightarrow>
     on_store (so_AllocateIP (sv_store S) now net vmID mac cs) w1)"

definition st_ReleaseIPByVM :: "('s, 'c, 'f) Service \<Rightarrow> string \<Rightarrow> ('s, 'c, 'f) world \<Rightarrow> unit res \<times> ('s, 'c, 'f) world" where
  "st_ReleaseIPByVM S vmID w = on_store (so_ReleaseIPByVM (sv_store S) vmID) w"

definition st_GetVM :: "('s, 'c, 'f) Service \<Rightarrow> string \<Rightarrow> ('s, 'c, 'f) world \<Rightarrow> VM res \<times> ('s, 'c, 'f) world" where
  "st_GetVM S i w = on_store (so_GetVM (sv_store S) i) w"

definition st_ListVMs :: "('s, 'c, 'f) Service \<Rightarrow> ('s, 'c, 'f) world \<Rightarrow> VM list res \<times> ('s, 'c, 'f) world" where
  "st_ListVMs S w = on_store (so_ListVMs (sv_store S)) w"

definition st_UpdateVM :: "('s, 'c, 'f) Service \<Rightarrow> VM \<Rightarrow> ('s, 'c, 'f) world \<Rightarrow> unit res \<times> ('s, 'c, 'f) world" where
  "st_UpdateVM S v w = (case time_Now w of (now, w1) \<Rightarrow> on_store (so_UpdateVM (sv_store S) now v) w1)"

definition st_GetJob :: "('s, 'c, 'f) Service \<Rightarrow> string \<Rightarrow> ('s, 'c, 'f) world \<Rightarrow> Job res \<times> ('s, 'c, 'f) world" where
  "st_GetJob S i w = on_store (so_GetJob (sv_store S) i) w"

definition st_UpdateJob :: "('s, 'c, 'f) Service \<Rightarrow> Job \<Rightarrow> ('s, 'c, 'f) world \<Rightarrow> unit res \<times> ('s, 'c, 'f) world" where
  "st_UpdateJob S j w = on_store (so_UpdateJob (sv_store S) j) w"

definition st_CreateJob :: "('s, 'c, 'f) Service \<Rightarrow> Job \<Rightarrow> ('s, 'c, 'f) world \<Rightarrow> Job res \<times> ('s, 'c, 'f) world" where
  "st_CreateJob S j w = (case time_Now w of (now, w1) \<Rightarrow> on_store (so_CreateJob (sv_store S) now j) w1)"

definition st_ListJobsByState :: "('s, 'c, 'f) Service \<Rightarrow> JobState \<Rightarrow> ('s, 'c, 'f) world
    \<Rightarrow> Job list res \<times> ('s, 'c, 'f) world" where
  "st_ListJobsByState S st w = on_store (so_ListJobsByState (sv_store S) st) w"

lemmas st_defs = st_CreateVM_def st_GetVM_def st_ListVMs_def st_UpdateVM_def st_AllocateIP_def
  st_ReleaseIPByVM_def st_GetJob_def st_UpdateJob_def st_CreateJob_def st_ListJobsByState_def

section \<open>What a step leaves alone\<close>

lemma on_conn_store: "on_conn f w = (r, w') \<Longrightarrow> w_store w' = w_store w"
  by (auto simp: on_conn_def split: prod.splits)

lemma on_fs_frame: "on_fs f w = (r, w') \<Longrightarrow> w_store w' = w_store w \<and> w_conn w' = w_conn w"
  by (auto simp: on_fs_def split: prod.splits)

text \<open>Everything but the store and the clock.\<close>

definition store_frame :: "('s, 'c, 'f) world \<Rightarrow> ('s, 'c, 'f) world \<Rightarrow> bool" where
  "store_frame w w' \<longleftrightarrow> w_conn w' = w_conn w \<and> w_fs w' = w_fs w \<and> w_uuid w' = w_uuid w \<and>
     w_rand w' = w_rand w \<and> w_sched w' = w_sched w \<and> w_timers w' = w_timers w \<and>
     w_lastStats w' = w_lastStats w \<and> w_trafficLast w' = w_trafficLast w"

lemma store_frameD:
  assumes "store_frame w w'"
  shows "w_conn w' = w_conn w" "w_fs w' = w_fs w" "w_uuid w' = w_uuid w" "w_rand w' = w_rand w"
    "w_sched w' = w_sched w" "w_timers w' = w_timers w" "w_lastStats w' = w_lastStats w"
    "w_trafficLast w' = w_trafficLast w"
  using assms by (auto simp: store_frame_def)

lemma st_frame:
  "st_CreateVM S v w = (r, w') \<Longrightarrow> store_frame w w'"
  "st_GetVM S i w = (rv, w') \<Longrightarrow> store_frame w w'"
  "st_ListVMs S w = (rl, w') \<Longrightarrow> store_frame w w'"
  "st_UpdateVM S v w = (r, w') \<Longrightarrow> store_frame w w'"
  "st_AllocateIP S n i m cs w = (rs, w') \<Longrightarrow> store_frame w w'"
  "st_ReleaseIPByVM S i w = (r, w') \<Longrightarrow> store_frame w w'"
  "st_GetJob S i w = (rj, w') \<Longrightarrow> store_frame w w'"
  "st_UpdateJob S j w = (r, w') \<Longrightarrow> store_frame w w'"
  "st_CreateJob S j w = (rj, w') \<Longrightarrow> store_frame w w'"
  "st_ListJobsByState S st w = (rjs, w') \<Longrightarrow> store_frame w w'"
  by (auto simp: store_frame_def st_defs on_store_def time_Now_def split: prod.splits)

section \<open>A service on a store that keeps the store's contract\<close>

locale service_store = store_api "sv_store S" view sinv
  for S :: "('s, 'c, 'f) Service" and view :: "'s \<Rightarrow> store_view" and sinv :: "'s \<Rightarrow> bool"
begin

lemma st_AllocateIP_law:
  assumes "st_AllocateIP S n v m cs w = (r, w')" "sinv (w_store w)"
  shows "sinv (w_store w') \<and> (case r of
      Inl e \<Rightarrow> view (w_store w') = view (w_store w)
    | Inr ip \<Rightarrow> ip \<in> set cs \<and> sv_ips (view (w_store w)) (n, ip) = None \<and>
        view (w_store w') = (view (w_store w))\<lparr>sv_ips := (sv_ips (view (w_store w)))((n, ip) \<mapsto> v)\<rparr>)"
  using assms AllocateIP_ok AllocateIP_err
  by (cases r) (fastforce simp: st_AllocateIP_def on_store_def time_Now_def split: prod.splits)+

lemma st_ReleaseIPByVM_law:
  assumes "st_ReleaseIPByVM S v w = (r, w')" "sinv (w_store w)"
  shows "sinv (w_store w') \<and> (case r of
      Inl e \<Rightarrow> view (w_store w') = view (w_store w)
    | Inr _ \<Rightarrow> view (w_store w') = (view (w_store w))\<lparr>sv_ips :=
        (\<lambda>k. if sv_ips (view (w_store w)) k = Some v then None else sv_ips (view (w_store w)) k)\<rparr>)"
  using assms ReleaseIP_ok ReleaseIP_err
  by (cases r) (fastforce simp: st_ReleaseIPByVM_def on_store_def split: prod.splits)+

lemma st_GetVM_law:
  assumes "st_GetVM S i w = (r, w')" "sinv (w_store w)"
  shows "sinv (w_store w') \<and> view (w_store w') = view (w_store w) \<and> (case r of
      Inl e \<Rightarrow> errors_Is e ErrNotFound \<longrightarrow> sv_vms (view (w_store w)) i = None
    | Inr v \<Rightarrow> sv_vms (view (w_store w)) i = Some v \<and> vm_ID v = i)"
  using assms GetVM_ok GetVM_err
  by (cases r) (fastforce simp: st_GetVM_def on_store_def split: prod.splits)+

lemma st_ListVMs_law:
  assumes "st_ListVMs S w = (r, w')" "sinv (w_store w)"
  shows "sinv (w_store w') \<and> view (w_store w') = view (w_store w) \<and> (case r of
      Inl e \<Rightarrow> True
    | Inr vs \<Rightarrow> distinct (map vm_ID vs) \<and> set vs = ran (sv_vms (view (w_store w))) \<and>
        (\<forall>v\<in>set vs. sv_vms (view (w_store w)) (vm_ID v) = Some v))"
  using assms ListVMs_ok ListVMs_err
  by (cases r) (fastforce simp: st_ListVMs_def on_store_def split: prod.splits)+

lemma st_UpdateVM_law:
  assumes "st_UpdateVM S v w = (r, w')" "sinv (w_store w)"
  shows "sinv (w_store w') \<and> (case r of
      Inl e \<Rightarrow> view (w_store w') = view (w_store w)
    | Inr _ \<Rightarrow> (\<exists>now old. sv_vms (view (w_store w)) (vm_ID v) = Some old \<and>
        view (w_store w') = (view (w_store w))\<lparr>sv_vms := (sv_vms (view (w_store w)))(vm_ID v \<mapsto> vm_written now old v)\<rparr>))"
  using assms UpdateVM_ok UpdateVM_err
  by (cases r) (fastforce simp: st_UpdateVM_def on_store_def time_Now_def split: prod.splits)+

lemma st_CreateVM_law:
  assumes "st_CreateVM S v w = (r, w')" "sinv (w_store w)"
  shows "sinv (w_store w') \<and> (case r of
      Inl e \<Rightarrow> view (w_store w') = view (w_store w)
    | Inr _ \<Rightarrow> sv_vms (view (w_store w)) (vm_ID v) = None \<and> (\<exists>now.
        view (w_store w') = (view (w_store w))\<lparr>sv_vms := (sv_vms (view (w_store w)))(vm_ID v \<mapsto> vm_created now v)\<rparr>))"
  using assms CreateVM_ok CreateVM_err
  by (cases r) (fastforce simp: st_CreateVM_def on_store_def time_Now_def split: prod.splits)+

lemma st_GetJob_law:
  assumes "st_GetJob S i w = (r, w')" "sinv (w_store w)"
  shows "sinv (w_store w') \<and> view (w_store w') = view (w_store w) \<and> (case r of
      Inl e \<Rightarrow> errors_Is e ErrNotFound \<longrightarrow> sv_jobs (view (w_store w)) i = None
    | Inr j \<Rightarrow> sv_jobs (view (w_store w)) i = Some j \<and> job_ID j = i)"
  using assms GetJob_ok GetJob_err
  by (cases r) (fastforce simp: st_GetJob_def on_store_def split: prod.splits)+

lemma st_UpdateJob_law:
  assumes "st_UpdateJob S j w = (r, w')" "sinv (w_store w)"
  shows "sinv (w_store w') \<and> (case r of
      Inl e \<Rightarrow> view (w_store w') = view (w_store w)
    | Inr _ \<Rightarrow> (\<exists>old. sv_jobs (view (w_store w)) (job_ID j) = Some old \<and>
        view (w_store w') = (view (w_store w))\<lparr>sv_jobs := (sv_jobs (view (w_store w)))(job_ID j \<mapsto> job_written old j)\<rparr>))"
  using assms UpdateJob_ok UpdateJob_err
  by (cases r) (fastforce simp: st_UpdateJob_def on_store_def split: prod.splits)+

lemma st_CreateJob_law:
  assumes "st_CreateJob S j w = (r, w')" "sinv (w_store w)"
  shows "sinv (w_store w') \<and> (case r of
      Inl e \<Rightarrow> view (w_store w') = view (w_store w)
    | Inr j' \<Rightarrow> sv_jobs (view (w_store w)) (job_ID j) = None \<and> (\<exists>now. j' = job_created now j) \<and>
        view (w_store w') = (view (w_store w))\<lparr>sv_jobs := (sv_jobs (view (w_store w)))(job_ID j \<mapsto> j')\<rparr>)"
  using assms CreateJob_ok CreateJob_err
  by (cases r) (fastforce simp: st_CreateJob_def on_store_def time_Now_def split: prod.splits)+

lemma st_ListJobs_law:
  assumes "st_ListJobsByState S st w = (r, w')" "sinv (w_store w)"
  shows "sinv (w_store w') \<and> view (w_store w') = view (w_store w) \<and> (case r of
      Inl e \<Rightarrow> True
    | Inr js \<Rightarrow> distinct (map job_ID js) \<and>
        (\<forall>j. j \<in> set js \<longleftrightarrow> sv_jobs (view (w_store w)) (job_ID j) = Some j \<and> job_State j = st))"
  using assms ListJobs_ok ListJobs_err
  by (cases r) (fastforce simp: st_ListJobsByState_def on_store_def split: prod.splits)+

end

text \<open>The same on a store with no failure ahead.\<close>

locale service_calm = calm_store "sv_store S" view sinv calm
  for S :: "('s, 'c, 'f) Service" and view :: "'s \<Rightarrow> store_view" and sinv :: "'s \<Rightarrow> bool"
    and calm :: "'s \<Rightarrow> bool"

sublocale service_calm \<subseteq> service_store
  by unfold_locales

context service_calm
begin

lemma st_GetJob_calm:
  "calm (w_store w) \<Longrightarrow> sv_jobs (view (w_store w)) i = Some j \<Longrightarrow> st_GetJob S i w = (Inr j, w)"
  by (simp add: st_GetJob_def on_store_def calm_GetJob)

lemma st_UpdateJob_calm:
  assumes "calm (w_store w)" "sv_jobs (view (w_store w)) (job_ID j) = Some old"
  shows "\<exists>w'. st_UpdateJob S j w = (Inr (), w') \<and> calm (w_store w')"
  using calm_UpdateJob [OF assms] by (auto simp: st_UpdateJob_def on_store_def)

lemma st_ListJobs_calm: "calm (w_store w) \<Longrightarrow> \<exists>js. st_ListJobsByState S st w = (Inr js, w)"
  using calm_ListJobs [of "w_store w" st] by (auto simp: st_ListJobsByState_def on_store_def)

lemma st_GetVM_calm:
  "calm (w_store w) \<Longrightarrow> sv_vms (view (w_store w)) i = Some v \<Longrightarrow> st_GetVM S i w = (Inr v, w)"
  by (simp add: st_GetVM_def on_store_def calm_GetVM)

lemma st_GetVM_calm_None:
  "calm (w_store w) \<Longrightarrow> sv_vms (view (w_store w)) i = None \<Longrightarrow>
   st_GetVM S i w = (Inl (sentinel_err ErrNotFound), w)"
  by (simp add: st_GetVM_def on_store_def calm_GetVM_None)

lemma st_UpdateVM_calm:
  assumes "calm (w_store w)" "sv_vms (view (w_store w)) (vm_ID v) = Some old"
  shows "\<exists>w'. st_UpdateVM S v w = (Inr (), w') \<and> calm (w_store w')"
  using calm_UpdateVM [OF assms, of "w_clock w 0"] by (auto simp: st_UpdateVM_def on_store_def time_Now_def)

lemma st_ListVMs_calm: "calm (w_store w) \<Longrightarrow> \<exists>vs. st_ListVMs S w = (Inr vs, w)"
  using calm_ListVMs [of "w_store w"] by (auto simp: st_ListVMs_def on_store_def)

lemma st_ReleaseIPByVM_calm:
  "calm (w_store w) \<Longrightarrow> \<exists>w'. st_ReleaseIPByVM S i w = (Inr (), w') \<and> calm (w_store w')"
  using calm_ReleaseIP [of "w_store w" i] by (auto simp: st_ReleaseIPByVM_def on_store_def)

end

text \<open>Having no failure ahead is kept too, so the contract holds with it as part of the invariant.\<close>

sublocale service_calm \<subseteq> fine: service_store S view "\<lambda>s. sinv s \<and> calm s"
  unfolding service_store_def by (rule store_api_calm)

interpretation agent: service_store "S\<lparr>sv_store := sqlite_ops\<rparr>" sqlite_view sqlite_inv
  for S :: "(SQLiteStore, 'c, 'f) Service"
proof -
  show "service_store (S\<lparr>sv_store := sqlite_ops\<rparr>) sqlite_view sqlite_inv"
    unfolding service_store_def by (simp add: sqlite.store_api_axioms)
qed

interpretation agent: service_calm "S\<lparr>sv_store := sqlite_ops\<rparr>" sqlite_view sqlite_inv sqlite_calm
  for S :: "(SQLiteStore, 'c, 'f) Service"
proof -
  show "service_calm (S\<lparr>sv_store := sqlite_ops\<rparr>) sqlite_view sqlite_inv sqlite_calm"
    unfolding service_calm_def by (simp add: sqlite.calm_store_axioms)
qed

lemma with_sqlite: "sv_store S = sqlite_ops \<Longrightarrow> S\<lparr>sv_store := sqlite_ops\<rparr> = S"
  by (cases S) simp

end
