(* ===== verification/Demo.thy ===== *)
theory Demo
  imports World
begin

text \<open>
  A small deployment, at which the witnesses of the other theories evaluate the model: the
  development configuration with one bridge network added, an empty SQLite store, the
  in-memory hypervisor, a file system on which every operation succeeds, and a marshaller that
  writes the domain's name element, which is all the in-memory hypervisor reads.
\<close>

definition demo_os :: "unit os_ops" where
  "demo_os = \<lparr>os_Remove = (\<lambda>_ f. (Inr (), f)), os_IsNotExist = (\<lambda>_. False),
     os_MkdirTemp = (\<lambda>f. (Inr ''/tmp/kite-seed-1'', f)), os_RemoveAll = (\<lambda>_ f. (Inr (), f)),
     os_Chmod = (\<lambda>_ _ f. (Inr (), f)), iso_Create = (\<lambda>_ _ _ f. (Inr (), f)),
     iso_CreateFilesystem = (\<lambda>_ _ _ f. (Inr True, f)), iso_OpenFile = (\<lambda>_ _ f. (Inr (), f)),
     iso_Write = (\<lambda>_ _ _ f. (Inr (), f)), iso_Finalize = (\<lambda>_ _ f. (Inr (), f))\<rparr>"

definition demo_xml :: xml_marshal where
  "demo_xml = \<lparr>xm_Domain = (\<lambda>d. Inr (''<domain><name>'' @ dm_Name d @ ''</name></domain>'')),
     xm_Interface = (\<lambda>i. Inr ''<interface/>'')\<rparr>"

definition demo_bridge :: Network where
  "demo_bridge = \<lparr>nw_ID = ''pub'', nw_Mode = NetworkModeBridge, nw_Default = False,
     nw_LibvirtNetwork = [], nw_Subnet = [], nw_Bridge = ''br0'',
     nw_IPPool = [''203.0.113.10'', ''203.0.113.11''], nw_Gateway = ''203.0.113.1'',
     nw_Netmask = ''/24'', nw_DNS = [''1.1.1.1''], nw_VLAN = 0\<rparr>"

definition demo_config :: Config where
  "demo_config = dev_config\<lparr>cfg_Networks := cfg_Networks dev_config @ [demo_bridge]\<rparr>"

definition demo_service :: "(SQLiteStore, Fake, unit) Service" where
  "demo_service = \<lparr>sv_cfg = demo_config, sv_store = sqlite_ops, sv_conn = fake_ops,
     sv_catalog = catalog_New demo_config,
     sv_network = [''nat'' \<mapsto> natStrategy (hd (cfg_Networks dev_config)), ''pub'' \<mapsto> bridgeStrategy demo_bridge],
     sv_os = demo_os, sv_xml = demo_xml, sv_ssh_ok = (\<lambda>_. True)\<rparr>"

definition empty_store :: SQLiteStore where
  "empty_store = \<lparr>db_vms = [], db_jobs = [], db_idem = [], db_ips = [], db_faults = []\<rparr>"

definition demo_world :: "(SQLiteStore, Fake, unit) world" where
  "demo_world = \<lparr>w_store = empty_store, w_conn = NewFake, w_fs = (),
     w_clock = (\<lambda>n. int n * second), w_uuid = (\<lambda>n. ''id-'' @ dec_of_nat n),
     w_rand = (\<lambda>n. Inr (\<lambda>i. of_nat (n + i))), w_sched = [], w_timers = [], w_lastStats = Map.empty,
     w_trafficLast = Map.empty\<rparr>"

lemma demo_store [simp]: "sv_store demo_service = sqlite_ops" "sv_conn demo_service = fake_ops"
  by (simp_all add: demo_service_def)

lemma demo_world_ok [simp]:
  "sqlite_inv (w_store demo_world)" "sqlite_calm (w_store demo_world)"
  by (simp_all add: demo_world_def empty_store_def sqlite_inv_def sqlite_calm_def)

text \<open>The same host with one running VM on the bridge network.\<close>

definition demo_vm :: VM where
  "demo_vm = zero_VM\<lparr>vm_ID := ''v1'', vm_DomainName := ''kvm-v1'', vm_Hostname := ''web'',
     vm_FlavorID := ''s1.small'', vm_ImageID := ''ubuntu-22.04'', vm_VCPUs := 1, vm_MemoryMB := 1024,
     vm_DiskGB := 20, vm_NetworkID := ''pub'', vm_NetworkMode := NetworkBridge,
     vm_MAC := ''52:54:00:00:00:01'', vm_IP := ''203.0.113.10'', vm_Status := VMStatusRunning,
     vm_PowerState := PowerRunning, vm_TrafficQuotaBytes := push_bit 30 1\<rparr>"

definition demo_domain :: fakeDomain where
  "demo_domain = \<lparr>fd_uuid = ''u1'', fd_xml = ''<name>kvm-v1</name>'', fd_state = StateRunning\<rparr>"

definition vm_world :: "VM \<Rightarrow> (SQLiteStore, Fake, unit) world" where
  "vm_world v = demo_world\<lparr>w_store := empty_store\<lparr>db_vms := [vm_values v]\<rparr>,
     w_conn := NewFake\<lparr>f_domains := [(''kvm-v1'', demo_domain)]\<rparr>\<rparr>"

lemma row_id_values [simp]: "row_id (vm_values v) = vm_ID v"
  by (simp add: row_id_def vm_values_def)

lemma vm_world_ok [simp]: "sqlite_inv (w_store (vm_world v))" "sqlite_calm (w_store (vm_world v))"
  by (simp_all add: vm_world_def demo_world_def empty_store_def sqlite_inv_def sqlite_calm_def)

lemma vm_world_view [simp]:
  "sqlite_view (w_store (vm_world v)) =
     \<lparr>sv_vms = [vm_ID v \<mapsto> v], sv_jobs = Map.empty, sv_idem = Map.empty, sv_ips = Map.empty\<rparr>"
  by (auto simp: vm_world_def demo_world_def empty_store_def sqlite_view_def fun_eq_iff row_of_Cons)

end
