(* ===== verification/Network.thy ===== *)
theory Network
  imports Demo
begin

text \<open>
  Network allocation (\<open>internal/network\<close>): the two strategies behind \<open>Strategy\<close>, NAT
  (\<open>nat.go\<close>) and bridge (\<open>bridge.go\<close>), and the \<open>Manager\<close> that dispatches to them.

  Addresses are 32-bit words, so that the arithmetic on network and broadcast addresses wraps
  the way the code's \<open>uint32\<close> does. The loop of \<open>expandCIDRHosts\<close> does not end when the last
  address of the pool is 255.255.255.255; it is a \<open>partial_function\<close> and not returning is
  \<open>None\<close>, in it and in every operation that calls it.
\<close>

unbundle bit_operations_syntax

section \<open>Attachments and addresses\<close>

definition maxCandidates :: nat where
  "maxCandidates = 4096"

record Attachment =
  at_NetworkID :: string
  at_Mode :: string
  at_MAC :: string
  at_IP :: string
  at_Gateway :: string
  at_Netmask :: string
  at_Source :: string
  at_VLAN :: int
  at_Static :: bool
  at_AddressCIDR :: string
  at_Nameservers :: "string list"

definition NewManager :: "Config \<Rightarrow> Manager res" where
  "NewManager cfg = fold (\<lambda>n acc. case acc of Inl e \<Rightarrow> Inl e | Inr m \<Rightarrow>
       if nw_Mode n = NetworkModeNAT then Inr (m(nw_ID n \<mapsto> natStrategy n))
       else if nw_Mode n = NetworkModeBridge then Inr (m(nw_ID n \<mapsto> bridgeStrategy n))
       else Inl (errors_New (''network '' @ Quote (nw_ID n) @ '': unsupported mode '' @ Quote (nw_Mode n))))
     (cfg_Networks cfg) (Inr Map.empty)"

definition generateMAC :: "('s, 'c, 'f) world \<Rightarrow> string res \<times> ('s, 'c, 'f) world" where
  "generateMAC w = (case rand_Read 3 w of
     (Inl e, w1) \<Rightarrow> (Inl e, w1)
   | (Inr b, w1) \<Rightarrow>
       (Inr (''52:54:00:'' @ hex2 (b ! 0) @ '':'' @ hex2 (b ! 1) @ '':'' @ hex2 (b ! 2)), w1))"

type_synonym ip4 = "byte \<times> byte \<times> byte \<times> byte"

definition ip4ToU32 :: "ip4 \<Rightarrow> 32 word" where
  "ip4ToU32 ip = (case ip of (a, b, c, d) \<Rightarrow>
     push_bit 24 (ucast a) OR push_bit 16 (ucast b) OR push_bit 8 (ucast c) OR ucast d)"

definition u32ToIP4 :: "32 word \<Rightarrow> ip4" where
  "u32ToIP4 u = (ucast (drop_bit 24 u), ucast (drop_bit 16 u), ucast (drop_bit 8 u), ucast u)"

function subnetHosts_loop :: "nat \<Rightarrow> 32 word \<Rightarrow> 32 word \<Rightarrow> string list \<Rightarrow> string list" where
  "subnetHosts_loop maxn bcastU u hosts =
     (if u < bcastU \<and> length hosts < maxn
      then subnetHosts_loop maxn bcastU (u + 1) (hosts @ [ip4_String (u32ToIP4 u)])
      else hosts)"
  by auto
termination
  by (relation "measure (\<lambda>(maxn, b, u, hosts). maxn - length hosts)") auto

declare subnetHosts_loop.simps [simp del]

definition subnetHosts :: "string \<Rightarrow> nat \<Rightarrow> (ip4 \<times> string list) res" where
  "subnetHosts cidr maxn = (case ParseCIDR cidr of
     None \<Rightarrow> Inl (errors_New (''invalid CIDR address: '' @ cidr))
   | Some ipnet \<Rightarrow> (case To4 (net_IP ipnet) of
       None \<Rightarrow> Inl (errors_New (''network: only IPv4 subnets are supported, got '' @ Quote cidr))
     | Some base \<Rightarrow>
         let netU = ip4ToU32 base;
             size = push_bit (net_bits ipnet - net_ones ipnet) 1;
             gwU = netU + 1;
             bcastU = netU + size - 1
         in Inr (u32ToIP4 gwU, subnetHosts_loop maxn bcastU (netU + 2) [])))"

definition netmaskOf :: "string \<Rightarrow> string" where
  "netmaskOf cidr = (case ParseCIDR cidr of
     None \<Rightarrow> []
   | Some ipnet \<Rightarrow> (case net_mask ipnet of
       [a, b, c, d] \<Rightarrow> ip4_String (a, b, c, d)
     | _ \<Rightarrow> []))"

definition host_char :: "char \<Rightarrow> bool" where
  "host_char c \<longleftrightarrow> (CHR ''a'' \<le> c \<and> c \<le> CHR ''z'') \<or> (CHR ''A'' \<le> c \<and> c \<le> CHR ''Z'') \<or>
     (CHR ''0'' \<le> c \<and> c \<le> CHR ''9'') \<or> c = CHR ''-''"

definition keepHostChars :: "string \<Rightarrow> string" where
  "keepHostChars s = filter host_char s"

definition sanitizeHostname :: "string \<Rightarrow> string \<Rightarrow> string" where
  "sanitizeHostname hostname vmID =
     (let clean = keepHostChars hostname;
          clean = (if clean = [] then ''vm-'' @ keepHostChars vmID else clean)
      in if length clean > 63 then take 63 clean else clean)"

section \<open>The bridge pool\<close>

partial_function (option) expandCIDRHosts_loop :: "32 word \<Rightarrow> 32 word \<Rightarrow> string list \<Rightarrow> string list option" where
  "expandCIDRHosts_loop hi u hosts =
     (if u \<le> hi then expandCIDRHosts_loop hi (u + 1) (hosts @ [ip4_String (u32ToIP4 u)])
      else Some hosts)"

definition expandCIDRHosts :: "string \<Rightarrow> string list res option" where
  "expandCIDRHosts cidr = (case ParseCIDR cidr of
     None \<Rightarrow> Some (Inl (errors_New (''invalid CIDR address: '' @ cidr)))
   | Some ipnet \<Rightarrow> (case To4 (net_IP ipnet) of
       None \<Rightarrow> Some (Inl (errors_New (''network: only IPv4 pools are supported, got '' @ Quote cidr)))
     | Some base \<Rightarrow>
         let ones = net_ones ipnet;
             netU = ip4ToU32 base;
             size = push_bit (net_bits ipnet - ones) 1;
             (lo, hi) = (if ones \<ge> 31 then (netU, netU + size - 1) else (netU + 1, netU + size - 2))
         in map_option Inr (expandCIDRHosts_loop hi lo [])))"

text \<open>The closure \<open>add\<close>: \<open>seen\<close> is the set of the addresses in \<open>out\<close>.\<close>

definition pool_add :: "string \<Rightarrow> string list \<Rightarrow> string \<Rightarrow> string list" where
  "pool_add gateway out ip = (if ip = gateway then out else if ip \<in> set out then out else out @ [ip])"

fun pool_hosts :: "string \<Rightarrow> nat \<Rightarrow> string list \<Rightarrow> string list \<Rightarrow> string list" where
  "pool_hosts gateway maxn out [] = out"
| "pool_hosts gateway maxn out (h # hs) =
     (let out' = pool_add gateway out h
      in if length out' \<ge> maxn then out' else pool_hosts gateway maxn out' hs)"

fun expandPool_loop :: "string \<Rightarrow> nat \<Rightarrow> string list \<Rightarrow> string list \<Rightarrow> string list res option" where
  "expandPool_loop gateway maxn out [] = Some (Inr out)"
| "expandPool_loop gateway maxn out (e # es) =
     (if length out \<ge> maxn then Some (Inr out)
      else if Contains e ''/'' then
        (case expandCIDRHosts e of
           None \<Rightarrow> None
         | Some (Inl err) \<Rightarrow> Some (Inl err)
         | Some (Inr hosts) \<Rightarrow> expandPool_loop gateway maxn (pool_hosts gateway maxn out hosts) es)
      else if ParseIP e = None then Some (Inl (errors_New (''invalid pool ip '' @ Quote e)))
      else expandPool_loop gateway maxn (pool_add gateway out e) es)"

definition expandPool :: "string list \<Rightarrow> string \<Rightarrow> nat \<Rightarrow> string list res option" where
  "expandPool entries gateway maxn = expandPool_loop gateway maxn [] entries"

text \<open>\<open>IPMask.Size\<close> of a four-byte mask: the number of leading ones, or 0 when the mask is not
  of the form ones then zeros.\<close>

fun simpleMaskLength :: "bool list \<Rightarrow> nat option" where
  "simpleMaskLength [] = Some 0"
| "simpleMaskLength (b # bs) =
     (if b then map_option Suc (simpleMaskLength bs)
      else if True \<in> set bs then None else Some 0)"

definition byte_bits :: "byte \<Rightarrow> bool list" where
  "byte_bits b = map (\<lambda>i. bit b (7 - i)) [0..<8]"

definition mask_Size :: "ip4 \<Rightarrow> nat" where
  "mask_Size m = (case m of (a, b, c, d) \<Rightarrow>
     case simpleMaskLength (concat (map byte_bits [a, b, c, d])) of None \<Rightarrow> 0 | Some n \<Rightarrow> n)"

definition prefixFromNetmask :: "string \<Rightarrow> string" where
  "prefixFromNetmask nm0 =
     (let nm = TrimSpace nm0
      in if nm = [] then ''32''
         else if HasPrefix nm ''/'' then tl nm
         else case Option.bind (ParseIP nm) To4 of
                None \<Rightarrow> ''32''
              | Some ip \<Rightarrow> dec_of_nat (mask_Size ip))"

section \<open>The strategies and the manager\<close>

definition nat_Allocate :: "('s, 'c, 'f) Service \<Rightarrow> Network \<Rightarrow> string \<Rightarrow> string \<Rightarrow> ('s, 'c, 'f) world
    \<Rightarrow> Attachment res \<times> ('s, 'c, 'f) world" where
  "nat_Allocate S cfg vmID hostname w = (case generateMAC w of
     (Inl e, w1) \<Rightarrow> (Inl e, w1)
   | (Inr mac, w1) \<Rightarrow>
       if nw_Subnet cfg = [] then
         (Inl (errors_New (''network '' @ Quote (nw_ID cfg) @ '': subnet is required to assign a static lease'')), w1)
       else case subnetHosts (nw_Subnet cfg) maxCandidates of
         Inl e \<Rightarrow> (Inl e, w1)
       | Inr (gateway, hosts) \<Rightarrow> (case st_AllocateIP S (nw_ID cfg) vmID mac hosts w1 of
           (Inl e, w2) \<Rightarrow> (Inl e, w2)
         | (Inr ip, w2) \<Rightarrow>
             let name = sanitizeHostname hostname vmID
             in case on_conn (co_AddDHCPHost (sv_conn S) (nw_LibvirtNetwork cfg) mac name ip) w2 of
               (Inl e, w3) \<Rightarrow>
                 (Inl (wrap_err ''add dhcp lease'' e), ignore_err (st_ReleaseIPByVM S vmID w3))
             | (Inr _, w3) \<Rightarrow>
                 (Inr \<lparr>at_NetworkID = nw_ID cfg, at_Mode = NetworkModeNAT, at_MAC = mac, at_IP = ip,
                    at_Gateway = ip4_String gateway, at_Netmask = netmaskOf (nw_Subnet cfg),
                    at_Source = nw_LibvirtNetwork cfg, at_VLAN = 0, at_Static = False,
                    at_AddressCIDR = [], at_Nameservers = []\<rparr>, w3)))"

definition nat_Release :: "('s, 'c, 'f) Service \<Rightarrow> Network \<Rightarrow> string \<Rightarrow> string \<Rightarrow> ('s, 'c, 'f) world
    \<Rightarrow> unit res \<times> ('s, 'c, 'f) world" where
  "nat_Release S cfg vmID mac w =
     (let (firstErr, w1) =
        (if mac \<noteq> [] then
           (case on_conn (co_RemoveDHCPHost (sv_conn S) (nw_LibvirtNetwork cfg) mac) w of
              (Inl e, w1) \<Rightarrow> (Some e, w1)
            | (Inr _, w1) \<Rightarrow> (None, w1))
         else (None, w))
      in case st_ReleaseIPByVM S vmID w1 of
           (Inl e, w2) \<Rightarrow> (Inl (case firstErr of None \<Rightarrow> e | Some e0 \<Rightarrow> e0), w2)
         | (Inr _, w2) \<Rightarrow> (case firstErr of None \<Rightarrow> (Inr (), w2) | Some e0 \<Rightarrow> (Inl e0, w2)))"

definition bridge_Allocate :: "('s, 'c, 'f) Service \<Rightarrow> Network \<Rightarrow> string \<Rightarrow> string \<Rightarrow> ('s, 'c, 'f) world
    \<Rightarrow> (Attachment res \<times> ('s, 'c, 'f) world) option" where
  "bridge_Allocate S cfg vmID hostname w = (case generateMAC w of
     (Inl e, w1) \<Rightarrow> Some (Inl e, w1)
   | (Inr mac, w1) \<Rightarrow> (case expandPool (nw_IPPool cfg) (nw_Gateway cfg) maxCandidates of
       None \<Rightarrow> None
     | Some (Inl e) \<Rightarrow> Some (Inl e, w1)
     | Some (Inr candidates) \<Rightarrow>
         if candidates = [] then
           Some (Inl (errors_New (''network '' @ Quote (nw_ID cfg) @ '': ip pool yields no assignable addresses'')), w1)
         else (case st_AllocateIP S (nw_ID cfg) vmID mac candidates w1 of
           (Inl e, w2) \<Rightarrow> Some (Inl e, w2)
         | (Inr ip, w2) \<Rightarrow>
             Some (Inr \<lparr>at_NetworkID = nw_ID cfg, at_Mode = NetworkModeBridge, at_MAC = mac, at_IP = ip,
               at_Gateway = nw_Gateway cfg, at_Netmask = nw_Netmask cfg, at_Source = nw_Bridge cfg,
               at_VLAN = nw_VLAN cfg, at_Static = True,
               at_AddressCIDR = ip @ ''/'' @ prefixFromNetmask (nw_Netmask cfg),
               at_Nameservers = nw_DNS cfg\<rparr>, w2))))"

definition bridge_Release :: "('s, 'c, 'f) Service \<Rightarrow> Network \<Rightarrow> string \<Rightarrow> string \<Rightarrow> ('s, 'c, 'f) world
    \<Rightarrow> unit res \<times> ('s, 'c, 'f) world" where
  "bridge_Release S cfg vmID mac w = st_ReleaseIPByVM S vmID w"

fun strategy_Allocate :: "('s, 'c, 'f) Service \<Rightarrow> Strategy \<Rightarrow> string \<Rightarrow> string \<Rightarrow> ('s, 'c, 'f) world
    \<Rightarrow> (Attachment res \<times> ('s, 'c, 'f) world) option" where
  "strategy_Allocate S (natStrategy cfg) vmID hostname w = Some (nat_Allocate S cfg vmID hostname w)"
| "strategy_Allocate S (bridgeStrategy cfg) vmID hostname w = bridge_Allocate S cfg vmID hostname w"

fun strategy_Release :: "('s, 'c, 'f) Service \<Rightarrow> Strategy \<Rightarrow> string \<Rightarrow> string \<Rightarrow> ('s, 'c, 'f) world
    \<Rightarrow> unit res \<times> ('s, 'c, 'f) world" where
  "strategy_Release S (natStrategy cfg) vmID mac w = nat_Release S cfg vmID mac w"
| "strategy_Release S (bridgeStrategy cfg) vmID mac w = bridge_Release S cfg vmID mac w"

definition manager_Allocate :: "('s, 'c, 'f) Service \<Rightarrow> string \<Rightarrow> string \<Rightarrow> string \<Rightarrow> ('s, 'c, 'f) world
    \<Rightarrow> (Attachment res \<times> ('s, 'c, 'f) world) option" where
  "manager_Allocate S networkID vmID hostname w = (case sv_network S networkID of
     None \<Rightarrow> Some (Inl (detail_err Err_network_NotFound networkID), w)
   | Some s \<Rightarrow> strategy_Allocate S s vmID hostname w)"

definition manager_Release :: "('s, 'c, 'f) Service \<Rightarrow> string \<Rightarrow> string \<Rightarrow> string \<Rightarrow> ('s, 'c, 'f) world
    \<Rightarrow> unit res \<times> ('s, 'c, 'f) world" where
  "manager_Release S networkID vmID mac w = (case sv_network S networkID of
     None \<Rightarrow> (Inr (), w)
   | Some s \<Rightarrow> strategy_Release S s vmID mac w)"

section \<open>Words and addresses\<close>

lemma bit_byte_less: "bit (b :: byte) j \<Longrightarrow> j < 8"
  using bit_imp_le_length [of b j] by simp

lemma bit_ip4ToU32:
  "bit (ip4ToU32 (a, b, c, d)) j \<longleftrightarrow>
     (if j < 8 then bit d j else if j < 16 then bit c (j - 8)
      else if j < 24 then bit b (j - 16) else j < 32 \<and> bit a (j - 24))"
  by (auto simp: ip4ToU32_def bit_simps dest: bit_byte_less)

lemma ip4ToU32_u32ToIP4 [simp]: "ip4ToU32 (u32ToIP4 u) = u"
  by (rule bit_word_eqI) (auto simp: u32ToIP4_def bit_ip4ToU32 bit_simps)

lemma u32ToIP4_ip4ToU32 [simp]: "u32ToIP4 (ip4ToU32 p) = p"
proof -
  obtain a b c d where p: "p = (a, b, c, d)" by (cases p)
  show ?thesis unfolding p u32ToIP4_def
    by (auto intro!: bit_word_eqI simp: bit_simps bit_ip4ToU32)
qed

lemma u32ToIP4_inj: "u32ToIP4 u = u32ToIP4 v \<longleftrightarrow> u = v"
  by (metis ip4ToU32_u32ToIP4)

lemma cidr_bytes_4:
  "cidr_bytes 4 n = map (\<lambda>i. push_bit (8 - min 8 (n - 8 * i)) 255) [0, 1, 2, 3]"
  by (simp add: eval_nat_numeral)

lemma bit_mask_byte: "bit (push_bit k (255 :: byte)) j \<longleftrightarrow> k \<le> j \<and> j < 8"
proof -
  have m: "(255 :: byte) = mask 8" by (simp add: mask_eq_exp_minus_1)
  show ?thesis unfolding m by (auto simp: bit_push_bit_iff bit_mask_iff)
qed

lemma and_mask_byte_eq:
  "a AND push_bit k (255 :: byte) = a' AND push_bit k 255 \<longleftrightarrow>
     (\<forall>j. k \<le> j \<and> j < 8 \<longrightarrow> bit a j = bit a' j)"
  by (auto simp: bit_eq_iff bit_and_iff bit_mask_byte)

lemma drop_bit_eq_iff:
  "drop_bit k u = drop_bit k v \<longleftrightarrow> (\<forall>j. k \<le> j \<and> j < 32 \<longrightarrow> bit (u :: 32 word) j = bit v j)"
proof
  assume l: "drop_bit k u = drop_bit k v"
  show "\<forall>j. k \<le> j \<and> j < 32 \<longrightarrow> bit u j = bit v j"
  proof (intro allI impI)
    fix j assume "k \<le> j \<and> j < 32"
    then have "j = k + (j - k)" by simp
    with l show "bit u j = bit v j" by (metis bit_drop_bit_eq comp_apply)
  qed
next
  assume r: "\<forall>j. k \<le> j \<and> j < 32 \<longrightarrow> bit u j = bit v j"
  show "drop_bit k u = drop_bit k v"
  proof (rule bit_word_eqI)
    fix i
    have "k + i < 32 \<Longrightarrow> bit u (k + i) = bit v (k + i)" using r by simp
    moreover have "\<not> k + i < 32 \<Longrightarrow> \<not> bit u (k + i) \<and> \<not> bit v (k + i)"
      using bit_imp_le_length [of u "k + i"] bit_imp_le_length [of v "k + i"] by auto
    ultimately show "bit (drop_bit k u) i = bit (drop_bit k v) i"
      by (auto simp: bit_drop_bit_eq)
  qed
qed

definition mask4 :: "nat \<Rightarrow> ip4 \<Rightarrow> byte list" where
  "mask4 ones p = (case p of (a, b, c, d) \<Rightarrow> map2 (AND) [a, b, c, d] (cidr_bytes 4 ones))"

text \<open>Two addresses agree under a mask when they agree on the bits above the host part.\<close>

lemma mask4_eq_iff:
  assumes "n \<le> 32"
  shows "mask4 n p = mask4 n q \<longleftrightarrow> drop_bit (32 - n) (ip4ToU32 p) = drop_bit (32 - n) (ip4ToU32 q)"
proof -
  obtain a b c d where p: "p = (a, b, c, d)" by (cases p)
  obtain a' b' c' d' where q: "q = (a', b', c', d')" by (cases q)
  have bytes: "mask4 n p = mask4 n q \<longleftrightarrow>
      (\<forall>j. 8 - min 8 n \<le> j \<and> j < 8 \<longrightarrow> bit a j = bit a' j) \<and>
      (\<forall>j. 8 - min 8 (n - 8) \<le> j \<and> j < 8 \<longrightarrow> bit b j = bit b' j) \<and>
      (\<forall>j. 8 - min 8 (n - 16) \<le> j \<and> j < 8 \<longrightarrow> bit c j = bit c' j) \<and>
      (\<forall>j. 8 - min 8 (n - 24) \<le> j \<and> j < 8 \<longrightarrow> bit d j = bit d' j)"
    unfolding mask4_def p q cidr_bytes_4 by (simp add: and_mask_byte_eq)
  note words = drop_bit_eq_iff [of "32 - n" "ip4ToU32 p" "ip4ToU32 q"]
  show ?thesis
  proof
    assume "mask4 n p = mask4 n q"
    note b = this [unfolded bytes]
    have "bit (ip4ToU32 p) j = bit (ip4ToU32 q) j" if "32 - n \<le> j" "j < 32" for j
    proof -
      have "24 \<le> j \<longrightarrow> 8 - min 8 n \<le> j - 24 \<and> j - 24 < 8"
        and "16 \<le> j \<and> j < 24 \<longrightarrow> 8 - min 8 (n - 8) \<le> j - 16 \<and> j - 16 < 8"
        and "8 \<le> j \<and> j < 16 \<longrightarrow> 8 - min 8 (n - 16) \<le> j - 8 \<and> j - 8 < 8"
        and "j < 8 \<longrightarrow> 8 - min 8 (n - 24) \<le> j"
        using that assms by auto
      then have "24 \<le> j \<longrightarrow> bit a (j - 24) = bit a' (j - 24)"
        and "16 \<le> j \<and> j < 24 \<longrightarrow> bit b (j - 16) = bit b' (j - 16)"
        and "8 \<le> j \<and> j < 16 \<longrightarrow> bit c (j - 8) = bit c' (j - 8)"
        and "j < 8 \<longrightarrow> bit d j = bit d' j"
        using that b by blast+
      then show ?thesis unfolding p q bit_ip4ToU32 by auto
    qed
    then show "drop_bit (32 - n) (ip4ToU32 p) = drop_bit (32 - n) (ip4ToU32 q)"
      by (simp add: words)
  next
    assume "drop_bit (32 - n) (ip4ToU32 p) = drop_bit (32 - n) (ip4ToU32 q)"
    then have w: "32 - n \<le> j \<Longrightarrow> j < 32 \<Longrightarrow> bit (ip4ToU32 p) j = bit (ip4ToU32 q) j" for j
      using words by blast
    have 1: "8 - min 8 n \<le> j \<and> j < 8 \<longrightarrow> bit a j = bit a' j" for j
      using w [of "j + 24"] assms by (auto simp: p q bit_ip4ToU32 min_def split: if_splits)
    have 2: "8 - min 8 (n - 8) \<le> j \<and> j < 8 \<longrightarrow> bit b j = bit b' j" for j
      using w [of "j + 16"] assms by (auto simp: p q bit_ip4ToU32 min_def split: if_splits)
    have 3: "8 - min 8 (n - 16) \<le> j \<and> j < 8 \<longrightarrow> bit c j = bit c' j" for j
      using w [of "j + 8"] assms by (auto simp: p q bit_ip4ToU32 min_def split: if_splits)
    have 4: "8 - min 8 (n - 24) \<le> j \<and> j < 8 \<longrightarrow> bit d j = bit d' j" for j
      using w [of j] assms by (auto simp: p q bit_ip4ToU32 min_def split: if_splits)
    from 1 2 3 4 show "mask4 n p = mask4 n q" unfolding bytes by blast
  qed
qed

section \<open>The address loops\<close>

definition host_at :: "nat \<Rightarrow> string" where
  "host_at k = ip4_String (u32ToIP4 (of_nat k))"

lemma host_at_unat: "host_at (unat u) = ip4_String (u32ToIP4 u)"
  by (simp add: host_at_def)

lemma host_at_inj: "j < 2 ^ 32 \<Longrightarrow> k < 2 ^ 32 \<Longrightarrow> host_at j = host_at k \<longleftrightarrow> j = k"
  by (auto simp: host_at_def ip4_String_inj u32ToIP4_inj unsigned_of_nat take_bit_nat_eq_self
      dest: arg_cong [where f = unat])

lemma unat_Suc32: "(u :: 32 word) < v \<Longrightarrow> unat (u + 1) = Suc (unat u)"
proof -
  assume "u < v"
  then have "Suc (unat u) < 2 ^ 32"
    using unsigned_less [of v, where ?'a = nat] by (simp add: word_less_nat_alt)
  then show ?thesis by (simp add: unat_word_ariths)
qed

lemma subnetHosts_loop_eq:
  "subnetHosts_loop m b u hs =
     hs @ map host_at [unat u ..< min (unat b) (unat u + (m - length hs))]"
proof (induction m b u hs rule: subnetHosts_loop.induct)
  case (1 m b u hs)
  show ?case
  proof (cases "u < b \<and> length hs < m")
    case True
    then have s: "unat (u + 1) = Suc (unat u)" "unat u < unat b"
      by (auto simp: unat_Suc32 word_less_nat_alt)
    have "[unat u ..< min (unat b) (unat u + (m - length hs))] =
      unat u # [Suc (unat u) ..< min (unat b) (unat u + (m - length hs))]"
      using True s by (intro upt_conv_Cons) auto
    with 1 True s show ?thesis
      by (subst subnetHosts_loop.simps) (auto simp: host_at_unat min_def Suc_diff_Suc)
  next
    case False
    then show ?thesis by (subst subnetHosts_loop.simps) (auto simp: word_less_nat_alt min_def)
  qed
qed

lemma expandCIDRHosts_loop_returns:
  assumes "hi \<noteq> -1"
  shows "expandCIDRHosts_loop hi u hs = Some (hs @ map host_at [unat u ..< Suc (unat hi)])"
proof (induction "Suc (unat hi) - unat u" arbitrary: u hs)
  case 0
  then have "\<not> u \<le> hi" by (simp add: word_le_nat_alt)
  then show ?case using 0 by (subst expandCIDRHosts_loop.simps) simp
next
  case (Suc k)
  then have le: "u \<le> hi" by (simp add: word_le_nat_alt)
  have "hi < -1" using assms by (simp add: word_order.not_eq_extremum)
  with le have s: "unat (u + 1) = Suc (unat u)" using unat_Suc32 [of u "-1"] by simp
  have "unat u < Suc (unat hi)" using le by (simp add: word_le_nat_alt)
  then have "[unat u ..< Suc (unat hi)] = unat u # [Suc (unat u) ..< Suc (unat hi)]"
    by (rule upt_conv_Cons)
  moreover have "expandCIDRHosts_loop hi (u + 1) (hs @ [host_at (unat u)]) =
      Some ((hs @ [host_at (unat u)]) @ map host_at [unat (u + 1) ..< Suc (unat hi)])"
    using Suc(2) s by (intro Suc(1)) simp
  ultimately show ?case
    using le s by (subst expandCIDRHosts_loop.simps) (simp add: host_at_unat)
qed

lemma expandCIDRHosts_loop_diverges: "expandCIDRHosts_loop (-1) u hs = None"
proof -
  have "hi \<noteq> -1" if "expandCIDRHosts_loop hi u hs = Some y" for hi u hs y
    by (rule expandCIDRHosts_loop.raw_induct [where P = "\<lambda>hi u hs y. hi \<noteq> -1", OF _ that])
      (auto split: if_splits)
  then show ?thesis by (metis option.exhaust)
qed


section \<open>Parsed networks\<close>

definition IP_of :: "ip4 \<Rightarrow> IP" where
  "IP_of p = (case p of (a, b, c, d) \<Rightarrow> IPv4 a b c d)"

lemma To4_IP_of [simp]: "To4 (IP_of p) = Some p"
  by (cases p) (simp add: IP_of_def)

lemma ParseIP_host_at: "ParseIP (host_at k) = Some (IP_of (u32ToIP4 (of_nat k)))"
  by (cases "u32ToIP4 (of_nat k)") (simp add: host_at_def IP_of_def ParseIP_ip4_String)

lemma parseIPv4Fields_length:
  "parseIPv4Fields fs v dl s = Some r \<Longrightarrow> length fs \<le> 3 \<Longrightarrow> length r = 4"
  by (induction fs v dl s rule: parseIPv4Fields.induct)
    (auto simp: Let_def split: if_splits)

lemma ParseAddr_v4:
  assumes "ParseAddr s = Some a" "BitLen a = 32"
  shows "\<exists>p. addr_bytes a = IP_of p"
proof -
  obtain f where "addr_bytes a = v4InV6Prefix @ f" "length f = 4"
    using assms parseIPv4Fields_length [of "[]" 0 0 s]
    by (auto simp: ParseAddr_def split: option.splits if_splits)
  then show ?thesis
    by (auto simp: IP_of_def IPv4_def length_Suc_conv eval_nat_numeral intro: exI [of _ "(f ! 0, f ! 1, f ! 2, f ! 3)"])
qed

lemma mask4_bits:
  assumes "n \<le> 32" "mask4 n p = [a, b, c, d]" "bit (ip4ToU32 (a, b, c, d)) j"
  shows "32 - n \<le> j"
  using assms by (cases p)
    (auto simp: mask4_def cidr_bytes_4 bit_ip4ToU32 bit_and_iff bit_mask_byte split: if_splits)

lemma ParseCIDR_v4:
  assumes "ParseCIDR s = Some n" "net_bits n = 32"
  obtains p where "net_ones n \<le> 32" "net_IP n = IP_of p" "unat (ip4ToU32 p) mod 2 ^ (32 - net_ones n) = 0"
proof -
  obtain i a where a: "ParseAddr (take i s) = Some a" "BitLen a = 32" and ones: "net_ones n \<le> 32"
    and ip: "net_IP n = mask_ip 32 (net_ones n) (addr_bytes a)"
    using assms by (auto simp: ParseCIDR_def split: option.splits if_splits)
  obtain q where q: "addr_bytes a = IP_of q" using ParseAddr_v4 [OF a] ..
  obtain a' b' c' d' where m: "mask4 (net_ones n) q = [a', b', c', d']"
    by (cases q) (simp add: mask4_def cidr_bytes_4)
  have "net_IP n = IP_of (a', b', c', d')"
    using ip q m by (cases q) (simp add: mask_ip_def IP_of_def IPv4_def mask4_def v4InV6Prefix_def)
  moreover have "take_bit (32 - net_ones n) (ip4ToU32 (a', b', c', d')) = 0"
    using mask4_bits [OF ones m] by (fastforce simp: bit_eq_iff bit_take_bit_iff)
  then have "take_bit (32 - net_ones n) (unat (ip4ToU32 (a', b', c', d'))) = 0"
    by (simp only: flip: unsigned_take_bit_eq) simp
  then have "unat (ip4ToU32 (a', b', c', d')) mod 2 ^ (32 - net_ones n) = 0"
    by (simp only: take_bit_eq_mod)
  ultimately show ?thesis by (rule that [OF ones])
qed

lemma net_Contains_v4:
  assumes "net_bits n = 32" "net_ones n \<le> 32" "net_IP n = IP_of p"
  shows "net_Contains n (IP_of q) \<longleftrightarrow>
    unat (ip4ToU32 p) div 2 ^ (32 - net_ones n) = unat (ip4ToU32 q) div 2 ^ (32 - net_ones n)"
proof -
  have "net_Contains n (IP_of q) \<longleftrightarrow> mask4 (net_ones n) p = mask4 (net_ones n) q"
    using assms by (cases p; cases q)
      (simp add: net_Contains_def net_mask_def mask4_def cidr_bytes_4)
  also have "\<dots> \<longleftrightarrow> drop_bit (32 - net_ones n) (ip4ToU32 p) = drop_bit (32 - net_ones n) (ip4ToU32 q)"
    by (rule mask4_eq_iff [OF assms(2)])
  also have "\<dots> \<longleftrightarrow> unat (ip4ToU32 p) div 2 ^ (32 - net_ones n) = unat (ip4ToU32 q) div 2 ^ (32 - net_ones n)"
    by (simp only: word_unat_eq_iff unat_drop_bit_eq) (simp add: drop_bit_eq_div)
  finally show ?thesis .
qed


text \<open>The addresses of a network, as numbers: from its base up to its broadcast address.\<close>

lemma net_arith:
  fixes u :: "32 word"
  assumes "k \<le> 32" "unat u mod 2 ^ k = 0"
  shows "unat u + 2 ^ k \<le> 2 ^ 32"
    and "unat (u + push_bit k 1 - 1) = unat u + 2 ^ k - 1"
proof -
  obtain q where q: "unat u = 2 ^ k * q" using assms(2) by (metis mult_div_mod_eq add.right_neutral)
  have e: "(2 :: nat) ^ 32 = 2 ^ k * 2 ^ (32 - k)" using assms(1) by (simp flip: power_add)
  have "unat u < 2 ^ 32" using unsigned_less [of u, where ?'a = nat] by simp
  then have "2 ^ k * q < 2 ^ k * (2 :: nat) ^ (32 - k)" using q e by simp
  then have "Suc q \<le> 2 ^ (32 - k)" by simp
  then have "2 ^ k * Suc q \<le> 2 ^ k * 2 ^ (32 - k)" by (rule mult_le_mono2)
  then show le: "unat u + 2 ^ k \<le> 2 ^ 32" using q e by (simp add: ac_simps)
  have pos: "1 \<le> unat u + (2 :: nat) ^ k" by (simp add: trans_le_add2)
  have "u + push_bit k 1 - 1 = of_nat (unat u + 2 ^ k - 1)"
    using pos by (subst of_nat_diff) (simp_all add: push_bit_eq_mult)
  moreover have "unat u + 2 ^ k - 1 < 2 ^ 32"
    using le pos by linarith
  ultimately show "unat (u + push_bit k 1 - 1) = unat u + 2 ^ k - 1"
    by (simp add: unsigned_of_nat take_bit_nat_eq_self del: of_nat_add of_nat_diff)
qed

lemma in_net:
  assumes "ParseCIDR s = Some n" "net_bits n = 32" "To4 (net_IP n) = Some p"
    and "x < 2 ^ (32 - net_ones n)"
  shows "net_Contains n (IP_of (u32ToIP4 (of_nat (unat (ip4ToU32 p) + x))))"
proof -
  let ?k = "32 - net_ones n"
  obtain p' where p': "net_ones n \<le> 32" "net_IP n = IP_of p'" "unat (ip4ToU32 p') mod 2 ^ ?k = 0"
    by (rule ParseCIDR_v4 [OF assms(1,2)])
  then have p: "p' = p" using assms(3) by simp
  have b: "unat (ip4ToU32 p) + 2 ^ ?k \<le> 2 ^ 32" using net_arith(1) p' p by auto
  then have "unat (of_nat (unat (ip4ToU32 p) + x) :: 32 word) = unat (ip4ToU32 p) + x"
    using assms(4) by (simp add: unsigned_of_nat take_bit_nat_eq_self del: of_nat_add)
  moreover have "(unat (ip4ToU32 p) + x) div 2 ^ ?k = unat (ip4ToU32 p) div 2 ^ ?k"
    using p' p assms(4) by (metis add.right_neutral div_less div_plus_div_distrib_dvd_left dvd_eq_mod_eq_0)
  ultimately show ?thesis using net_Contains_v4 assms(2) p' p by simp
qed

lemma subnetHosts_eq:
  assumes "ParseCIDR s = Some n" "net_bits n = 32" "net_ones n \<le> 30"
  obtains p where "net_IP n = IP_of p"
    "unat (ip4ToU32 p) + 2 ^ (32 - net_ones n) \<le> 2 ^ 32"
    "subnetHosts s m = Inr (u32ToIP4 (of_nat (unat (ip4ToU32 p) + 1)),
       map host_at [unat (ip4ToU32 p) + 2 ..< min (unat (ip4ToU32 p) + 2 ^ (32 - net_ones n) - 1) (unat (ip4ToU32 p) + 2 + m)])"
proof -
  let ?k = "32 - net_ones n"
  obtain p where p: "net_ones n \<le> 32" "net_IP n = IP_of p" "unat (ip4ToU32 p) mod 2 ^ ?k = 0"
    by (rule ParseCIDR_v4 [OF assms(1,2)])
  note a = net_arith [OF _ p(3)]
  have "(2 :: nat) ^ 2 \<le> 2 ^ ?k" using assms(3) by (intro power_increasing) auto
  with a have "unat (ip4ToU32 p) + 2 < 2 ^ 32" by simp
  then have two: "unat (ip4ToU32 p + 2) = unat (ip4ToU32 p) + 2" by (simp add: unat_word_ariths)
  from p a two assms show thesis
    by (intro that [of p]) (simp_all add: subnetHosts_def subnetHosts_loop_eq Let_def add.commute)
qed

lemma expandCIDRHosts_eq:
  assumes "ParseCIDR s = Some n" "net_bits n = 32"
  obtains p where "net_IP n = IP_of p"
    "unat (ip4ToU32 p) + 2 ^ (32 - net_ones n) \<le> 2 ^ 32"
    "expandCIDRHosts s =
       (if net_ones n \<ge> 31 then
          (if unat (ip4ToU32 p) + 2 ^ (32 - net_ones n) = 2 ^ 32 then None
           else Some (Inr (map host_at [unat (ip4ToU32 p) ..< unat (ip4ToU32 p) + 2 ^ (32 - net_ones n)])))
        else Some (Inr (map host_at [unat (ip4ToU32 p) + 1 ..< unat (ip4ToU32 p) + 2 ^ (32 - net_ones n) - 1])))"
proof -
  let ?k = "32 - net_ones n"
  obtain p where p: "net_ones n \<le> 32" "net_IP n = IP_of p" "unat (ip4ToU32 p) mod 2 ^ ?k = 0"
    by (rule ParseCIDR_v4 [OF assms])
  let ?u = "ip4ToU32 p" and ?N = "unat (ip4ToU32 p)"
  note a = net_arith [OF diff_le_self p(3)]
  have top: "?u + push_bit ?k 1 - 1 = -1 \<longleftrightarrow> ?N + 2 ^ ?k = 2 ^ 32"
  proof -
    have "?u + push_bit ?k 1 - 1 = -1 \<longleftrightarrow> ?N + 2 ^ ?k - 1 = 2 ^ 32 - 1"
      unfolding word_unat_eq_iff a(2) by (simp add: unsigned_minus_1_eq_mask mask_eq_exp_minus_1)
    then show ?thesis using zero_less_power [of "2::nat" ?k] by (simp; arith)
  qed
  have "expandCIDRHosts s =
      (if net_ones n \<ge> 31 then map_option Inr (expandCIDRHosts_loop (?u + push_bit ?k 1 - 1) ?u [])
       else map_option Inr (expandCIDRHosts_loop (?u + push_bit ?k 1 - 2) (?u + 1) []))"
    using assms p by (simp add: expandCIDRHosts_def Let_def)
  also have "\<dots> = (if net_ones n \<ge> 31 then
          (if ?N + 2 ^ ?k = 2 ^ 32 then None else Some (Inr (map host_at [?N ..< ?N + 2 ^ ?k])))
        else Some (Inr (map host_at [?N + 1 ..< ?N + 2 ^ ?k - 1])))"
  proof (cases "net_ones n \<ge> 31")
    case True
    have "Suc (?N + 2 ^ ?k - 1) = ?N + 2 ^ ?k" by simp
    then have fin: "expandCIDRHosts_loop (?u + push_bit ?k 1 - 1) ?u [] = Some (map host_at [?N ..< ?N + 2 ^ ?k])"
      if "?N + 2 ^ ?k \<noteq> 2 ^ 32"
      using that expandCIDRHosts_loop_returns [of "?u + push_bit ?k 1 - 1" ?u "[]"]
      unfolding a(2) top by simp
    have "expandCIDRHosts_loop (?u + push_bit ?k 1 - 1) ?u [] = None" if "?N + 2 ^ ?k = 2 ^ 32"
      using that expandCIDRHosts_loop_diverges unfolding top [symmetric] by simp
    with fin True show ?thesis by auto
  next
    case False
    have "(2 :: nat) ^ 2 \<le> 2 ^ ?k" using False by (intro power_increasing) auto
    then have big: "4 \<le> (2 :: nat) ^ ?k" by simp
    let ?hi = "?u + push_bit ?k 1 - 2"
    have "?hi = of_nat (?N + 2 ^ ?k - 2)"
      using big by (subst of_nat_diff) (simp_all add: push_bit_eq_mult)
    then have hi: "unat ?hi = ?N + 2 ^ ?k - 2"
      using a(1) big by (simp add: unsigned_of_nat take_bit_nat_eq_self del: of_nat_add of_nat_diff)
    then have "unat ?hi \<noteq> unat (-1 :: 32 word)"
      using a(1) big by (simp add: unsigned_minus_1_eq_mask mask_eq_exp_minus_1)
    then have "?hi \<noteq> -1" by metis
    moreover have "unat (?u + 1) = ?N + 1" using a(1) big by (simp add: unat_word_ariths)
    moreover have "Suc (unat ?hi) = ?N + 2 ^ ?k - 1" using hi big by simp
    ultimately show ?thesis using False expandCIDRHosts_loop_returns [of ?hi "?u + 1" "[]"] by simp
  qed
  finally show thesis using p(2) a(1) by (intro that)
qed

section \<open>The pool\<close>

lemma pool_add_inv:
  assumes "distinct out" "g \<notin> set out"
  shows "distinct (pool_add g out ip) \<and> g \<notin> set (pool_add g out ip) \<and>
    set (pool_add g out ip) = set out \<union> ({ip} - {g}) \<and> length out \<le> length (pool_add g out ip) \<and>
    length (pool_add g out ip) \<le> Suc (length out)"
  using assms by (auto simp: pool_add_def)

lemma pool_hosts_inv:
  assumes "distinct out" "g \<notin> set out" "length out < m"
  shows "distinct (pool_hosts g m out hs) \<and> g \<notin> set (pool_hosts g m out hs) \<and>
    set (pool_hosts g m out hs) \<subseteq> set out \<union> set hs \<and> length out \<le> length (pool_hosts g m out hs) \<and>
    length (pool_hosts g m out hs) \<le> m \<and>
    (length (pool_hosts g m out hs) < m \<longrightarrow> set (pool_hosts g m out hs) = set out \<union> (set hs - {g}))"
  using assms
proof (induction g m out hs rule: pool_hosts.induct)
  case (2 g m out h hs)
  note a = pool_add_inv [OF 2(2,3), of h]
  show ?case
  proof (cases "length (pool_add g out h) \<ge> m")
    case True
    with a 2(4) show ?thesis by (auto simp: Let_def)
  next
    case False
    with a 2(1) [of "pool_add g out h"] show ?thesis by (auto simp: Let_def)
  qed
qed auto

text \<open>The addresses a pool entry stands for.\<close>

definition entry_hosts :: "string \<Rightarrow> string set" where
  "entry_hosts e = (if Contains e ''/'' then (case expandCIDRHosts e of Some (Inr hs) \<Rightarrow> set hs | _ \<Rightarrow> {})
     else {e})"

lemma expandPool_loop_inv:
  assumes "distinct out" "g \<notin> set out" "length out \<le> m" "expandPool_loop g m out es = Some (Inr res)"
  shows "distinct res \<and> g \<notin> set res \<and> length out \<le> length res \<and> length res \<le> m \<and>
    set res \<subseteq> set out \<union> (\<Union>e\<in>set es. entry_hosts e) \<and>
    (length res < m \<longrightarrow> set res = set out \<union> ((\<Union>e\<in>set es. entry_hosts e) - {g}))"
  using assms
proof (induction g m out es rule: expandPool_loop.induct)
  case (2 g m out e es)
  show ?case
  proof (cases "length out \<ge> m")
    case True
    with 2 show ?thesis by auto
  next
    case False
    show ?thesis
    proof (cases "Contains e ''/''")
      case True
      with 2 False obtain hs where hs: "expandCIDRHosts e = Some (Inr hs)"
        "expandPool_loop g m (pool_hosts g m out hs) es = Some (Inr res)"
        by (auto split: option.splits sum.splits)
      note h = pool_hosts_inv [OF 2(3,4), of m hs]
      have "entry_hosts e = set hs" using hs True by (simp add: entry_hosts_def)
      with 2(1) [OF False True hs(1) refl] hs h False show ?thesis by auto
    next
      case nc: False
      with 2 False have "expandPool_loop g m (pool_add g out e) es = Some (Inr res)"
        "ParseIP e \<noteq> None" by (auto split: if_splits)
      moreover have "entry_hosts e = {e}" using nc by (simp add: entry_hosts_def)
      ultimately show ?thesis
        using 2(2) [OF False nc] pool_add_inv [OF 2(3,4), of e] False by auto
    qed
  qed
qed auto

section \<open>The contract of a strategy\<close>

lemma on_store_cases:
  assumes "on_store f w = (r, w')"
  obtains s where "f (w_store w) = (r, s)" "w' = w\<lparr>w_store := s\<rparr>"
  using assms by (auto simp: on_store_def split: prod.splits)

lemma generateMAC_store: "generateMAC w = (r, w') \<Longrightarrow> w_store w' = w_store w"
  by (auto simp: generateMAC_def rand_Read_def split: prod.splits sum.splits)

lemma time_Now_store [simp]: "w_store (snd (time_Now w)) = w_store w"
  by (simp add: time_Now_def)

text \<open>What the strategies promise about the table of allocations: an allocation binds a fresh
  address to the VM, and no operation for one VM touches the addresses of another.\<close>

locale allocator =
  fixes alloc :: "string \<Rightarrow> string \<Rightarrow> 'w \<Rightarrow> (Attachment res \<times> 'w) option"
    and rel :: "string \<Rightarrow> string \<Rightarrow> 'w \<Rightarrow> unit res \<times> 'w"
    and ips :: "'w \<Rightarrow> (string \<times> string) \<rightharpoonup> string"
    and winv :: "'w \<Rightarrow> bool"
  assumes alloc_inv: "alloc v h w = Some (r, w') \<Longrightarrow> winv w \<Longrightarrow> winv w'"
    and alloc_fresh: "alloc v h w = Some (Inr a, w') \<Longrightarrow> winv w \<Longrightarrow>
      ips w (at_NetworkID a, at_IP a) = None \<and> ips w' = (ips w)((at_NetworkID a, at_IP a) \<mapsto> v)"
    and alloc_others: "alloc v h w = Some (r, w') \<Longrightarrow> winv w \<Longrightarrow> v' \<noteq> v \<Longrightarrow>
      ips w' k = Some v' \<longleftrightarrow> ips w k = Some v'"
    and rel_inv: "rel v m w = (r', w') \<Longrightarrow> winv w \<Longrightarrow> winv w'"
    and rel_others: "rel v m w = (r', w') \<Longrightarrow> winv w \<Longrightarrow> v' \<noteq> v \<Longrightarrow>
      ips w' k = Some v' \<longleftrightarrow> ips w k = Some v'"
begin

lemma alloc_exclusive:
  assumes "winv w" "ips w k = Some v'" "v' \<noteq> v" "alloc v h w = Some (Inr a, w')"
  shows "(at_NetworkID a, at_IP a) \<noteq> k \<and> ips w' k = Some v'"
  using alloc_fresh [OF assms(4,1)] alloc_others [OF assms(4,1,3)] assms(2) by auto

end

locale strategy = allocator +
  assumes rel_frees: "rel v m w = (Inr (), w') \<Longrightarrow> winv w \<Longrightarrow> ips w' k \<noteq> Some v"
begin

lemma alloc_rel_roundtrip:
  assumes "winv w" "\<And>k. ips w k \<noteq> Some v" "alloc v h w = Some (Inr a, w1)" "rel v m w1 = (Inr (), w2)"
  shows "ips w2 = ips w"
proof
  fix k
  have w1: "winv w1" by (rule alloc_inv [OF assms(3,1)])
  have "ips w2 k = Some v' \<longleftrightarrow> ips w k = Some v'" for v'
    using rel_frees [OF assms(4) w1] rel_others [OF assms(4) w1] alloc_others [OF assms(3,1)] assms(2)
    by (cases "v' = v") auto
  then show "ips w2 k = ips w k" by (metis option.exhaust)
qed

end

context service_store
begin

lemma st_ReleaseIPByVM_others:
  assumes "st_ReleaseIPByVM S v w = (r, w')" "sinv (w_store w)" "v' \<noteq> v"
  shows "sv_ips (view (w_store w')) k = Some v' \<longleftrightarrow> sv_ips (view (w_store w)) k = Some v'"
  using st_ReleaseIPByVM_law [OF assms(1,2)] assms(3) by (cases r) auto

lemma nat_Allocate_law:
  assumes "nat_Allocate S n v h w = (r, w')" "sinv (w_store w)"
  shows "sinv (w_store w') \<and>
    (\<forall>v' k. v' \<noteq> v \<longrightarrow> (sv_ips (view (w_store w')) k = Some v' \<longleftrightarrow> sv_ips (view (w_store w)) k = Some v')) \<and>
    (case r of Inl e \<Rightarrow> True
     | Inr a \<Rightarrow> at_NetworkID a = nw_ID n \<and> sv_ips (view (w_store w)) (nw_ID n, at_IP a) = None \<and>
         (\<exists>gw hosts. subnetHosts (nw_Subnet n) maxCandidates = Inr (gw, hosts) \<and> at_IP a \<in> set hosts) \<and>
         view (w_store w') = (view (w_store w))\<lparr>sv_ips := (sv_ips (view (w_store w)))((nw_ID n, at_IP a) \<mapsto> v)\<rparr>)"
proof -
  obtain rm w1 where m: "generateMAC w = (rm, w1)" by (cases "generateMAC w")
  have s1: "w_store w1 = w_store w" by (rule generateMAC_store [OF m])
  show ?thesis
  proof (cases "\<exists>mac gw hosts ip w2. rm = Inr mac \<and> nw_Subnet n \<noteq> [] \<and>
      subnetHosts (nw_Subnet n) maxCandidates = Inr (gw, hosts) \<and>
      st_AllocateIP S (nw_ID n) v mac hosts w1 = (Inr ip, w2)")
    case False
    have other: "sinv (w_store w2)" "view (w_store w2) = view (w_store w)"
      if "st_AllocateIP S (nw_ID n) v mac hosts w1 = (Inl e, w2)" for mac hosts e w2
      using st_AllocateIP_law [OF that] s1 assms(2) by auto
    from False assms m s1 other show ?thesis
      by (cases rm) (auto simp: nat_Allocate_def split: if_splits sum.splits prod.splits)
  next
    case True
    then obtain mac gw hosts ip w2 where t: "rm = Inr mac" "nw_Subnet n \<noteq> []"
      "subnetHosts (nw_Subnet n) maxCandidates = Inr (gw, hosts)"
      "st_AllocateIP S (nw_ID n) v mac hosts w1 = (Inr ip, w2)" by blast
    note a = st_AllocateIP_law [OF t(4)]
    obtain rd w3 where d: "on_conn (co_AddDHCPHost (sv_conn S) (nw_LibvirtNetwork n) mac (sanitizeHostname h v) ip) w2 = (rd, w3)"
      by (metis surj_pair)
    have s3: "w_store w3 = w_store w2" by (rule on_conn_store [OF d])
    obtain rr w4 where r: "st_ReleaseIPByVM S v w3 = (rr, w4)" by (metis surj_pair)
    have other2: "sv_ips (view (w_store w2)) k = Some v' \<longleftrightarrow> sv_ips (view (w_store w)) k = Some v'"
      if "v' \<noteq> v" for k v' using a s1 assms(2) that by auto
    have i2: "sinv (w_store w3)" using a s1 s3 assms(2) by simp
    show ?thesis
    proof (cases rd)
      case (Inl e)
      then have "r = Inl (wrap_err ''add dhcp lease'' e)" "w' = w4"
        using assms(1) m t d r by (auto simp: nat_Allocate_def)
      then show ?thesis
        using st_ReleaseIPByVM_law [OF r i2] st_ReleaseIPByVM_others [OF r i2] other2 s3 by auto
    next
      case (Inr u)
      with assms(1) m t d have w': "w' = w3" and "\<exists>a. r = Inr a \<and> at_NetworkID a = nw_ID n \<and> at_IP a = ip"
        by (auto simp: nat_Allocate_def)
      then obtain a' where "r = Inr a'" "at_NetworkID a' = nw_ID n" "at_IP a' = ip" by blast
      then show ?thesis using a s1 s3 assms(2) other2 w' t(3) by (cases gw) auto
    qed
  qed
qed

lemma bridge_Allocate_law:
  assumes "bridge_Allocate S n v h w = Some (r, w')" "sinv (w_store w)"
  shows "sinv (w_store w') \<and>
    (case r of Inl e \<Rightarrow> view (w_store w') = view (w_store w)
     | Inr a \<Rightarrow> at_NetworkID a = nw_ID n \<and> sv_ips (view (w_store w)) (nw_ID n, at_IP a) = None \<and>
         (\<exists>cs. expandPool (nw_IPPool n) (nw_Gateway n) maxCandidates = Some (Inr cs) \<and> at_IP a \<in> set cs) \<and>
         view (w_store w') = (view (w_store w))\<lparr>sv_ips := (sv_ips (view (w_store w)))((nw_ID n, at_IP a) \<mapsto> v)\<rparr>)"
proof -
  obtain rm w1 where m: "generateMAC w = (rm, w1)" by (cases "generateMAC w")
  have s1: "w_store w1 = w_store w" by (rule generateMAC_store [OF m])
  note law = st_AllocateIP_law [where w = w1, unfolded s1, OF _ assms(2)]
  from assms m s1 show ?thesis
    by (auto simp: bridge_Allocate_def split: sum.splits option.splits if_splits prod.splits dest!: law)
qed

lemma nat_Release_law:
  assumes "nat_Release S n v m w = (r, w')" "sinv (w_store w)"
  shows "\<exists>r1 w1. w_store w1 = w_store w \<and> st_ReleaseIPByVM S v w1 = (r1, w') \<and> (r = Inr () \<longrightarrow> r1 = Inr ())"
proof -
  obtain fe w1 where f: "(if m \<noteq> [] then
       (case on_conn (co_RemoveDHCPHost (sv_conn S) (nw_LibvirtNetwork n) m) w of
          (Inl e, w1) \<Rightarrow> (Some e, w1) | (Inr _, w1) \<Rightarrow> (None, w1))
     else (None, w)) = (fe, w1)" by (rule prod.exhaust)
  then have "w_store w1 = w_store w"
    by (auto split: if_splits prod.splits sum.splits dest: on_conn_store)
  with assms f show ?thesis
    by (auto simp: nat_Release_def Let_def split: prod.splits sum.splits option.splits)
qed

end

sublocale service_store \<subseteq> nat: strategy
  "\<lambda>v h w. Some (nat_Allocate S n v h w)" "nat_Release S n" "\<lambda>w. sv_ips (view (w_store w))" "\<lambda>w. sinv (w_store w)"
  for n
proof (unfold_locales, goal_cases)
  case (1 v h w r w')
  then show ?case using nat_Allocate_law by blast
next
  case (2 v h w a w')
  then show ?case using nat_Allocate_law [of n v h w "Inr a" w'] by auto
next
  case (3 v h w r w' v' k)
  then show ?case using nat_Allocate_law [of n v h w r w'] by blast
next
  case (4 v m w r' w')
  then obtain r1 w1 where "w_store w1 = w_store w" "st_ReleaseIPByVM S v w1 = (r1, w')"
    using nat_Release_law by blast
  then show ?case using 4 st_ReleaseIPByVM_law [of v w1 r1 w'] by simp
next
  case (5 v m w r' w' v' k)
  then obtain r1 w1 where "w_store w1 = w_store w" "st_ReleaseIPByVM S v w1 = (r1, w')"
    using nat_Release_law by blast
  then show ?case using 5 st_ReleaseIPByVM_others [of v w1 r1 w'] by simp
next
  case (6 v m w w' k)
  then obtain w1 where "w_store w1 = w_store w" "st_ReleaseIPByVM S v w1 = (Inr (), w')"
    using nat_Release_law by blast
  then show ?case using 6 st_ReleaseIPByVM_law [of v w1 "Inr ()" w'] by auto
qed

sublocale service_store \<subseteq> bridge: strategy
  "bridge_Allocate S n" "bridge_Release S n" "\<lambda>w. sv_ips (view (w_store w))" "\<lambda>w. sinv (w_store w)"
  for n
proof (unfold_locales, goal_cases)
  case (1 v h w r w')
  then show ?case using bridge_Allocate_law by blast
next
  case (2 v h w a w')
  then show ?case using bridge_Allocate_law [of n v h w "Inr a" w'] by auto
next
  case (3 v h w r w' v' k)
  then show ?case using bridge_Allocate_law [of n v h w r w'] by (cases r) auto
next
  case (4 v m w r' w')
  then show ?case using st_ReleaseIPByVM_law by (metis bridge_Release_def)
next
  case (5 v m w r' w' v' k)
  then show ?case using st_ReleaseIPByVM_others by (metis bridge_Release_def)
next
  case (6 v m w w' k)
  then show ?case using st_ReleaseIPByVM_law [of v w "Inr ()" w'] by (auto simp: bridge_Release_def)
qed

lemma manager_Allocate_cases:
  assumes "manager_Allocate S net v h w = Some (r, w')"
  obtains e where "r = Inl e" "w' = w" | n where "Some (nat_Allocate S n v h w) = Some (r, w')"
    | n where "bridge_Allocate S n v h w = Some (r, w')"
  using assms by (cases "sv_network S net"; cases "the (sv_network S net)") (auto simp: manager_Allocate_def)

lemma manager_Release_cases:
  assumes "manager_Release S net v m w = (r, w')"
  obtains "r = Inr ()" "w' = w" | n where "nat_Release S n v m w = (r, w')"
    | n where "bridge_Release S n v m w = (r, w')"
  using assms by (cases "sv_network S net"; cases "the (sv_network S net)") (auto simp: manager_Release_def)

sublocale service_store \<subseteq> manager: allocator
  "manager_Allocate S net" "manager_Release S net" "\<lambda>w. sv_ips (view (w_store w))" "\<lambda>w. sinv (w_store w)"
  for net
proof (unfold_locales, goal_cases)
  case (1 v h w r w')
  note outer = this
  from outer(1) show ?case
  proof (cases rule: manager_Allocate_cases)
    case 1
    with outer show ?thesis by simp
  next
    case (2 n)
    show ?thesis by (rule nat.alloc_inv [OF 2 outer(2)])
  next
    case (3 n)
    show ?thesis by (rule bridge.alloc_inv [OF 3 outer(2)])
  qed
next
  case (2 v h w a w')
  note outer = this
  from outer(1) show ?case
  proof (cases rule: manager_Allocate_cases)
    case 1
    with outer show ?thesis by simp
  next
    case (2 n)
    show ?thesis by (rule nat.alloc_fresh [OF 2 outer(2)])
  next
    case (3 n)
    show ?thesis by (rule bridge.alloc_fresh [OF 3 outer(2)])
  qed
next
  case (3 v h w r w' v' k)
  note outer = this
  from outer(1) show ?case
  proof (cases rule: manager_Allocate_cases)
    case 1
    with outer show ?thesis by simp
  next
    case (2 n)
    show ?thesis by (rule nat.alloc_others [OF 2 outer(2,3)])
  next
    case (3 n)
    show ?thesis by (rule bridge.alloc_others [OF 3 outer(2,3)])
  qed
next
  case (4 v m w r' w')
  note outer = this
  from outer(1) show ?case
  proof (cases rule: manager_Release_cases)
    case 1
    with outer show ?thesis by simp
  next
    case (2 n)
    show ?thesis by (rule nat.rel_inv [OF 2 outer(2)])
  next
    case (3 n)
    show ?thesis by (rule bridge.rel_inv [OF 3 outer(2)])
  qed
next
  case (5 v m w r' w' v' k)
  note outer = this
  from outer(1) show ?case
  proof (cases rule: manager_Release_cases)
    case 1
    with outer show ?thesis by simp
  next
    case (2 n)
    show ?thesis by (rule nat.rel_others [OF 2 outer(2,3)])
  next
    case (3 n)
    show ?thesis by (rule bridge.rel_others [OF 3 outer(2,3)])
  qed
qed

context service_calm
begin

text \<open>An allocation that fails on a store that answers gives back what it had reserved.\<close>

lemma nat_Allocate_fails:
  assumes "sinv (w_store w)" "calm (w_store w)" "\<forall>k. sv_ips (view (w_store w)) k \<noteq> Some v"
    and a: "nat_Allocate S n v h w = (Inl e, w')"
  shows "view (w_store w') = view (w_store w)"
proof -
  obtain rm w1 where m: "generateMAC w = (rm, w1)" by (cases "generateMAC w")
  have s1: "w_store w1 = w_store w" by (rule generateMAC_store [OF m])
  show ?thesis
  proof (cases "\<exists>mac gw hosts ip w2. rm = Inr mac \<and> nw_Subnet n \<noteq> [] \<and>
      subnetHosts (nw_Subnet n) maxCandidates = Inr (gw, hosts) \<and>
      st_AllocateIP S (nw_ID n) v mac hosts w1 = (Inr ip, w2)")
    case False
    have "view (w_store w2) = view (w_store w)"
      if "st_AllocateIP S (nw_ID n) v mac hosts w1 = (Inl e, w2)" for mac hosts e w2
      using st_AllocateIP_law [OF that] s1 assms(1) by auto
    with False a m s1 show ?thesis
      by (cases rm) (auto simp: nat_Allocate_def split: if_splits sum.splits prod.splits)
  next
    case True
    then obtain mac gw hosts ip w2 where t: "rm = Inr mac" "nw_Subnet n \<noteq> []"
      "subnetHosts (nw_Subnet n) maxCandidates = Inr (gw, hosts)"
      "st_AllocateIP S (nw_ID n) v mac hosts w1 = (Inr ip, w2)" by blast
    have calm2: "calm (w_store w2)"
      using t(4) assms(2) s1 calm_AllocateIP
      by (auto simp: st_AllocateIP_def time_Now_def on_store_def split: prod.splits)
    obtain rd w3 where d: "on_conn (co_AddDHCPHost (sv_conn S) (nw_LibvirtNetwork n) mac (sanitizeHostname h v) ip) w2 = (rd, w3)"
      by (metis surj_pair)
    have s3: "w_store w3 = w_store w2" by (rule on_conn_store [OF d])
    obtain w4 where r: "st_ReleaseIPByVM S v w3 = (Inr (), w4)"
      using st_ReleaseIPByVM_calm [of w3 v] calm2 s3 by auto
    have w4: "w' = w4" using a m t d r by (cases rd) (auto simp: nat_Allocate_def)
    have v3: "view (w_store w3) = (view (w_store w))\<lparr>sv_ips := (sv_ips (view (w_store w)))((nw_ID n, ip) \<mapsto> v)\<rparr>"
      and free: "sv_ips (view (w_store w)) (nw_ID n, ip) = None" and i3: "sinv (w_store w3)"
      using st_AllocateIP_law [OF t(4)] s1 s3 assms(1) by auto
    have "(\<lambda>k. if sv_ips (view (w_store w3)) k = Some v then None else sv_ips (view (w_store w3)) k) = sv_ips (view (w_store w))"
      using assms(3) free by (auto simp: v3 fun_eq_iff)
    moreover have "view (w_store w4) = (view (w_store w3))\<lparr>sv_ips :=
        (\<lambda>k. if sv_ips (view (w_store w3)) k = Some v then None else sv_ips (view (w_store w3)) k)\<rparr>"
      using st_ReleaseIPByVM_law [OF r i3] by simp
    ultimately show ?thesis by (simp only: w4) (simp add: v3)
  qed
qed

lemma manager_Allocate_fails:
  assumes "sinv (w_store w)" "calm (w_store w)" "\<forall>k. sv_ips (view (w_store w)) k \<noteq> Some v"
    and "manager_Allocate S net v h w = Some (Inl e, w')"
  shows "view (w_store w') = view (w_store w)"
  using assms(4)
proof (cases rule: manager_Allocate_cases)
  case (2 n)
  then show ?thesis using nat_Allocate_fails [OF assms(1-3)] by simp
next
  case (3 n)
  then show ?thesis using bridge_Allocate_law [OF 3 assms(1)] by simp
qed simp

end

section \<open>Properties\<close>

text \<open>The last address of a network.\<close>

definition net_broadcast :: "IPNet \<Rightarrow> IP" where
  "net_broadcast n = (case To4 (net_IP n) of None \<Rightarrow> net_IP n
     | Some p \<Rightarrow> IP_of (u32ToIP4 (of_nat (unat (ip4ToU32 p) + 2 ^ (32 - net_ones n) - 1))))"

lemma IP_of_inj: "IP_of p = IP_of q \<longleftrightarrow> p = q"
  by (metis To4_IP_of option.inject)

lemma IP_of_nat_inj:
  "j < 2 ^ 32 \<Longrightarrow> k < 2 ^ 32 \<Longrightarrow> IP_of (u32ToIP4 (of_nat j)) = IP_of (u32ToIP4 (of_nat k)) \<longleftrightarrow> j = k"
  using host_at_inj [of j k] by (auto simp: IP_of_inj host_at_def)

text \<open>The addresses offered to the NAT allocator are distinct addresses of the configured
  subnet, never its network, gateway or broadcast address, and as many as the limit and the
  subnet allow; the gateway is in the subnet too.\<close>

lemma subnetHosts_sound:
  assumes "ParseCIDR cidr = Some n" "net_bits n = 32" "net_ones n \<le> 30"
  shows "\<exists>gw hosts. subnetHosts cidr m = Inr (gw, hosts) \<and> net_Contains n (IP_of gw) \<and>
    distinct hosts \<and> length hosts = min m (2 ^ (32 - net_ones n) - 3) \<and>
    (\<forall>h\<in>set hosts. \<exists>ip. ParseIP h = Some ip \<and> net_Contains n ip \<and>
       ip \<noteq> net_IP n \<and> ip \<noteq> IP_of gw \<and> ip \<noteq> net_broadcast n)"
proof -
  let ?K = "(2 :: nat) ^ (32 - net_ones n)"
  obtain p where p: "net_IP n = IP_of p" "unat (ip4ToU32 p) + ?K \<le> 2 ^ 32"
    "subnetHosts cidr m = Inr (u32ToIP4 (of_nat (unat (ip4ToU32 p) + 1)),
       map host_at [unat (ip4ToU32 p) + 2 ..< min (unat (ip4ToU32 p) + ?K - 1) (unat (ip4ToU32 p) + 2 + m)])"
    by (rule subnetHosts_eq [OF assms])
  let ?N = "unat (ip4ToU32 p)"
  let ?hosts = "map host_at [?N + 2 ..< min (?N + ?K - 1) (?N + 2 + m)]"
  have "(2 :: nat) ^ 2 \<le> ?K" using assms(3) by (intro power_increasing) auto
  then have K: "4 \<le> ?K" by simp
  have net: "net_Contains n (IP_of (u32ToIP4 (of_nat (?N + x))))" if "x < ?K" for x
    using in_net [OF assms(1,2)] p(1) that by simp
  have base: "net_IP n = IP_of (u32ToIP4 (of_nat ?N))" using p(1) by simp
  have bc: "net_broadcast n = IP_of (u32ToIP4 (of_nat (?N + ?K - 1)))"
    using p(1) by (simp add: net_broadcast_def)
  have "distinct ?hosts"
    using p(2) by (auto simp: distinct_map inj_on_def host_at_inj)
  moreover have "length ?hosts = min m (?K - 3)" using K by simp
  moreover have "\<exists>ip. ParseIP h = Some ip \<and> net_Contains n ip \<and> ip \<noteq> net_IP n \<and>
      ip \<noteq> IP_of (u32ToIP4 (of_nat (?N + 1))) \<and> ip \<noteq> net_broadcast n" if "h \<in> set ?hosts" for h
  proof -
    from that obtain k where k: "h = host_at k" "?N + 2 \<le> k" "k < ?N + ?K - 1" by auto
    then have "net_Contains n (IP_of (u32ToIP4 (of_nat k)))" using net [of "k - ?N"] by simp
    moreover have lt: "k < 2 ^ 32" "?N < 2 ^ 32" "?N + 1 < 2 ^ 32" "?N + ?K - 1 < 2 ^ 32"
      using k p(2) by linarith+
    have ne: "IP_of (u32ToIP4 (of_nat k)) \<noteq> IP_of (u32ToIP4 (of_nat j))" if "j < 2 ^ 32" "j \<noteq> k" for j
      using IP_of_nat_inj [OF lt(1) that(1)] that(2) by simp
    have "?N \<noteq> k" "?N + 1 \<noteq> k" "?N + ?K - 1 \<noteq> k" using k by auto
    note ne [OF lt(2) this(1)] ne [OF lt(3) this(2)] ne [OF lt(4) this(3)]
    ultimately show ?thesis unfolding base bc k(1) ParseIP_host_at by blast
  qed
  moreover have "net_Contains n (IP_of (u32ToIP4 (of_nat (?N + 1))))" by (rule net) (use K in linarith)
  ultimately show ?thesis using p(3) by blast
qed

text \<open>(C30) Expanding a dotted pool entry returns exactly the assignable addresses: all of them for
  /31 and /32, all but the network and the broadcast address otherwise. It does not return
  when the entry is a /31 or /32 that ends at 255.255.255.255.\<close>

theorem expandCIDRHosts_exact:
  assumes "ParseCIDR cidr = Some n" "net_bits n = 32" "To4 (net_IP n) = Some p"
  shows "expandCIDRHosts cidr =
    (if 31 \<le> net_ones n \<and> unat (ip4ToU32 p) + 2 ^ (32 - net_ones n) = 2 ^ 32 then None
     else Some (Inr (map (\<lambda>k. ip4_String (u32ToIP4 (of_nat k)))
       (if 31 \<le> net_ones n then [unat (ip4ToU32 p) ..< unat (ip4ToU32 p) + 2 ^ (32 - net_ones n)]
        else [unat (ip4ToU32 p) + 1 ..< unat (ip4ToU32 p) + 2 ^ (32 - net_ones n) - 1]))))"
proof -
  obtain p' where "net_IP n = IP_of p'" and e: "expandCIDRHosts cidr =
       (if net_ones n \<ge> 31 then
          (if unat (ip4ToU32 p') + 2 ^ (32 - net_ones n) = 2 ^ 32 then None
           else Some (Inr (map host_at [unat (ip4ToU32 p') ..< unat (ip4ToU32 p') + 2 ^ (32 - net_ones n)])))
        else Some (Inr (map host_at [unat (ip4ToU32 p') + 1 ..< unat (ip4ToU32 p') + 2 ^ (32 - net_ones n) - 1])))"
    by (rule expandCIDRHosts_eq [OF assms(1,2)])
  then have "p' = p" using assms(3) by simp
  moreover have "host_at = (\<lambda>k. ip4_String (u32ToIP4 (of_nat k)))" by (simp add: host_at_def fun_eq_iff)
  ultimately show ?thesis using e by simp
qed

lemma ParseCIDR_top:
  "ParseCIDR ''255.255.255.254/31'' =
     Some \<lparr>net_IP = IPv4 255 255 255 254, net_ones = 31, net_bits = 32\<rparr>"
proof -
  have i: "IndexOf ''255.255.255.254/31'' ''/'' = Some 15" by (simp add: parse_eval)
  have a: "ParseAddr ''255.255.255.254'' = Some (Addr4 (IPv4 255 255 255 254))" by (simp add: parse_eval)
  have d: "dtoi ''31'' = Some 31" by (simp add: parse_eval)
  have m: "mask_ip 32 31 (IPv4 255 255 255 254) = IPv4 255 255 255 254" by code_simp
  show ?thesis by (simp add: ParseCIDR_def i a d m)
qed

theorem expandCIDRHosts_exact_witness:
  "expandCIDRHosts ''255.255.255.254/31'' = None \<and>
   (\<exists>hs. expandCIDRHosts ''192.168.122.0/24'' = Some (Inr hs) \<and> length hs = 254)"
proof -
  have "ip4ToU32 (255, 255, 255, 254) = 4294967294" by code_simp
  then show ?thesis
    using expandCIDRHosts_exact [OF ParseCIDR_top, of "(255, 255, 255, 254)"]
      expandCIDRHosts_exact [OF ParseCIDR_192_168_122, of "(192, 168, 122, 0)"]
    by simp
qed

text \<open>(C29) The candidate list of a bridge network has no duplicates, leaves the gateway out, is
  bounded, and holds only addresses its pool entries stand for; if it is shorter than the
  bound it holds all of them.\<close>

theorem expandPool_sound:
  assumes "expandPool entries gateway m = Some (Inr candidates)"
  shows "distinct candidates \<and> gateway \<notin> set candidates \<and> length candidates \<le> m \<and>
    set candidates \<subseteq> (\<Union>e\<in>set entries. entry_hosts e) \<and>
    (length candidates < m \<longrightarrow> set candidates = (\<Union>e\<in>set entries. entry_hosts e) - {gateway})"
  using expandPool_loop_inv [OF _ _ _ assms [unfolded expandPool_def]] by simp

definition bridge_pool :: "string list" where
  "bridge_pool = [''203.0.113.10'', ''203.0.113.1'', ''203.0.113.11'', ''203.0.113.10'']"

lemma bridge_pool_eval:
  "expandPool bridge_pool ''203.0.113.1'' 4096 = Some (Inr [''203.0.113.10'', ''203.0.113.11''])"
  by (simp add: expandPool_def bridge_pool_def pool_add_def parse_eval)

theorem expandPool_sound_witness:
  "set [''203.0.113.10'', ''203.0.113.11''] = (\<Union>e\<in>set bridge_pool. entry_hosts e) - {''203.0.113.1''}"
  using expandPool_sound [OF bridge_pool_eval] by simp


text \<open>What the manager may do for VMs other than \<open>v\<close>: any sequence of allocations and releases,
  on any network, successful or not.\<close>

inductive others_run :: "('s, 'c, 'f) Service \<Rightarrow> string \<Rightarrow> ('s, 'c, 'f) world \<Rightarrow> ('s, 'c, 'f) world \<Rightarrow> bool"
  for S v where
  none: "others_run S v w w"
| alloc: "others_run S v w w1 \<Longrightarrow> v' \<noteq> v \<Longrightarrow> manager_Allocate S net v' h w1 = Some (r, w2) \<Longrightarrow> others_run S v w w2"
| release: "others_run S v w w1 \<Longrightarrow> v' \<noteq> v \<Longrightarrow> manager_Release S net v' m w1 = (r', w2) \<Longrightarrow> others_run S v w w2"

abbreviation agent_ips :: "(SQLiteStore, 'c, 'f) world \<Rightarrow> (string \<times> string) \<rightharpoonup> string" where
  "agent_ips w \<equiv> sv_ips (sqlite_view (w_store w))"

lemma others_run_keep:
  assumes "others_run S v w w'" "sv_store S = sqlite_ops" "sqlite_inv (w_store w)"
  shows "sqlite_inv (w_store w') \<and> (agent_ips w k = Some v \<longrightarrow> agent_ips w' k = Some v)"
  using assms
proof (induction rule: others_run.induct)
  case (alloc w w1 v' net h r w2)
  note S = with_sqlite [OF alloc.prems(1)]
  show ?case
    using alloc agent.manager.alloc_inv [where S = S and net = net, unfolded S, OF alloc.hyps(3)]
      agent.manager.alloc_others [where S = S and net = net, unfolded S, OF alloc.hyps(3), of v k] by auto
next
  case (release w w1 v' net m r' w2)
  note S = with_sqlite [OF release.prems(1)]
  show ?case
    using release agent.manager.rel_inv [where S = S and net = net, unfolded S, OF release.hyps(3)]
      agent.manager.rel_others [where S = S and net = net, unfolded S, OF release.hyps(3), of v k] by auto
qed simp

text \<open>(C7) An address given to a VM stays its own: whatever the manager then does for other VMs, on
  any network, no other VM is given that address while its holder does not release it.\<close>

theorem address_exclusive:
  assumes "sv_store S = sqlite_ops" "sqlite_inv (w_store w)"
    and "manager_Allocate S net v h w = Some (Inr a, w1)"
    and "others_run S v w1 w2" "v' \<noteq> v"
    and "manager_Allocate S net' v' h' w2 = Some (Inr a', w3)"
  shows "(at_NetworkID a', at_IP a') \<noteq> (at_NetworkID a, at_IP a) \<and>
    agent_ips w3 (at_NetworkID a, at_IP a) = Some v \<and> agent_ips w3 (at_NetworkID a', at_IP a') = Some v'"
proof -
  note S = with_sqlite [OF assms(1)]
  have "agent_ips w1 (at_NetworkID a, at_IP a) = Some v" "sqlite_inv (w_store w1)"
    using agent.manager.alloc_fresh [where S = S and net = net, unfolded S, OF assms(3,2)]
      agent.manager.alloc_inv [where S = S and net = net, unfolded S, OF assms(3,2)] by auto
  with others_run_keep [OF assms(4,1)]
  have held: "agent_ips w2 (at_NetworkID a, at_IP a) = Some v" "sqlite_inv (w_store w2)" by auto
  show ?thesis
    using agent.manager.alloc_exclusive [where S = S, unfolded S, OF held(2,1) _ assms(6)]
      agent.manager.alloc_fresh [where S = S, unfolded S, OF assms(6) held(2)] assms(5) by auto
qed

text \<open>When the database answers, a failed allocation leaves no reservation behind: the table of
  allocations is as it was, also when the DHCP lease could not be added.\<close>

lemma failed_allocation_leaks_nothing:
  assumes "sv_store S = sqlite_ops" "sqlite_inv (w_store w)" "sqlite_calm (w_store w)"
    and "\<forall>k. agent_ips w k \<noteq> Some v"
    and "manager_Allocate S net v h w = Some (Inl e, w')"
  shows "agent_ips w' = agent_ips w"
  using agent.manager_Allocate_fails [where S = S, unfolded with_sqlite [OF assms(1)], OF assms(2-5)] by simp

lemma demo_pool: "expandPool [''203.0.113.10'', ''203.0.113.11''] ''203.0.113.1'' 4096 = Some (Inr [''203.0.113.10'', ''203.0.113.11''])"
  by (simp add: expandPool_def pool_add_def parse_eval)

lemma taken_ips_snoc:
  "ipa_NetworkID a = n \<Longrightarrow> taken_ips n (s\<lparr>db_ips := db_ips s @ [a]\<rparr>) = insert (ipa_IP a) (taken_ips n s)"
  by (auto simp: taken_ips_def)

lemma demo_alloc:
  assumes "sqlite_calm (w_store w)" "w_rand w 0 = Inr bs"
    "find (\<lambda>ip. ip \<notin> taken_ips ''pub'' (w_store w)) [''203.0.113.10'', ''203.0.113.11''] = Some ip"
  shows "\<exists>a w'. manager_Allocate demo_service ''pub'' v h w = Some (Inr a, w') \<and> at_NetworkID a = ''pub'' \<and> at_IP a = ip \<and>
     sqlite_calm (w_store w') \<and> w_rand w' = (\<lambda>n. w_rand w (Suc n)) \<and>
     taken_ips ''pub'' (w_store w') = insert ip (taken_ips ''pub'' (w_store w))"
  using assms demo_pool
  by (auto simp: manager_Allocate_def demo_service_def bridge_Allocate_def demo_bridge_def generateMAC_def rand_Read_def
    maxCandidates_def st_AllocateIP_def time_Now_def on_store_def AllocateIP_def sqlite_calm_def
    driver_def taken_ips_snoc split: prod.splits)

theorem address_exclusive_witness:
  "\<exists>a w1 a' w2. manager_Allocate demo_service ''pub'' ''vm-1'' ''one'' demo_world = Some (Inr a, w1) \<and>
     manager_Allocate demo_service ''pub'' ''vm-2'' ''two'' w1 = Some (Inr a', w2) \<and>
     at_IP a = ''203.0.113.10'' \<and> at_IP a' = ''203.0.113.11'' \<and>
     agent_ips w2 (''pub'', ''203.0.113.10'') = Some ''vm-1''"
proof -
  have t0: "taken_ips ''pub'' (w_store demo_world) = {}"
    by (simp add: demo_world_def empty_store_def taken_ips_def)
  have r: "w_rand demo_world n = Inr (\<lambda>i. of_nat (n + i))" for n by (simp add: demo_world_def)
  obtain a w1 where 1: "manager_Allocate demo_service ''pub'' ''vm-1'' ''one'' demo_world = Some (Inr a, w1)"
    "at_NetworkID a = ''pub''" "at_IP a = ''203.0.113.10''" "sqlite_calm (w_store w1)"
    "w_rand w1 = (\<lambda>n. w_rand demo_world (Suc n))" "taken_ips ''pub'' (w_store w1) = {''203.0.113.10''}"
    using demo_alloc [of demo_world "\<lambda>i. of_nat i" "''203.0.113.10''" "''vm-1''" "''one''"] r [of 0] t0 by auto
  obtain a' w2 where 2: "manager_Allocate demo_service ''pub'' ''vm-2'' ''two'' w1 = Some (Inr a', w2)"
    "at_NetworkID a' = ''pub''" "at_IP a' = ''203.0.113.11''"
    using demo_alloc [of w1 "\<lambda>i. of_nat (Suc i)" "''203.0.113.11''" "''vm-2''" "''two''"] 1 r [of 1] by auto
  show ?thesis
    using address_exclusive [OF demo_store(1) demo_world_ok(1) 1(1) others_run.none _ 2(1)] 1 2 by auto
qed

end
