(* ===== verification/JobQueue.thy ===== *)
theory JobQueue
  imports Network "HOL-Library.Multiset"
begin

text \<open>
  The job queue (\<open>internal/job\<close>): persisting a job, handing its id to a worker, running it,
  retrying, and settling interrupted jobs at start-up.

  The channel and the goroutines that send into it are the list \<open>w_sched\<close>, the goroutines that
  wait for a retry's delay the list \<open>w_timers\<close>. The runner is a parameter: it acts on the whole
  world and \<open>None\<close> is a runner that does not return. \<open>process\<close> is the code's function; it is
  the composition of claiming a job, running it and settling it, because workers, API requests
  and timers interleave at those points. \<open>qstep\<close> is that interleaving.
\<close>

section \<open>Operations\<close>

definition maxJobAttempts :: int where
  "maxJobAttempts = 3"

definition jobTimeout :: duration where
  "jobTimeout = 15 * minute"

type_synonym ('s, 'c, 'f) Runner = "Job \<Rightarrow> ('s, 'c, 'f) world \<Rightarrow> (unit res \<times> ('s, 'c, 'f) world) option"

record ('s, 'c, 'f) Queue =
  q_runner :: "('s, 'c, 'f) Runner option"
  q_workers :: int
  q_maxAttempts :: int
  q_backoffBase :: duration

definition NewQueue :: "int \<Rightarrow> ('s, 'c, 'f) Queue" where
  "NewQueue workers = \<lparr>q_runner = None, q_workers = (if workers \<le> 0 then 4 else workers),
     q_maxAttempts = maxJobAttempts, q_backoffBase = second\<rparr>"

definition SetRunner :: "('s, 'c, 'f) Runner \<Rightarrow> ('s, 'c, 'f) Queue \<Rightarrow> ('s, 'c, 'f) Queue" where
  "SetRunner r q = q\<lparr>q_runner := Some r\<rparr>"

definition job_New :: "JobType \<Rightarrow> string \<Rightarrow> string \<Rightarrow> ('s, 'c, 'f) world \<Rightarrow> Job \<times> ('s, 'c, 'f) world" where
  "job_New typ vmID idempotencyKey w = (case uuid_NewString w of (i, w1) \<Rightarrow>
     (\<lparr>job_ID = i, job_Type = typ, job_VMID = vmID, job_State = JobQueued, job_Error = [],
       job_IdempotencyKey = idempotencyKey, job_Payload = [], job_Attempts = 0,
       job_CreatedAt = time_zero, job_StartedAt = None, job_FinishedAt = None\<rparr>, w1))"

definition schedule :: "string \<Rightarrow> ('s, 'c, 'f) world \<Rightarrow> ('s, 'c, 'f) world" where
  "schedule i w = w\<lparr>w_sched := w_sched w @ [i]\<rparr>"

definition scheduleAfter :: "string \<Rightarrow> duration \<Rightarrow> ('s, 'c, 'f) world \<Rightarrow> ('s, 'c, 'f) world" where
  "scheduleAfter i d w = w\<lparr>w_timers := w_timers w @ [(i, d)]\<rparr>"

definition Enqueue :: "('s, 'c, 'f) Service \<Rightarrow> Job \<Rightarrow> ('s, 'c, 'f) world \<Rightarrow> Job res \<times> ('s, 'c, 'f) world" where
  "Enqueue S j w = (case st_CreateJob S (j\<lparr>job_State := JobQueued\<rparr>) w of
     (Inl e, w1) \<Rightarrow> (Inl e, w1)
   | (Inr j', w1) \<Rightarrow> (Inr j', schedule (job_ID j') w1))"

text \<open>A shift of an \<open>int64\<close>: the bits above the 63rd are lost.\<close>

definition backoff :: "('s, 'c, 'f) Queue \<Rightarrow> int \<Rightarrow> duration" where
  "backoff q attempt =
     (let d = sint (push_bit (nat attempt) (word_of_int (q_backoffBase q)) :: 64 word)
      in if d > 30 * second then 30 * second else d)"

definition queue_run :: "('s, 'c, 'f) Queue \<Rightarrow> Job \<Rightarrow> ('s, 'c, 'f) world \<Rightarrow> (unit res \<times> ('s, 'c, 'f) world) option" where
  "queue_run q j w = (case q_runner q of None \<Rightarrow> Some (Inl (sentinel_err errNoRunner), w) | Some r \<Rightarrow> r j w)"

text \<open>\<open>process\<close> up to the run: the job a worker goes on with, or none.\<close>

definition claim :: "('s, 'c, 'f) Service \<Rightarrow> string \<Rightarrow> ('s, 'c, 'f) world \<Rightarrow> Job option \<times> ('s, 'c, 'f) world" where
  "claim S i w = (case st_GetJob S i w of
     (Inl e, w1) \<Rightarrow> (None, w1)
   | (Inr j, w1) \<Rightarrow>
       if job_State j = JobSucceeded \<or> job_State j = JobFailed then (None, w1)
       else case time_Now w1 of (started, w2) \<Rightarrow>
         (let j' = j\<lparr>job_State := JobRunning, job_StartedAt := Some started\<rparr>
          in case st_UpdateJob S j' w2 of
               (Inl e, w3) \<Rightarrow> (None, w3)
             | (Inr _, w3) \<Rightarrow> (Some j', w3)))"

text \<open>\<open>process\<close> after the run. \<open>stopped\<close> is whether the queue's context has been cancelled.\<close>

definition settle :: "('s, 'c, 'f) Service \<Rightarrow> ('s, 'c, 'f) Queue \<Rightarrow> bool \<Rightarrow> Job \<Rightarrow> unit res
    \<Rightarrow> ('s, 'c, 'f) world \<Rightarrow> ('s, 'c, 'f) world" where
  "settle S q stopped j runErr w = (case runErr of
     Inl e \<Rightarrow>
       if errors_Is e ContextCanceled \<or> stopped then w
       else if job_Attempts j + 1 < q_maxAttempts q then
         let j' = j\<lparr>job_Attempts := job_Attempts j + 1, job_State := JobQueued, job_StartedAt := None\<rparr>
         in (case st_UpdateJob S j' w of
               (Inl _, w1) \<Rightarrow> w1
             | (Inr _, w1) \<Rightarrow> scheduleAfter (job_ID j') (backoff q (job_Attempts j')) w1)
       else case time_Now w of (finished, w1) \<Rightarrow>
         ignore_err (st_UpdateJob S (j\<lparr>job_FinishedAt := Some finished, job_State := JobFailed,
           job_Error := err_text e\<rparr>) w1)
   | Inr _ \<Rightarrow> (case time_Now w of (finished, w1) \<Rightarrow>
       ignore_err (st_UpdateJob S (j\<lparr>job_FinishedAt := Some finished, job_State := JobSucceeded\<rparr>) w1)))"

definition process :: "('s, 'c, 'f) Service \<Rightarrow> ('s, 'c, 'f) Queue \<Rightarrow> bool \<Rightarrow> string
    \<Rightarrow> ('s, 'c, 'f) world \<Rightarrow> ('s, 'c, 'f) world option" where
  "process S q stopped i w = (case claim S i w of
     (None, w1) \<Rightarrow> Some w1
   | (Some j, w1) \<Rightarrow> (case queue_run q j w1 of
       None \<Rightarrow> None
     | Some (runErr, w2) \<Rightarrow> Some (settle S q stopped j runErr w2)))"

fun fail_interrupted :: "('s, 'c, 'f) Service \<Rightarrow> Job list \<Rightarrow> ('s, 'c, 'f) world \<Rightarrow> ('s, 'c, 'f) world" where
  "fail_interrupted S [] w = w"
| "fail_interrupted S (j # js) w = (case time_Now w of (finished, w1) \<Rightarrow>
     fail_interrupted S js (ignore_err (st_UpdateJob S
       (j\<lparr>job_State := JobFailed, job_Error := ''interrupted by agent restart'',
          job_FinishedAt := Some finished\<rparr>) w1)))"

definition queue_recover :: "('s, 'c, 'f) Service \<Rightarrow> ('s, 'c, 'f) world \<Rightarrow> ('s, 'c, 'f) world" where
  "queue_recover S w =
     (let (r, w1) = st_ListJobsByState S JobRunning w;
          w2 = fail_interrupted S (case r of Inl _ \<Rightarrow> [] | Inr js \<Rightarrow> js) w1;
          (r', w3) = st_ListJobsByState S JobQueued w2
      in fold (\<lambda>j. schedule (job_ID j)) (case r' of Inl _ \<Rightarrow> [] | Inr js \<Rightarrow> js) w3)"

section \<open>Interleavings\<close>

text \<open>
  A state of the queue: the world and the jobs that workers are running. A step is one of: an
  API request enqueues a job; a worker takes an id from the channel and claims the job; a worker
  settles the job it ran; a timer fires; a goroutine gives up because the queue is stopping; or
  anything else in the process, the work of the runners included, which may change the world as
  it likes except for the jobs table, the channel and the timers.
\<close>

record ('s, 'c, 'f) qstate =
  qs_world :: "('s, 'c, 'f) world"
  qs_running :: "Job list"

inductive qstep :: "('s, 'c, 'f) Service \<Rightarrow> ('s \<Rightarrow> store_view) \<Rightarrow> ('s \<Rightarrow> bool) \<Rightarrow> ('s, 'c, 'f) Queue
    \<Rightarrow> ('s, 'c, 'f) qstate \<Rightarrow> ('s, 'c, 'f) qstate \<Rightarrow> bool"
  for S view sinv q where
  enqueue: "job_Attempts j = 0 \<Longrightarrow> Enqueue S j (qs_world st) = (r, w') \<Longrightarrow>
    qstep S view sinv q st (st\<lparr>qs_world := w'\<rparr>)"
| claims: "w_sched (qs_world st) = xs @ i # ys \<Longrightarrow>
    claim S i ((qs_world st)\<lparr>w_sched := xs @ ys\<rparr>) = (Some j, w') \<Longrightarrow>
    qstep S view sinv q st \<lparr>qs_world = w', qs_running = qs_running st @ [j]\<rparr>"
| skips: "w_sched (qs_world st) = xs @ i # ys \<Longrightarrow>
    claim S i ((qs_world st)\<lparr>w_sched := xs @ ys\<rparr>) = (None, w') \<Longrightarrow>
    qstep S view sinv q st (st\<lparr>qs_world := w'\<rparr>)"
| settles: "qs_running st = xs @ j # ys \<Longrightarrow>
    qstep S view sinv q st \<lparr>qs_world = settle S q stopped j runErr (qs_world st), qs_running = xs @ ys\<rparr>"
| fires: "w_timers (qs_world st) = xs @ (i, d) # ys \<Longrightarrow>
    qstep S view sinv q st (st\<lparr>qs_world := schedule i ((qs_world st)\<lparr>w_timers := xs @ ys\<rparr>)\<rparr>)"
| drops: "w_sched (qs_world st) = xs @ i # ys \<Longrightarrow>
    qstep S view sinv q st (st\<lparr>qs_world := (qs_world st)\<lparr>w_sched := xs @ ys\<rparr>\<rparr>)"
| expires: "w_timers (qs_world st) = xs @ t # ys \<Longrightarrow>
    qstep S view sinv q st (st\<lparr>qs_world := (qs_world st)\<lparr>w_timers := xs @ ys\<rparr>\<rparr>)"
| works: "w_sched w' = w_sched (qs_world st) \<Longrightarrow> w_timers w' = w_timers (qs_world st) \<Longrightarrow>
    sv_jobs (view (w_store w')) = sv_jobs (view (w_store (qs_world st))) \<Longrightarrow> sinv (w_store w') \<Longrightarrow>
    qstep S view sinv q st (st\<lparr>qs_world := w'\<rparr>)"

text \<open>Every id the queue holds, wherever it is.\<close>

definition held :: "('s, 'c, 'f) qstate \<Rightarrow> string list" where
  "held st = w_sched (qs_world st) @ map fst (w_timers (qs_world st)) @ map job_ID (qs_running st)"

text \<open>The invariant, on the jobs table, the ids that wait and the jobs that run: nothing is held
  twice, a waiting job is queued, a running one is marked running with the attempts its worker
  counts, and no job has used more attempts than allowed.\<close>

definition qinv :: "(string \<rightharpoonup> Job) \<Rightarrow> string list \<Rightarrow> Job list \<Rightarrow> int \<Rightarrow> bool" where
  "qinv jobs wait run m \<longleftrightarrow> distinct (wait @ map job_ID run) \<and>
     (\<forall>i\<in>set wait. \<exists>j. jobs i = Some j \<and> job_State j = JobQueued) \<and>
     (\<forall>j\<in>set run. \<exists>k. jobs (job_ID j) = Some k \<and> job_State k = JobRunning \<and> job_Attempts k = job_Attempts j) \<and>
     (\<forall>i j. jobs i = Some j \<longrightarrow> 0 \<le> job_Attempts j \<and> job_Attempts j < m)"

definition queue_inv :: "('s \<Rightarrow> store_view) \<Rightarrow> ('s \<Rightarrow> bool) \<Rightarrow> int \<Rightarrow> ('s, 'c, 'f) qstate \<Rightarrow> bool" where
  "queue_inv view sinv m st \<longleftrightarrow> sinv (w_store (qs_world st)) \<and>
     qinv (sv_jobs (view (w_store (qs_world st))))
       (w_sched (qs_world st) @ map fst (w_timers (qs_world st))) (qs_running st) m"

section \<open>The invariant on tables\<close>

lemma qinv_perm:
  assumes "mset wait = mset wait'" "qinv jobs wait run m"
  shows "qinv jobs wait' run m"
proof -
  have "distinct (wait @ map job_ID run) \<longleftrightarrow> distinct (wait' @ map job_ID run)"
    using assms(1) by (intro mset_eq_imp_distinct_iff) simp
  moreover have "set wait = set wait'" by (rule mset_eq_setD [OF assms(1)])
  ultimately show ?thesis using assms(2) by (simp add: qinv_def)
qed

lemma qinv_less:
  assumes "qinv jobs (xs @ i # ys) run m"
  shows "qinv jobs (xs @ ys) run m"
  using assms by (auto simp: qinv_def)

lemma qinv_settled:
  assumes "qinv jobs wait (xs @ j # ys) m"
  shows "qinv jobs wait (xs @ ys) m"
  using assms by (auto simp: qinv_def)

lemma qinv_new:
  assumes "qinv jobs wait run m" "jobs i = None" "job_State j = JobQueued" "0 \<le> job_Attempts j" "job_Attempts j < m"
  shows "qinv (jobs(i \<mapsto> j)) (wait @ [i]) run m"
  using assms by (fastforce simp: qinv_def)

lemma qinv_claim:
  assumes "qinv jobs (xs @ i # ys) run m" "jobs i = Some old" "job_ID j = i" "job_State j = JobRunning"
    "job_Attempts j = job_Attempts old"
  shows "qinv (jobs(i \<mapsto> j)) (xs @ ys) (run @ [j]) m"
  using assms by (auto simp: qinv_def)

lemma qinv_running_apart:
  assumes "qinv jobs wait (xs @ j # ys) m"
  shows "job_ID j \<notin> set wait" "job_ID j \<notin> job_ID ` set xs" "job_ID j \<notin> job_ID ` set ys"
    "0 \<le> job_Attempts j" "job_Attempts j < m"
proof -
  obtain k where "jobs (job_ID j) = Some k" "job_Attempts k = job_Attempts j" using assms by (auto simp: qinv_def)
  moreover have "\<forall>i j. jobs i = Some j \<longrightarrow> 0 \<le> job_Attempts j \<and> job_Attempts j < m"
    using assms by (simp add: qinv_def)
  ultimately show "0 \<le> job_Attempts j" "job_Attempts j < m" by metis+
qed (use assms in \<open>auto simp: qinv_def\<close>)

lemma qinv_requeue:
  assumes "qinv jobs wait (xs @ j # ys) m" "job_State j' = JobQueued" "0 \<le> job_Attempts j'" "job_Attempts j' < m"
  shows "qinv (jobs(job_ID j \<mapsto> j')) (wait @ [job_ID j]) (xs @ ys) m"
  using qinv_settled [OF assms(1)] qinv_running_apart [OF assms(1)] assms(2-)
  unfolding qinv_def by (auto simp: image_iff)

lemma qinv_finish:
  assumes "qinv jobs wait (xs @ j # ys) m" "job_Attempts j' = job_Attempts j"
  shows "qinv (jobs(job_ID j \<mapsto> j')) wait (xs @ ys) m"
  using qinv_settled [OF assms(1)] qinv_running_apart [OF assms(1)] assms(2)
  unfolding qinv_def by (auto simp: image_iff)

section \<open>What the operations do\<close>

context service_store
begin

abbreviation jobs :: "('s, 'c, 'f) world \<Rightarrow> string \<rightharpoonup> Job" where
  "jobs w \<equiv> sv_jobs (view (w_store w))"

lemma claim_law:
  assumes "claim S i w = (r, w')" "sinv (w_store w)"
  shows "sinv (w_store w') \<and> w_sched w' = w_sched w \<and> w_timers w' = w_timers w \<and> w_conn w' = w_conn w \<and>
    (case r of None \<Rightarrow> view (w_store w') = view (w_store w)
     | Some j \<Rightarrow> \<exists>old t. jobs w i = Some old \<and> job_ID old = i \<and> \<not> job_done (job_State old) \<and>
         j = old\<lparr>job_State := JobRunning, job_StartedAt := Some t\<rparr> \<and>
         view (w_store w') = (view (w_store w))\<lparr>sv_jobs := (jobs w)(i \<mapsto> j)\<rparr>)"
proof -
  obtain rg w1 where g: "st_GetJob S i w = (rg, w1)" by (metis surj_pair)
  note gl = st_GetJob_law [OF g assms(2)] store_frameD [OF st_frame(7) [OF g]]
  show ?thesis
  proof (cases rg)
    case (Inl e)
    with assms g gl show ?thesis by (auto simp: claim_def)
  next
    case (Inr j)
    show ?thesis
    proof (cases "job_done (job_State j)")
      case True
      with assms g gl Inr show ?thesis by (cases "job_State j") (auto simp: claim_def)
    next
      case False
      then have nd: "\<not> (job_State j = JobSucceeded \<or> job_State j = JobFailed)" by auto
      obtain t w2 where t: "time_Now w1 = (t, w2)" by (metis surj_pair)
      then have w2: "w_store w2 = w_store w1" "w_sched w2 = w_sched w1" "w_timers w2 = w_timers w1" "w_conn w2 = w_conn w1"
        by (auto simp: time_Now_def)
      let ?j = "j\<lparr>job_State := JobRunning, job_StartedAt := Some t\<rparr>"
      obtain ru w3 where u: "st_UpdateJob S ?j w2 = (ru, w3)" by (metis surj_pair)
      note ul = st_UpdateJob_law [OF u] store_frameD [OF st_frame(8) [OF u]]
      have "job_written j ?j = ?j" by (simp add: job_written_def)
      with assms g gl Inr nd t w2 u ul False show ?thesis
        by (cases ru) (auto simp: claim_def)
    qed
  qed
qed

lemma settle_law:
  assumes "settle S q stopped j r w = w'" "sinv (w_store w)"
  shows "sinv (w_store w') \<and> w_sched w' = w_sched w \<and> w_conn w' = w_conn w \<and>
    (view (w_store w') = view (w_store w) \<and> w_timers w' = w_timers w \<or>
     (\<exists>old j'. jobs w (job_ID j) = Some old \<and> job_ID j' = job_ID j \<and> job_State j' = JobQueued \<and>
        job_Attempts j' = job_Attempts j + 1 \<and> job_Attempts j' < q_maxAttempts q \<and>
        view (w_store w') = (view (w_store w))\<lparr>sv_jobs := (jobs w)(job_ID j \<mapsto> j')\<rparr> \<and>
        w_timers w' = w_timers w @ [(job_ID j, backoff q (job_Attempts j'))]) \<or>
     (\<exists>old j'. jobs w (job_ID j) = Some old \<and> job_ID j' = job_ID j \<and> job_done (job_State j') \<and>
        job_Attempts j' = job_Attempts j \<and>
        view (w_store w') = (view (w_store w))\<lparr>sv_jobs := (jobs w)(job_ID j \<mapsto> j')\<rparr> \<and>
        w_timers w' = w_timers w))"
proof -
  have upd: "sinv (w_store w2) \<and> w_sched w2 = w_sched w \<and> w_timers w2 = w_timers w \<and> w_conn w2 = w_conn w \<and>
      (view (w_store w2) = view (w_store w) \<and> (\<exists>e. ru = Inl e) \<or>
       ru = Inr () \<and> (\<exists>old. jobs w (job_ID k) = Some old \<and>
         view (w_store w2) = (view (w_store w))\<lparr>sv_jobs := (jobs w)(job_ID k \<mapsto> job_written old k)\<rparr>))"
    if "st_UpdateJob S k w1 = (ru, w2)" "w_store w1 = w_store w" "w_sched w1 = w_sched w"
      "w_timers w1 = w_timers w" "w_conn w1 = w_conn w" for k w1 ru w2
    using that assms(2) st_UpdateJob_law [OF that(1)] store_frameD [OF st_frame(8) [OF that(1)]]
    by (cases ru) auto
  have w1: "w_store (snd (time_Now w)) = w_store w" "w_sched (snd (time_Now w)) = w_sched w"
    "w_timers (snd (time_Now w)) = w_timers w" "w_conn (snd (time_Now w)) = w_conn w" by (simp_all add: time_Now_def)
  have done_case: ?thesis if "w' = ignore_err (st_UpdateJob S k (snd (time_Now w)))" "job_ID k = job_ID j"
    "job_done (job_State k)" "job_Attempts k = job_Attempts j" for k
  proof -
    obtain ru w2 where u: "st_UpdateJob S k (snd (time_Now w)) = (ru, w2)" by (metis surj_pair)
    have "job_State (job_written old k) = job_State k" "job_Attempts (job_written old k) = job_Attempts k" for old
      by (simp_all add: job_written_def)
    with upd [OF u w1] u that show ?thesis by (auto; metis written_keys(4))
  qed
  show ?thesis
  proof (cases r)
    case (Inr x)
    then show ?thesis
      using assms(1) done_case [of "j\<lparr>job_FinishedAt := Some (fst (time_Now w)), job_State := JobSucceeded\<rparr>"]
      by (auto simp: settle_def split: prod.splits)
  next
    case (Inl e)
    show ?thesis
    proof (cases "errors_Is e ContextCanceled \<or> stopped")
      case True
      with Inl assms show ?thesis by (auto simp: settle_def)
    next
      case False
      show ?thesis
      proof (cases "job_Attempts j + 1 < q_maxAttempts q")
        case f: False
        then show ?thesis
          using assms(1) Inl False done_case [of "j\<lparr>job_FinishedAt := Some (fst (time_Now w)), job_State := JobFailed,
              job_Error := err_text e\<rparr>"]
          by (auto simp: settle_def split: prod.splits)
      next
        case True
        let ?j = "j\<lparr>job_Attempts := job_Attempts j + 1, job_State := JobQueued, job_StartedAt := None\<rparr>"
        obtain ru w2 where u: "st_UpdateJob S ?j w = (ru, w2)" by (metis surj_pair)
        have "job_State (job_written old ?j) = JobQueued" "job_Attempts (job_written old ?j) = job_Attempts j + 1"
          "job_ID (job_written old ?j) = job_ID j" for old
          by (simp_all add: job_written_def)
        note wr = this
        have w': "w' = (case ru of Inl _ \<Rightarrow> w2 | Inr _ \<Rightarrow> scheduleAfter (job_ID j) (backoff q (job_Attempts j + 1)) w2)"
          using True False Inl assms(1) u by (cases ru) (auto simp: settle_def Let_def)
        from upd [OF u refl refl refl refl] consider
          "view (w_store w2) = view (w_store w)" "\<exists>e. ru = Inl e"
          | old where "ru = Inr ()" "jobs w (job_ID j) = Some old"
            "view (w_store w2) = (view (w_store w))\<lparr>sv_jobs := (jobs w)(job_ID j \<mapsto> job_written old ?j)\<rparr>" by auto
        then show ?thesis
        proof cases
          case 1
          with w' upd [OF u refl refl refl refl] show ?thesis by auto
        next
          case (2 old)
          with w' wr [of old] upd [OF u refl refl refl refl] True show ?thesis
            by (intro conjI disjI2 disjI1 exI [of _ old] exI [of _ "job_written old ?j"])
              (simp_all add: scheduleAfter_def)
        qed
      qed
    qed
  qed
qed

lemma Enqueue_law:
  assumes "Enqueue S j w = (r, w')" "sinv (w_store w)"
  shows "sinv (w_store w') \<and> w_timers w' = w_timers w \<and> w_conn w' = w_conn w \<and>
    (case r of Inl e \<Rightarrow> view (w_store w') = view (w_store w) \<and> w_sched w' = w_sched w
     | Inr j' \<Rightarrow> jobs w (job_ID j) = None \<and> job_ID j' = job_ID j \<and> job_State j' = JobQueued \<and>
         job_Attempts j' = job_Attempts j \<and> w_sched w' = w_sched w @ [job_ID j] \<and>
         view (w_store w') = (view (w_store w))\<lparr>sv_jobs := (jobs w)(job_ID j \<mapsto> j')\<rparr>)"
proof -
  obtain rc w1 where c: "st_CreateJob S (j\<lparr>job_State := JobQueued\<rparr>) w = (rc, w1)" by (metis surj_pair)
  note cl = st_CreateJob_law [OF c assms(2)] store_frameD [OF st_frame(9) [OF c]]
  with assms c show ?thesis
    by (cases rc) (auto simp: Enqueue_def schedule_def job_created_def)
qed

lemma qstep_cases_inv:
  assumes "qstep S view sinv q st st'" "queue_inv view sinv m st" "m = q_maxAttempts q" "0 < m"
  shows "queue_inv view sinv m st' \<and>
    (\<forall>i j. jobs (qs_world st) i = Some j \<and> job_done (job_State j) \<longrightarrow> jobs (qs_world st') i = Some j)"
  using assms(1)
proof cases
  case (enqueue j r w')
  let ?wait = "w_sched (qs_world st) @ map fst (w_timers (qs_world st))"
  have i: "sinv (w_store (qs_world st))" and q: "qinv (jobs (qs_world st)) ?wait (qs_running st) m"
    using assms(2) by (simp_all add: queue_inv_def)
  note law = Enqueue_law [OF enqueue(3) i]
  show ?thesis
  proof (cases r)
    case (Inl e)
    with law enqueue q show ?thesis by (simp add: queue_inv_def)
  next
    case (Inr j')
    with law enqueue assms(4) q have "qinv (jobs w') (?wait @ [job_ID j]) (qs_running st) m"
      using qinv_new [OF q, of "job_ID j" j'] by simp
    then have "qinv (jobs w') (w_sched w' @ map fst (w_timers w')) (qs_running st) m"
      using law Inr by (elim qinv_perm [rotated]) simp
    with law Inr enqueue show ?thesis by (auto simp: queue_inv_def)
  qed
next
  case (claims xs i ys j w')
  have q: "qinv (jobs (qs_world st)) (xs @ i # (ys @ map fst (w_timers (qs_world st)))) (qs_running st) m"
    using assms(2) claims by (simp add: queue_inv_def)
  obtain old t where c: "jobs (qs_world st) i = Some old" "job_ID old = i" "\<not> job_done (job_State old)"
    "j = old\<lparr>job_State := JobRunning, job_StartedAt := Some t\<rparr>" "sinv (w_store w')"
    "w_sched w' = xs @ ys" "w_timers w' = w_timers (qs_world st)"
    "jobs w' = (jobs (qs_world st))(i \<mapsto> j)"
  proof -
    have "sinv (w_store ((qs_world st)\<lparr>w_sched := xs @ ys\<rparr>))" using assms(2) by (simp add: queue_inv_def)
    from claim_law [OF claims(3) this] that show thesis by fastforce
  qed
  then show ?thesis using claims qinv_claim [OF q c(1), of j] by (auto simp: queue_inv_def)
next
  case (skips xs i ys w')
  have q: "qinv (jobs (qs_world st)) (xs @ i # (ys @ map fst (w_timers (qs_world st)))) (qs_running st) m"
    using assms(2) skips by (simp add: queue_inv_def)
  show ?thesis using skips claim_law [OF skips(3)] assms(2) qinv_less [OF q] by (auto simp: queue_inv_def)
next
  case (settles xs j ys stopped r)
  let ?w = "qs_world st" and ?wait = "w_sched (qs_world st) @ map fst (w_timers (qs_world st))"
  have q: "qinv (jobs ?w) ?wait (xs @ j # ys) m" and i: "sinv (w_store ?w)"
    using assms(2) settles by (simp_all add: queue_inv_def)
  have run: "\<exists>k. jobs ?w (job_ID j) = Some k \<and> job_State k = JobRunning" using q by (auto simp: qinv_def)
  have att: "0 \<le> job_Attempts j + 1" using qinv_running_apart(4) [OF q] by simp
  from settle_law [OF refl i, of q stopped j r] show ?thesis
    unfolding settles(1) using run att qinv_settled [OF q] qinv_requeue [OF q] qinv_finish [OF q] assms(3)
    by (auto simp: queue_inv_def)
next
  case (fires xs i d ys)
  then show ?thesis using assms(2)
    by (auto simp: queue_inv_def schedule_def elim!: qinv_perm [rotated])
next
  case (drops xs i ys)
  then show ?thesis
    using assms(2) qinv_less [of _ xs i "ys @ map fst (w_timers (qs_world st))"] by (auto simp: queue_inv_def)
next
  case (expires xs t ys)
  then show ?thesis
    using assms(2) qinv_less [of _ "w_sched (qs_world st) @ map fst xs" "fst t" "map fst ys"]
    by (auto simp: queue_inv_def)
next
  case (works w')
  then show ?thesis using assms(2) by (auto simp: queue_inv_def)
qed

lemma qsteps_inv:
  assumes "(qstep S view sinv q)\<^sup>*\<^sup>* st st'" "queue_inv view sinv (q_maxAttempts q) st" "0 < q_maxAttempts q"
  shows "queue_inv view sinv (q_maxAttempts q) st' \<and>
    (\<forall>i j. jobs (qs_world st) i = Some j \<and> job_done (job_State j) \<longrightarrow> jobs (qs_world st') i = Some j)"
  using assms(1)
proof (induction rule: rtranclp_induct)
  case base
  then show ?case using assms by simp
next
  case (step y z)
  then show ?case using qstep_cases_inv [OF step.hyps(2) _ refl assms(3)] by blast
qed

end

section \<open>Settling and recovery when the store answers\<close>

fun process_times :: "('s, 'c, 'f) Service \<Rightarrow> ('s, 'c, 'f) Queue \<Rightarrow> string \<Rightarrow> nat
    \<Rightarrow> ('s, 'c, 'f) world \<Rightarrow> ('s, 'c, 'f) world option" where
  "process_times S q i 0 w = Some w"
| "process_times S q i (Suc n) w = (case process S q False i w of
     None \<Rightarrow> None | Some w1 \<Rightarrow> process_times S q i n w1)"

text \<open>A runner that returns, is not cancelled, and leaves the jobs table to the queue.\<close>

definition honest_runner :: "('s \<Rightarrow> store_view) \<Rightarrow> ('s \<Rightarrow> bool) \<Rightarrow> ('s, 'c, 'f) Runner \<Rightarrow> bool" where
  "honest_runner view ok r \<longleftrightarrow> (\<forall>j w. ok (w_store w) \<longrightarrow> (\<exists>res w'. r j w = Some (res, w') \<and> ok (w_store w') \<and>
     sv_jobs (view (w_store w')) = sv_jobs (view (w_store w)) \<and>
     (\<forall>e. res = Inl e \<longrightarrow> \<not> errors_Is e ContextCanceled)))"

context service_calm
begin

abbreviation "fine s \<equiv> sinv s \<and> calm s"

lemma jobs_keyed: "fine (w_store w) \<Longrightarrow> jobs w i = Some j \<Longrightarrow> job_ID j = i"
  using st_GetJob_law [of i w "Inr j" w] st_GetJob_calm [of w i j] by simp

lemma process_done:
  assumes "fine (w_store w)" "jobs w i = Some j" "job_done (job_State j)"
  shows "process S q stopped i w = Some w"
  using assms st_GetJob_calm [of w i j] by (cases "job_State j") (auto simp: process_def claim_def)

lemma claim_calm:
  assumes "fine (w_store w)" "jobs w i = Some j" "\<not> job_done (job_State j)"
  shows "\<exists>t w'. claim S i w = (Some (j\<lparr>job_State := JobRunning, job_StartedAt := Some t\<rparr>), w') \<and>
    fine (w_store w') \<and> jobs w' = (jobs w)(i \<mapsto> j\<lparr>job_State := JobRunning, job_StartedAt := Some t\<rparr>)"
proof -
  obtain t w1 where t: "time_Now w = (t, w1)" "w_store w1 = w_store w" by (simp add: time_Now_def)
  let ?j = "j\<lparr>job_State := JobRunning, job_StartedAt := Some t\<rparr>"
  obtain w' where u: "st_UpdateJob S ?j w1 = (Inr (), w')" "calm (w_store w')"
    using st_UpdateJob_calm [of w1 ?j] assms t jobs_keyed by fastforce
  have nd: "\<not> (job_State j = JobSucceeded \<or> job_State j = JobFailed)" using assms(3) by auto
  have "claim S i w = (Some ?j, w')"
    using st_GetJob_calm [of w i j] assms t u nd by (simp add: claim_def)
  with claim_law [OF this] assms u jobs_keyed [OF assms(1,2)] show ?thesis by auto
qed

lemma settle_calm:
  assumes "fine (w_store w)" "jobs w (job_ID j) = Some old" "\<And>e. r = Inl e \<Longrightarrow> \<not> errors_Is e ContextCanceled"
  shows "\<exists>j'. fine (w_store (settle S q False j r w)) \<and>
    jobs (settle S q False j r w) = (jobs w)(job_ID j \<mapsto> j') \<and>
    (case r of Inr _ \<Rightarrow> job_State j' = JobSucceeded \<and> job_Attempts j' = job_Attempts j
     | Inl e \<Rightarrow> if job_Attempts j + 1 < q_maxAttempts q
         then job_State j' = JobQueued \<and> job_Attempts j' = job_Attempts j + 1
         else job_State j' = JobFailed \<and> job_Error j' = err_text e \<and> job_Attempts j' = job_Attempts j)"
proof -
  have upd: "\<exists>w2. st_UpdateJob S k w1 = (Inr (), w2) \<and> fine (w_store w2) \<and> jobs w2 = (jobs w)(job_ID j \<mapsto> job_written old k)"
    if k: "job_ID k = job_ID j" "w_store w1 = w_store w" for k w1
  proof -
    obtain w2 where u: "st_UpdateJob S k w1 = (Inr (), w2)" "calm (w_store w2)"
      using st_UpdateJob_calm [of w1 k old] assms k by auto
    with st_UpdateJob_law [OF u(1)] assms k show ?thesis by auto
  qed
  have n: "w_store (snd (time_Now w)) = w_store w" by (simp add: time_Now_def)
  show ?thesis
  proof (cases r)
    case (Inr x)
    let ?k = "j\<lparr>job_FinishedAt := Some (fst (time_Now w)), job_State := JobSucceeded\<rparr>"
    from upd [of ?k, OF _ n] Inr show ?thesis
      by (auto simp: settle_def split: prod.splits) (auto simp: job_written_def)
  next
    case (Inl e)
    note e = assms(3) [OF Inl]
    show ?thesis
    proof (cases "job_Attempts j + 1 < q_maxAttempts q")
      case True
      let ?k = "j\<lparr>job_Attempts := job_Attempts j + 1, job_State := JobQueued, job_StartedAt := None\<rparr>"
      from upd [of ?k w] Inl True e show ?thesis
        by (auto simp: settle_def scheduleAfter_def Let_def) (auto simp: job_written_def)
    next
      case False
      let ?k = "j\<lparr>job_FinishedAt := Some (fst (time_Now w)), job_State := JobFailed, job_Error := err_text e\<rparr>"
      from upd [of ?k, OF _ n] Inl False e show ?thesis
        by (auto simp: settle_def split: prod.splits) (auto simp: job_written_def)
    qed
  qed
qed

lemma process_calm:
  assumes "fine (w_store w)" "jobs w i = Some j" "\<not> job_done (job_State j)"
    and "q_runner q = Some r" "honest_runner view fine r"
  shows "\<exists>w' j'. process S q False i w = Some w' \<and> fine (w_store w') \<and> jobs w' i = Some j' \<and>
    (job_done (job_State j') \<or> job_Attempts j' = job_Attempts j + 1 \<and> job_Attempts j' < q_maxAttempts q)"
proof -
  obtain t w1 where c: "claim S i w = (Some (j\<lparr>job_State := JobRunning, job_StartedAt := Some t\<rparr>), w1)"
    "fine (w_store w1)" "jobs w1 = (jobs w)(i \<mapsto> j\<lparr>job_State := JobRunning, job_StartedAt := Some t\<rparr>)"
    using claim_calm [OF assms(1-3)] by blast
  let ?j = "j\<lparr>job_State := JobRunning, job_StartedAt := Some t\<rparr>"
  obtain res w2 where r: "r ?j w1 = Some (res, w2)" "fine (w_store w2)" "jobs w2 = jobs w1"
    "\<And>e. res = Inl e \<Longrightarrow> \<not> errors_Is e ContextCanceled"
    using assms(5) c(2) unfolding honest_runner_def by blast
  have i: "job_ID ?j = i" using jobs_keyed [OF assms(1,2)] by simp
  have p: "process S q False i w = Some (settle S q False ?j res w2)"
    using c r assms(4) by (simp add: process_def queue_run_def)
  have "jobs w2 (job_ID ?j) = Some ?j" using r c i by simp
  from settle_calm [OF r(2) this r(4), of res q] p i show ?thesis
    by (cases res) (auto split: if_splits)
qed

lemma process_times_done:
  assumes "fine (w_store w)" "jobs w i = Some j" "job_done (job_State j)"
  shows "process_times S q i n w = Some w"
  using process_done [OF assms] by (induction n) auto

lemma process_settles:
  assumes "fine (w_store w)" "jobs w i = Some j" "q_runner q = Some r" "honest_runner view fine r"
    and "q_maxAttempts q \<le> job_Attempts j + int n" "0 < n"
  shows "\<exists>w' j'. process_times S q i n w = Some w' \<and> jobs w' i = Some j' \<and> job_done (job_State j')"
  using assms
proof (induction n arbitrary: w j)
  case (Suc n)
  show ?case
  proof (cases "job_done (job_State j)")
    case True
    with process_times_done [OF Suc.prems(1,2) True] Suc.prems show ?thesis by metis
  next
    case False
    obtain w1 j1 where p: "process S q False i w = Some w1" "fine (w_store w1)" "jobs w1 i = Some j1"
      "job_done (job_State j1) \<or> job_Attempts j1 = job_Attempts j + 1 \<and> job_Attempts j1 < q_maxAttempts q"
      using process_calm [OF Suc.prems(1,2) False Suc.prems(3,4)] by blast
    show ?thesis
    proof (cases "job_done (job_State j1)")
      case True
      with process_times_done [OF p(2,3) True] p show ?thesis by auto
    next
      case False
      with p Suc.prems have "0 < n" "q_maxAttempts q \<le> job_Attempts j1 + int n" by (auto intro!: gr0I)
      with Suc.IH [OF p(2,3) Suc.prems(3,4)] p show ?thesis by simp
    qed
  qed
qed simp

lemma fail_interrupted_calm:
  assumes "fine (w_store w)" "distinct (map job_ID js)" "\<forall>j\<in>set js. jobs w (job_ID j) = Some j"
  shows "fine (w_store (fail_interrupted S js w)) \<and>
    w_sched (fail_interrupted S js w) = w_sched w \<and> w_timers (fail_interrupted S js w) = w_timers w \<and>
    (\<forall>i. i \<notin> job_ID ` set js \<longrightarrow> jobs (fail_interrupted S js w) i = jobs w i) \<and>
    (\<forall>j\<in>set js. \<exists>j'. jobs (fail_interrupted S js w) (job_ID j) = Some j' \<and> job_State j' = JobFailed \<and>
       job_Error j' = ''interrupted by agent restart'' \<and> job_Attempts j' = job_Attempts j)"
  using assms
proof (induction js arbitrary: w)
  case (Cons j js)
  obtain t w1 where t: "time_Now w = (t, w1)" "w_store w1 = w_store w" "w_sched w1 = w_sched w" "w_timers w1 = w_timers w"
    by (simp add: time_Now_def)
  let ?k = "j\<lparr>job_State := JobFailed, job_Error := ''interrupted by agent restart'', job_FinishedAt := Some t\<rparr>"
  obtain w2 where u: "st_UpdateJob S ?k w1 = (Inr (), w2)" "calm (w_store w2)"
    using st_UpdateJob_calm [of w1 ?k j] Cons.prems t by auto
  have l: "sinv (w_store w2)" "jobs w2 = (jobs w)(job_ID j \<mapsto> ?k)"
    using st_UpdateJob_law [OF u(1)] Cons.prems t by (auto simp: job_written_def)
  note f = store_frameD [OF st_frame(8) [OF u(1)]]
  have apart: "job_ID k \<noteq> job_ID j" if "k \<in> set js" for k using that Cons.prems(2) by (auto simp: image_iff)
  have here: "jobs w2 (job_ID k) = Some k" if "k \<in> set js" for k using apart [OF that] that Cons.prems(3) l by simp
  have eq: "fail_interrupted S (j # js) w = fail_interrupted S js w2" using t u by simp
  have "fine (w_store w2)" "distinct (map job_ID js)" "\<forall>k\<in>set js. jobs w2 (job_ID k) = Some k"
    using u l here Cons.prems by auto
  note ih = Cons.IH [OF this]
  have "job_ID j \<notin> job_ID ` set js" using apart by (metis imageE)
  then have "jobs (fail_interrupted S js w2) (job_ID j) = Some ?k" using ih l by simp
  then show ?case unfolding eq using ih f t l by auto
qed simp

lemma fold_schedule: "fold (\<lambda>j. schedule (job_ID j)) js w = w\<lparr>w_sched := w_sched w @ map job_ID js\<rparr>"
  by (induction js arbitrary: w) (simp_all add: schedule_def)

lemma recover_calm:
  assumes "fine (w_store w)"
  shows "\<exists>ids. fine (w_store (queue_recover S w)) \<and> w_timers (queue_recover S w) = w_timers w \<and>
    w_sched (queue_recover S w) = w_sched w @ ids \<and> distinct ids \<and>
    set ids = {i. \<exists>j. jobs w i = Some j \<and> job_State j = JobQueued} \<and>
    (\<forall>i j. jobs w i = Some j \<longrightarrow> (\<exists>j'. jobs (queue_recover S w) i = Some j' \<and> job_Attempts j' = job_Attempts j \<and>
       (if job_State j = JobRunning
        then job_State j' = JobFailed \<and> job_Error j' = ''interrupted by agent restart'' else j' = j))) \<and>
    (\<forall>i. jobs w i = None \<longrightarrow> jobs (queue_recover S w) i = None)"
proof -
  obtain rs where r: "st_ListJobsByState S JobRunning w = (Inr rs, w)" using st_ListJobs_calm assms by blast
  have rl: "distinct (map job_ID rs)" "\<And>j. j \<in> set rs \<longleftrightarrow> jobs w (job_ID j) = Some j \<and> job_State j = JobRunning"
    using st_ListJobs_law [OF r] assms by auto
  let ?w = "fail_interrupted S rs w"
  note fl = fail_interrupted_calm [OF assms rl(1)]
  obtain qs where q: "st_ListJobsByState S JobQueued ?w = (Inr qs, ?w)" using st_ListJobs_calm fl rl by blast
  have ql: "distinct (map job_ID qs)" "\<And>j. j \<in> set qs \<longleftrightarrow> jobs ?w (job_ID j) = Some j \<and> job_State j = JobQueued"
    using st_ListJobs_law [OF q] fl rl by auto
  have run: "i \<in> job_ID ` set rs \<longleftrightarrow> (\<exists>j. jobs w i = Some j \<and> job_State j = JobRunning)" for i
    using rl(2) jobs_keyed [OF assms] by (force simp: image_iff)
  have fin: "fine (w_store ?w)" using fl rl by blast
  have queued: "i \<in> job_ID ` set qs \<longleftrightarrow> (\<exists>j. jobs ?w i = Some j \<and> job_State j = JobQueued)" for i
    using ql(2) jobs_keyed [OF fin] by (force simp: image_iff)
  have same: "jobs ?w i = jobs w i" if "i \<notin> job_ID ` set rs" for i using fl rl that by blast
  have failed: "\<exists>j'. jobs ?w i = Some j' \<and> job_State j' = JobFailed \<and>
      job_Error j' = ''interrupted by agent restart'' \<and> job_Attempts j' = job_Attempts j"
    if "jobs w i = Some j" "job_State j = JobRunning" for i j
    using fl rl that jobs_keyed [OF assms that(1)] by metis
  have eq: "queue_recover S w = ?w\<lparr>w_sched := w_sched ?w @ map job_ID qs\<rparr>"
    using r q by (simp add: queue_recover_def fold_schedule)
  have ids: "set (map job_ID qs) = {i. \<exists>j. jobs w i = Some j \<and> job_State j = JobQueued}"
  proof -
    have "(\<exists>j. jobs ?w i = Some j \<and> job_State j = JobQueued) \<longleftrightarrow> (\<exists>j. jobs w i = Some j \<and> job_State j = JobQueued)" for i
    proof (cases "i \<in> job_ID ` set rs")
      case True
      then obtain j where "jobs w i = Some j" "job_State j = JobRunning" using run by blast
      then show ?thesis using failed by force
    qed (simp add: same)
    then show ?thesis unfolding set_map set_eq_iff queued by simp
  qed
  have frames: "w_sched ?w = w_sched w" "w_timers ?w = w_timers w" using fl rl by blast+
  have each: "\<exists>j'. jobs ?w i = Some j' \<and> job_Attempts j' = job_Attempts j \<and>
       (if job_State j = JobRunning
        then job_State j' = JobFailed \<and> job_Error j' = ''interrupted by agent restart'' else j' = j)"
    if "jobs w i = Some j" for i j
    using that same [of i] run [of i] failed [OF that] by (cases "job_State j = JobRunning") auto
  have absent: "jobs w i = None \<longrightarrow> jobs ?w i = None" for i using same [of i] run [of i] by auto
  show ?thesis
    unfolding eq using fin frames ids ql(1) each absent by (intro exI [of _ "map job_ID qs"]) simp
qed

end

section \<open>Properties\<close>

text \<open>No interleaving of requests, workers, timers and other work makes the queue hold a job
  twice: from a state that satisfies the invariant, every reachable state has each id at most
  once among the channel, the pending retries and the running workers, so a job is never run by
  two workers at once; and no job ever counts as many attempts as the maximum.\<close>

lemma queue_no_double_run:
  assumes "sv_store S = sqlite_ops" "0 < q_maxAttempts q"
    and "queue_inv sqlite_view sqlite_inv (q_maxAttempts q) st"
    and "(qstep S sqlite_view sqlite_inv q)\<^sup>*\<^sup>* st st'"
  shows "distinct (held st') \<and>
    (\<forall>i j. sv_jobs (sqlite_view (w_store (qs_world st'))) i = Some j \<longrightarrow> job_Attempts j < q_maxAttempts q)"
  using agent.qsteps_inv [where S = S, unfolded with_sqlite [OF assms(1)], OF assms(4,3,2)]
  by (auto simp: queue_inv_def qinv_def held_def)

text \<open>A settled job is final: once a job is recorded as succeeded or failed, nothing the queue
  does afterwards, in any order, changes its record.\<close>

lemma settled_jobs_final:
  assumes "sv_store S = sqlite_ops" "0 < q_maxAttempts q"
    and "queue_inv sqlite_view sqlite_inv (q_maxAttempts q) st"
    and "(qstep S sqlite_view sqlite_inv q)\<^sup>*\<^sup>* st st'"
    and "sv_jobs (sqlite_view (w_store (qs_world st))) i = Some j" "job_done (job_State j)"
  shows "sv_jobs (sqlite_view (w_store (qs_world st'))) i = Some j"
  using agent.qsteps_inv [where S = S, unfolded with_sqlite [OF assms(1)], OF assms(4,3,2)] assms(5,6)
  by blast

text \<open>Liveness: with a database that answers and a runner that returns (successfully or
  not), a job is settled, as succeeded or failed, after at most three rounds of \<open>process\<close>.\<close>

lemma job_settles_in_three:
  assumes "sv_store S = sqlite_ops" "sqlite_inv (w_store w)" "sqlite_calm (w_store w)"
    and "q = SetRunner r (NewQueue workers)" "honest_runner sqlite_view (\<lambda>s. sqlite_inv s \<and> sqlite_calm s) r"
    and "sv_jobs (sqlite_view (w_store w)) i = Some j" "0 \<le> job_Attempts j"
  shows "\<exists>w' j'. process_times S q i 3 w = Some w' \<and>
    sv_jobs (sqlite_view (w_store w')) i = Some j' \<and> job_done (job_State j')"
proof -
  have "q_runner q = Some r" "q_maxAttempts q = 3" using assms(4) by (simp_all add: SetRunner_def NewQueue_def maxJobAttempts_def)
  then show ?thesis
    using agent.process_settles [where S = S, unfolded with_sqlite [OF assms(1)], of w i j q r 3] assms by simp
qed

text \<open>Recovery at start-up: after \<open>recover\<close> no job is left running, every job that was
  running is failed with the interruption recorded, every queued job has been handed to the
  channel exactly once, other jobs are as they were, and the queue starts in a state that
  satisfies its invariant.\<close>

lemma recover_settles_everything:
  assumes "sv_store S = sqlite_ops" "sqlite_inv (w_store w)" "sqlite_calm (w_store w)"
    and "w_sched w = []" "w_timers w = []"
    and "\<forall>i j. sv_jobs (sqlite_view (w_store w)) i = Some j \<longrightarrow> 0 \<le> job_Attempts j \<and> job_Attempts j < m"
  shows "queue_inv sqlite_view sqlite_inv m \<lparr>qs_world = queue_recover S w, qs_running = []\<rparr> \<and>
    set (w_sched (queue_recover S w)) = {i. \<exists>j. sv_jobs (sqlite_view (w_store w)) i = Some j \<and> job_State j = JobQueued} \<and>
    (\<forall>i j. sv_jobs (sqlite_view (w_store w)) i = Some j \<longrightarrow>
       (\<exists>j'. sv_jobs (sqlite_view (w_store (queue_recover S w))) i = Some j' \<and> job_State j' \<noteq> JobRunning \<and>
          (if job_State j = JobRunning
           then job_State j' = JobFailed \<and> job_Error j' = ''interrupted by agent restart'' else j' = j)))"
proof -
  obtain ids where r: "sqlite_inv (w_store (queue_recover S w))" "w_timers (queue_recover S w) = []"
    "w_sched (queue_recover S w) = ids" "distinct ids"
    "set ids = {i. \<exists>j. sv_jobs (sqlite_view (w_store w)) i = Some j \<and> job_State j = JobQueued}"
    "\<forall>i j. sv_jobs (sqlite_view (w_store w)) i = Some j \<longrightarrow>
      (\<exists>j'. sv_jobs (sqlite_view (w_store (queue_recover S w))) i = Some j' \<and> job_Attempts j' = job_Attempts j \<and>
       (if job_State j = JobRunning
        then job_State j' = JobFailed \<and> job_Error j' = ''interrupted by agent restart'' else j' = j))"
    "\<forall>i. sv_jobs (sqlite_view (w_store w)) i = None \<longrightarrow> sv_jobs (sqlite_view (w_store (queue_recover S w))) i = None"
    using agent.recover_calm [where S = S, unfolded with_sqlite [OF assms(1)], of w] assms by auto
  have "0 \<le> job_Attempts j' \<and> job_Attempts j' < m"
    if "sv_jobs (sqlite_view (w_store (queue_recover S w))) i = Some j'" for i j'
    using that r(6,7) assms(6) by (cases "sv_jobs (sqlite_view (w_store w)) i") (force, metis option.inject)
  moreover have "\<exists>j. sv_jobs (sqlite_view (w_store (queue_recover S w))) i = Some j \<and> job_State j = JobQueued"
    if "i \<in> set ids" for i using that r(5,6) by force
  ultimately have "qinv (sv_jobs (sqlite_view (w_store (queue_recover S w)))) ids [] m"
    using r(4) by (simp add: qinv_def)
  moreover have "\<exists>j'. sv_jobs (sqlite_view (w_store (queue_recover S w))) i = Some j' \<and> job_State j' \<noteq> JobRunning \<and>
          (if job_State j = JobRunning
           then job_State j' = JobFailed \<and> job_Error j' = ''interrupted by agent restart'' else j' = j)"
    if "sv_jobs (sqlite_view (w_store w)) i = Some j" for i j
    using r(6) that by (cases "job_State j = JobRunning") fastforce+
  ultimately show ?thesis using r by (simp add: queue_inv_def)
qed

section \<open>Jobs for the witnesses\<close>

definition demo_job :: "string \<Rightarrow> JobState \<Rightarrow> Job" where
  "demo_job i st = \<lparr>job_ID = i, job_Type = JobStart, job_VMID = ''vm-1'', job_State = st, job_Error = [],
     job_IdempotencyKey = [], job_Payload = [], job_Attempts = 0, job_CreatedAt = 0,
     job_StartedAt = None, job_FinishedAt = None\<rparr>"

definition demo_jobs_world :: "(SQLiteStore, Fake, unit) world" where
  "demo_jobs_world = demo_world\<lparr>w_store := empty_store\<lparr>db_jobs := map job_values
     [demo_job ''a'' JobSucceeded, demo_job ''b'' JobRunning, demo_job ''c'' JobQueued]\<rparr>\<rparr>"

lemma demo_jobs_ok: "sqlite_inv (w_store demo_jobs_world)" "sqlite_calm (w_store demo_jobs_world)"
  by (simp_all add: demo_jobs_world_def demo_world_def empty_store_def sqlite_inv_def sqlite_calm_def demo_job_def)

lemma demo_jobs_view:
  "sv_jobs (sqlite_view (w_store demo_jobs_world)) i =
     (if i = ''a'' then Some (demo_job ''a'' JobSucceeded) else if i = ''b'' then Some (demo_job ''b'' JobRunning)
      else if i = ''c'' then Some (demo_job ''c'' JobQueued) else None)"
  by (simp add: demo_jobs_world_def empty_store_def sqlite_view_def row_of_Cons demo_job_def)

end
