(* ===== verification/JobFrame.thy ===== *)
theory JobFrame
  imports JobQueue Provision
begin

text \<open>
  What a job may touch. \<open>job_frame i w w'\<close> says that between two worlds only the record and the
  addresses of VM \<open>i\<close> changed in the store, and neither the jobs table nor the queue's channel
  and timers did. \<open>run_safe\<close> adds what errors the operation may return. The rules below compose
  the judgement along the code's own structure (a call, the branch on its error, the next
  call), so that the frame of an operation is proved by applying them to its definition.

  \<open>job_env\<close> is the interface: a store that keeps its contract, and a class \<open>E\<close> of errors that
  contains what the dependencies return and is closed under wrapping. It is interpreted twice:
  with every error and any store history, and with the errors that are no cancellation, on a
  store that answers.
\<close>

section \<open>The judgement\<close>

definition job_frame :: "('s \<Rightarrow> store_view) \<Rightarrow> ('s \<Rightarrow> bool) \<Rightarrow> string
    \<Rightarrow> ('s, 'c, 'f) world \<Rightarrow> ('s, 'c, 'f) world \<Rightarrow> bool" where
  "job_frame view sinv i w w' \<longleftrightarrow> sinv (w_store w') \<and>
     sv_jobs (view (w_store w')) = sv_jobs (view (w_store w)) \<and>
     sv_idem (view (w_store w')) = sv_idem (view (w_store w)) \<and>
     (\<forall>k. k \<noteq> i \<longrightarrow> sv_vms (view (w_store w')) k = sv_vms (view (w_store w)) k) \<and>
     (sv_vms (view (w_store w')) i = None \<longleftrightarrow> sv_vms (view (w_store w)) i = None) \<and>
     (\<forall>k v. v \<noteq> i \<longrightarrow> (sv_ips (view (w_store w')) k = Some v \<longleftrightarrow> sv_ips (view (w_store w)) k = Some v)) \<and>
     w_sched w' = w_sched w \<and> w_timers w' = w_timers w"

definition run_safe :: "('s \<Rightarrow> store_view) \<Rightarrow> ('s \<Rightarrow> bool) \<Rightarrow> (goerr \<Rightarrow> bool) \<Rightarrow> string
    \<Rightarrow> ('s, 'c, 'f) world \<Rightarrow> 'a res \<times> ('s, 'c, 'f) world \<Rightarrow> bool" where
  "run_safe view sinv E i w p \<longleftrightarrow> job_frame view sinv i w (snd p) \<and> (\<forall>e. fst p = Inl e \<longrightarrow> E e)"

lemma job_frame_refl: "sinv (w_store w) \<Longrightarrow> job_frame view sinv i w w"
  by (simp add: job_frame_def)

lemma job_frame_trans:
  "job_frame view sinv i w w1 \<Longrightarrow> job_frame view sinv i w1 w2 \<Longrightarrow> job_frame view sinv i w w2"
  unfolding job_frame_def by simp

lemma job_frame_same_store:
  "job_frame view sinv i w w1 \<Longrightarrow> w_store w2 = w_store w1 \<Longrightarrow> w_sched w2 = w_sched w1 \<Longrightarrow>
   w_timers w2 = w_timers w1 \<Longrightarrow> job_frame view sinv i w w2"
  unfolding job_frame_def by simp

lemma run_safe_frame: "run_safe view sinv E i w p \<Longrightarrow> job_frame view sinv i w (snd p)"
  by (simp add: run_safe_def)

subsection \<open>Composition\<close>

named_theorems frame_rules \<open>the rules of the judgement, applied to a definition's text\<close>

lemma safe_case [frame_rules]:
  assumes "run_safe view sinv E i w m"
    and "\<And>e w1. m = (Inl e, w1) \<Longrightarrow> job_frame view sinv i w w1 \<Longrightarrow> E e \<Longrightarrow> run_safe view sinv E i w (f e w1)"
    and "\<And>x w1. m = (Inr x, w1) \<Longrightarrow> job_frame view sinv i w w1 \<Longrightarrow> run_safe view sinv E i w (g x w1)"
  shows "run_safe view sinv E i w (case m of (Inl e, w1) \<Rightarrow> f e w1 | (Inr x, w1) \<Rightarrow> g x w1)"
  using assms by (auto simp: run_safe_def split: prod.splits sum.splits)

lemma safe_error [frame_rules]: "job_frame view sinv i w w1 \<Longrightarrow> E e \<Longrightarrow> run_safe view sinv E i w (Inl e, w1)"
  by (simp add: run_safe_def)

lemma safe_return [frame_rules]: "job_frame view sinv i w w1 \<Longrightarrow> run_safe view sinv E i w (Inr x, w1)"
  by (simp add: run_safe_def)

lemma safe_if [frame_rules]:
  "(b \<Longrightarrow> run_safe view sinv E i w p) \<Longrightarrow> (\<not> b \<Longrightarrow> run_safe view sinv E i w q) \<Longrightarrow>
   run_safe view sinv E i w (if b then p else q)"
  by simp

lemma safe_option [frame_rules]:
  "(o' = None \<Longrightarrow> run_safe view sinv E i w p) \<Longrightarrow> (\<And>x. o' = Some x \<Longrightarrow> run_safe view sinv E i w (q x)) \<Longrightarrow>
   run_safe view sinv E i w (case o' of None \<Rightarrow> p | Some x \<Rightarrow> q x)"
  by (cases o') auto

lemma safe_sum [frame_rules]:
  "(\<And>e. r = Inl e \<Longrightarrow> run_safe view sinv E i w (p e)) \<Longrightarrow> (\<And>x. r = Inr x \<Longrightarrow> run_safe view sinv E i w (q x)) \<Longrightarrow>
   run_safe view sinv E i w (case r of Inl e \<Rightarrow> p e | Inr x \<Rightarrow> q x)"
  by (cases r) auto

lemma safe_pair [frame_rules]:
  "(\<And>a b. p = (a, b) \<Longrightarrow> run_safe view sinv E i w (q a b)) \<Longrightarrow>
   run_safe view sinv E i w (case p of (a, b) \<Rightarrow> q a b)"
  by (cases p) auto

lemma safe_let [frame_rules]:
  "(\<And>x. x = a \<Longrightarrow> run_safe view sinv E i w (q x)) \<Longrightarrow> run_safe view sinv E i w (Let a q)"
  by simp

lemma frame_if [frame_rules]:
  "(b \<Longrightarrow> job_frame view sinv i w x) \<Longrightarrow> (\<not> b \<Longrightarrow> job_frame view sinv i w y) \<Longrightarrow>
   job_frame view sinv i w (if b then x else y)"
  by simp

lemma frame_time:
  "job_frame view sinv i w w1 \<Longrightarrow> time_Now w1 = (t, w2) \<Longrightarrow> job_frame view sinv i w w2"
  by (erule job_frame_same_store) (auto simp: time_Now_def)

lemma frame_uuid:
  "job_frame view sinv i w w1 \<Longrightarrow> uuid_NewString w1 = (u, w2) \<Longrightarrow> job_frame view sinv i w w2"
  by (erule job_frame_same_store) (auto simp: uuid_NewString_def)

section \<open>A pass over all VMs\<close>

text \<open>A loop over the listed VMs whose body touches one VM at a time: what the body establishes for
  its VM still holds at the end when the other rounds leave it alone.\<close>

lemma fold_vms:
  fixes todo don :: "VM \<Rightarrow> ('s, 'c, 'f) world \<Rightarrow> bool"
  assumes step: "\<And>v w. v \<in> set vs \<Longrightarrow> sinv (w_store w) \<Longrightarrow> todo v w \<Longrightarrow>
      job_frame view sinv (vm_ID v) w (f v w) \<and> don v (f v w)"
    and keep: "\<And>u v w. u \<in> set vs \<Longrightarrow> v \<in> set vs \<Longrightarrow> vm_ID u \<noteq> vm_ID v \<Longrightarrow>
      job_frame view sinv (vm_ID v) w (f v w) \<Longrightarrow> (todo u w \<longrightarrow> todo u (f v w)) \<and> (don u w \<longrightarrow> don u (f v w))"
    and "sinv (w_store w)" "distinct (map vm_ID vs)" "\<forall>v\<in>set vs. todo v w"
  defines "w' \<equiv> fold f vs w"
  shows "(sinv (w_store w') \<and> w_sched w' = w_sched w \<and> w_timers w' = w_timers w) \<and>
    sv_jobs (view (w_store w')) = sv_jobs (view (w_store w)) \<and>
    (\<forall>k. k \<notin> vm_ID ` set vs \<longrightarrow> sv_vms (view (w_store w')) k = sv_vms (view (w_store w)) k) \<and>
    (\<forall>v\<in>set vs. don v w')"
proof -
  have "(sinv (w_store (fold f xs w)) \<and> w_sched (fold f xs w) = w_sched w \<and> w_timers (fold f xs w) = w_timers w) \<and> sv_jobs (view (w_store (fold f xs w))) = sv_jobs (view (w_store w)) \<and>
      (\<forall>k. k \<notin> vm_ID ` set xs \<longrightarrow> sv_vms (view (w_store (fold f xs w))) k = sv_vms (view (w_store w)) k) \<and>
      (\<forall>v\<in>set xs. don v (fold f xs w)) \<and>
      (\<forall>u\<in>set vs. vm_ID u \<notin> vm_ID ` set xs \<longrightarrow> don u w \<longrightarrow> don u (fold f xs w))"
    if "set xs \<subseteq> set vs" "sinv (w_store w)" "distinct (map vm_ID xs)" "\<forall>v\<in>set xs. todo v w" for xs w
    using that
  proof (induction xs arbitrary: w)
    case (Cons v xs)
    have v: "v \<in> set vs" and xs: "set xs \<subseteq> set vs" "distinct (map vm_ID xs)" and new: "vm_ID v \<notin> vm_ID ` set xs"
      using Cons.prems(1,3) by auto
    have jf: "job_frame view sinv (vm_ID v) w (f v w)" and d: "don v (f v w)"
      using step [OF v Cons.prems(2)] Cons.prems(4) by auto
    have other: "todo u w \<longrightarrow> todo u (f v w)" "don u w \<longrightarrow> don u (f v w)" if "u \<in> set vs" "vm_ID u \<noteq> vm_ID v" for u
      using keep [OF that(1) v that(2) jf] by blast+
    have td: "\<forall>u\<in>set xs. todo u (f v w)"
    proof
      fix u assume u: "u \<in> set xs"
      then have "vm_ID u \<noteq> vm_ID v" using new by (metis image_eqI)
      with u xs(1) Cons.prems(4) show "todo u (f v w)" using other(1) by auto
    qed
    have "sinv (w_store (f v w))" using jf by (simp add: job_frame_def)
    note ih = Cons.IH [OF xs(1) this xs(2) td]
    show ?case
    proof (intro conjI)
      show "sinv (w_store (fold f (v # xs) w))" using ih by simp
      show "w_sched (fold f (v # xs) w) = w_sched w" "w_timers (fold f (v # xs) w) = w_timers w"
        using ih jf by (simp_all add: job_frame_def)
      show "sv_jobs (view (w_store (fold f (v # xs) w))) = sv_jobs (view (w_store w))"
        using ih jf by (simp add: job_frame_def)
      show "\<forall>k. k \<notin> vm_ID ` set (v # xs) \<longrightarrow> sv_vms (view (w_store (fold f (v # xs) w))) k = sv_vms (view (w_store w)) k"
        using ih jf by (simp add: job_frame_def)
      show "\<forall>u\<in>set (v # xs). don u (fold f (v # xs) w)" using ih d v new by simp
      show "\<forall>u\<in>set vs. vm_ID u \<notin> vm_ID ` set (v # xs) \<longrightarrow> don u w \<longrightarrow> don u (fold f (v # xs) w)"
        using ih other(2) by simp
    qed
  qed simp
  from this [OF subset_refl assms(3-5)] show ?thesis unfolding w'_def by blast
qed

section \<open>The environment of a job\<close>

definition conn_errors :: "'c conn_ops \<Rightarrow> (goerr \<Rightarrow> bool) \<Rightarrow> bool" where
  "conn_errors co E \<longleftrightarrow> (\<forall>n m p q t c spec sz e c'.
     co_DomainState co n c = (Inl e, c') \<or> co_StartDomain co n c = (Inl e, c') \<or>
     co_ShutdownDomain co n c = (Inl e, c') \<or> co_RebootDomain co n c = (Inl e, c') \<or>
     co_DestroyDomain co n c = (Inl e, c') \<or> co_UndefineDomain co n c = (Inl e, c') \<or>
     co_DefineDomain co n c = (Inl e, c') \<or> co_UpdateInterface co n m c = (Inl e, c') \<or>
     co_CreateVolume co spec c = (Inl e, c') \<or> co_DeleteVolume co n m c = (Inl e, c') \<or>
     co_ResizeVolume co n m sz c = (Inl e, c') \<or> co_AddDHCPHost co n m p q c = (Inl e, c') \<or>
     co_RemoveDHCPHost co n m c = (Inl e, c') \<or> co_CreateSnapshot co t n m p c = (Inl e, c') \<or>
     co_DeleteSnapshot co n m c = (Inl e, c') \<or> co_RevertSnapshot co n m c = (Inl e, c') \<longrightarrow> E e)"

definition os_errors :: "'f os_ops \<Rightarrow> (goerr \<Rightarrow> bool) \<Rightarrow> bool" where
  "os_errors os E \<longleftrightarrow> (\<forall>p q n m l e f f'.
     os_Remove os p f = (Inl e, f') \<or> os_MkdirTemp os f = (Inl e, f') \<or> os_RemoveAll os p f = (Inl e, f') \<or>
     os_Chmod os p n f = (Inl e, f') \<or> iso_Create os p n m f = (Inl e, f') \<or>
     iso_CreateFilesystem os p q l f = (Inl e, f') \<or> iso_OpenFile os p q f = (Inl e, f') \<or>
     iso_Write os p q l f = (Inl e, f') \<or> iso_Finalize os p q f = (Inl e, f') \<longrightarrow> E e)"

definition xml_errors :: "xml_marshal \<Rightarrow> (goerr \<Rightarrow> bool) \<Rightarrow> bool" where
  "xml_errors xm E \<longleftrightarrow> (\<forall>d ifc e. xm_Domain xm d = Inl e \<or> xm_Interface xm ifc = Inl e \<longrightarrow> E e)"

locale job_env = service_store S view sinv
  for S :: "('s, 'c, 'f) Service" and view :: "'s \<Rightarrow> store_view" and sinv :: "'s \<Rightarrow> bool" +
  fixes E :: "goerr \<Rightarrow> bool"
  assumes E_plain: "E (errors_New m)"
    and E_wrap: "E e \<Longrightarrow> E (wrap_err p e)"
    and E_sentinel: "s \<noteq> ContextCanceled \<Longrightarrow> E (sentinel_err s) \<and> E (detail_err s d)"
    and E_store: "sinv st \<Longrightarrow> so_GetVM (sv_store S) i st = (Inl e, st') \<or>
      so_UpdateVM (sv_store S) now v st = (Inl e, st') \<or>
      so_AllocateIP (sv_store S) now n i' m cs st = (Inl e, st') \<or>
      so_ListVMs (sv_store S) st = (Inl e, st') \<Longrightarrow> E e"
    and E_conn: "conn_errors (sv_conn S) E"
    and E_os: "os_errors (sv_os S) E"
    and E_xml: "xml_errors (sv_xml S) E"
begin

abbreviation "jf \<equiv> job_frame view sinv"
abbreviation "safe \<equiv> run_safe view sinv E"

lemma jf_sinv: "jf i w w1 \<Longrightarrow> sinv (w_store w1)"
  by (simp add: job_frame_def)

lemma E_simps: "E (errors_New m)" "E e \<Longrightarrow> E (wrap_err p e)" "s \<noteq> ContextCanceled \<Longrightarrow> E (sentinel_err s)"
  "s \<noteq> ContextCanceled \<Longrightarrow> E (detail_err s d)"
  using E_plain E_wrap E_sentinel by blast+

lemma E_stores:
  assumes "sinv st"
  shows "so_GetVM (sv_store S) i st = (Inl e, st') \<Longrightarrow> E e"
    "so_UpdateVM (sv_store S) now v st = (Inl e, st') \<Longrightarrow> E e"
    "so_AllocateIP (sv_store S) now n i m cs st = (Inl e, st') \<Longrightarrow> E e"
    "so_ListVMs (sv_store S) st = (Inl e, st') \<Longrightarrow> E e"
  by (rule E_store [OF assms], blast)+

lemma safe_on_conn:
  "jf i w w1 \<Longrightarrow> (\<And>c e c'. f c = (Inl e, c') \<Longrightarrow> E e) \<Longrightarrow> safe i w (on_conn f w1)"
  by (auto simp: run_safe_def on_conn_def split: prod.splits elim: job_frame_same_store)

lemma safe_on_fs:
  "jf i w w1 \<Longrightarrow> (\<And>c e c'. f c = (Inl e, c') \<Longrightarrow> E e) \<Longrightarrow> safe i w (on_fs f w1)"
  by (auto simp: run_safe_def on_fs_def split: prod.splits elim: job_frame_same_store)

lemma frame_view:
  assumes "jf i w w1" "sinv (w_store w2)" "store_frame w1 w2"
    and "sv_jobs (view (w_store w2)) = sv_jobs (view (w_store w1))"
    and "sv_idem (view (w_store w2)) = sv_idem (view (w_store w1))"
    and "\<And>k. k \<noteq> i \<Longrightarrow> sv_vms (view (w_store w2)) k = sv_vms (view (w_store w1)) k"
    and "sv_vms (view (w_store w2)) i = None \<longleftrightarrow> sv_vms (view (w_store w1)) i = None"
    and "\<And>k v. v \<noteq> i \<Longrightarrow> sv_ips (view (w_store w2)) k = Some v \<longleftrightarrow> sv_ips (view (w_store w1)) k = Some v"
  shows "jf i w w2"
  using assms(1,2,4-8) store_frameD(5,6) [OF assms(3)] unfolding job_frame_def by simp

lemma safe_UpdateVM:
  assumes "jf i w w1" "vm_ID v = i"
  shows "safe i w (st_UpdateVM S v w1)"
proof -
  obtain r w2 where u: "st_UpdateVM S v w1 = (r, w2)" by (cases "st_UpdateVM S v w1")
  note law = st_UpdateVM_law [OF u jf_sinv [OF assms(1)]]
  have "jf i w w2"
    by (rule frame_view [OF assms(1) _ st_frame(4) [OF u]]) (use law assms(2) in \<open>cases r; auto\<close>)+
  moreover have "E e" if "r = Inl e" for e
    using u that
    by (auto simp: st_UpdateVM_def on_store_def time_Now_def split: prod.splits dest: E_stores [OF jf_sinv [OF assms(1)]])
  ultimately show ?thesis by (simp add: run_safe_def u)
qed

lemma safe_GetVM:
  assumes "jf i w w1"
  shows "safe i w (st_GetVM S i w1)"
proof -
  obtain r w2 where u: "st_GetVM S i w1 = (r, w2)" by (cases "st_GetVM S i w1")
  note law = st_GetVM_law [OF u jf_sinv [OF assms(1)]]
  have "jf i w w2"
    by (rule frame_view [OF assms(1) _ st_frame(2) [OF u]]) (use law in \<open>auto\<close>)
  moreover have "E e" if "r = Inl e" for e
    using u that
    by (auto simp: st_GetVM_def on_store_def split: prod.splits dest: E_stores [OF jf_sinv [OF assms(1)]])
  ultimately show ?thesis by (simp add: run_safe_def u)
qed

lemma GetVM_id: "jf i w w1 \<Longrightarrow> st_GetVM S i w1 = (Inr v, w2) \<Longrightarrow> vm_ID v = i"
  by (drule st_GetVM_law, erule jf_sinv) simp

text \<open>The call with which every operation on a VM begins.\<close>

lemma safe_load:
  assumes "jf i w w1"
    and "\<And>v w2. st_GetVM S i w1 = (Inr v, w2) \<Longrightarrow> jf i w w2 \<Longrightarrow> vm_ID v = i \<Longrightarrow> safe i w (g v w2)"
  shows "safe i w (case st_GetVM S i w1 of (Inl e, w2) \<Rightarrow> (Inl e, w2) | (Inr v, w2) \<Rightarrow> g v w2)"
  by (rule safe_case [OF safe_GetVM [OF assms(1)]]) (auto intro: safe_error assms(2) GetVM_id [OF assms(1)])

lemma safe_AllocateIP:
  assumes "jf i w w1"
  shows "safe i w (st_AllocateIP S n i m cs w1)"
proof -
  obtain r w2 where u: "st_AllocateIP S n i m cs w1 = (r, w2)" by (cases "st_AllocateIP S n i m cs w1")
  note law = st_AllocateIP_law [OF u jf_sinv [OF assms(1)]]
  have "jf i w w2"
    by (rule frame_view [OF assms(1) _ st_frame(5) [OF u]]) (use law in \<open>cases r; auto\<close>)+
  moreover have "E e" if "r = Inl e" for e
    using u that
    by (auto simp: st_AllocateIP_def on_store_def time_Now_def split: prod.splits dest: E_stores [OF jf_sinv [OF assms(1)]])
  ultimately show ?thesis by (simp add: run_safe_def u)
qed

lemma frame_ReleaseIP:
  assumes "jf i w w1"
  shows "jf i w (snd (st_ReleaseIPByVM S i w1))"
proof -
  obtain r w2 where u: "st_ReleaseIPByVM S i w1 = (r, w2)" by (cases "st_ReleaseIPByVM S i w1")
  note law = st_ReleaseIPByVM_law [OF u jf_sinv [OF assms(1)]]
  have "jf i w w2"
    by (rule frame_view [OF assms(1) _ st_frame(6) [OF u]]) (use law in \<open>cases r; auto\<close>)+
  then show ?thesis by (simp add: u)
qed

subsection \<open>Calls on the hypervisor and the file system\<close>

lemma E_conns:
  "co_DomainState (sv_conn S) n c = (Inl e, c') \<Longrightarrow> E e" "co_StartDomain (sv_conn S) n c = (Inl e, c') \<Longrightarrow> E e"
  "co_ShutdownDomain (sv_conn S) n c = (Inl e, c') \<Longrightarrow> E e" "co_RebootDomain (sv_conn S) n c = (Inl e, c') \<Longrightarrow> E e"
  "co_DestroyDomain (sv_conn S) n c = (Inl e, c') \<Longrightarrow> E e" "co_UndefineDomain (sv_conn S) n c = (Inl e, c') \<Longrightarrow> E e"
  "co_DefineDomain (sv_conn S) n c = (Inl e, c') \<Longrightarrow> E e" "co_UpdateInterface (sv_conn S) n m c = (Inl e, c') \<Longrightarrow> E e"
  "co_CreateVolume (sv_conn S) spec c = (Inl e, c') \<Longrightarrow> E e" "co_DeleteVolume (sv_conn S) n m c = (Inl e, c') \<Longrightarrow> E e"
  "co_ResizeVolume (sv_conn S) n m sz c = (Inl e, c') \<Longrightarrow> E e"
  "co_AddDHCPHost (sv_conn S) n m p q c = (Inl e, c') \<Longrightarrow> E e"
  "co_RemoveDHCPHost (sv_conn S) n m c = (Inl e, c') \<Longrightarrow> E e"
  "co_CreateSnapshot (sv_conn S) t n m p c = (Inl e, c') \<Longrightarrow> E e"
  "co_DeleteSnapshot (sv_conn S) n m c = (Inl e, c') \<Longrightarrow> E e"
  "co_RevertSnapshot (sv_conn S) n m c = (Inl e, c') \<Longrightarrow> E e"
  by (rule E_conn [unfolded conn_errors_def, rule_format], blast)+

lemma E_oss:
  "os_Remove (sv_os S) p f = (Inl e, f') \<Longrightarrow> E e" "os_MkdirTemp (sv_os S) f = (Inl e, f') \<Longrightarrow> E e"
  "os_RemoveAll (sv_os S) p f = (Inl e, f') \<Longrightarrow> E e" "os_Chmod (sv_os S) p n f = (Inl e, f') \<Longrightarrow> E e"
  "iso_Create (sv_os S) p n m f = (Inl e, f') \<Longrightarrow> E e" "iso_CreateFilesystem (sv_os S) p q l f = (Inl e, f') \<Longrightarrow> E e"
  "iso_OpenFile (sv_os S) p q f = (Inl e, f') \<Longrightarrow> E e" "iso_Write (sv_os S) p q l f = (Inl e, f') \<Longrightarrow> E e"
  "iso_Finalize (sv_os S) p q f = (Inl e, f') \<Longrightarrow> E e"
  by (rule E_os [unfolded os_errors_def, rule_format], blast)+

lemma E_xmls: "xm_Domain (sv_xml S) d = Inl e \<Longrightarrow> E e" "xm_Interface (sv_xml S) ifc = Inl e \<Longrightarrow> E e"
  using E_xml unfolding xml_errors_def by blast+

lemma safe_calls:
  assumes "jf i w w1"
  shows
    "safe i w (on_conn (co_DomainState (sv_conn S) n) w1)"
    "safe i w (on_conn (co_StartDomain (sv_conn S) n) w1)"
    "safe i w (on_conn (co_ShutdownDomain (sv_conn S) n) w1)"
    "safe i w (on_conn (co_RebootDomain (sv_conn S) n) w1)"
    "safe i w (on_conn (co_DestroyDomain (sv_conn S) n) w1)"
    "safe i w (on_conn (co_UndefineDomain (sv_conn S) n) w1)"
    "safe i w (on_conn (co_DefineDomain (sv_conn S) n) w1)"
    "safe i w (on_conn (co_UpdateInterface (sv_conn S) n m) w1)"
    "safe i w (on_conn (co_CreateVolume (sv_conn S) spec) w1)"
    "safe i w (on_conn (co_DeleteVolume (sv_conn S) n m) w1)"
    "safe i w (on_conn (co_ResizeVolume (sv_conn S) n m sz) w1)"
    "safe i w (on_conn (co_AddDHCPHost (sv_conn S) n m p q) w1)"
    "safe i w (on_conn (co_RemoveDHCPHost (sv_conn S) n m) w1)"
    "safe i w (on_conn (co_CreateSnapshot (sv_conn S) t n m p) w1)"
    "safe i w (on_conn (co_DeleteSnapshot (sv_conn S) n m) w1)"
    "safe i w (on_conn (co_RevertSnapshot (sv_conn S) n m) w1)"
    "safe i w (on_fs (os_Remove (sv_os S) p) w1)"
    "safe i w (on_fs (os_MkdirTemp (sv_os S)) w1)"
    "safe i w (on_fs (os_RemoveAll (sv_os S) p) w1)"
    "safe i w (on_fs (os_Chmod (sv_os S) p l) w1)"
    "safe i w (on_fs (iso_Create (sv_os S) p l l') w1)"
    "safe i w (on_fs (iso_CreateFilesystem (sv_os S) p q m) w1)"
    "safe i w (on_fs (iso_OpenFile (sv_os S) p q) w1)"
    "safe i w (on_fs (iso_Write (sv_os S) p q m) w1)"
    "safe i w (on_fs (iso_Finalize (sv_os S) p q) w1)"
  by (rule safe_on_conn [OF assms], erule E_conns | rule safe_on_fs [OF assms], erule E_oss)+

lemma jf_ignore: "safe i w p \<Longrightarrow> jf i w (ignore_err p)"
  by (simp add: run_safe_def ignore_err_def split: prod.splits)

subsection \<open>The network manager\<close>

lemma frame_generateMAC:
  assumes "jf i w w1"
  shows "safe i w (generateMAC w1)"
proof -
  have "jf i w (snd (generateMAC w1))"
    by (rule job_frame_same_store [OF assms])
      (auto simp: generateMAC_def rand_Read_def split: prod.splits sum.splits)
  then show ?thesis
    by (auto simp: run_safe_def generateMAC_def rand_Read_def E_plain split: prod.splits sum.splits)
qed

lemma subnetHosts_err: "subnetHosts cidr n = Inl e \<Longrightarrow> E e"
  by (auto simp: subnetHosts_def Let_def E_plain split: option.splits)

lemma frame_ignore_ReleaseIP: "jf i w w1 \<Longrightarrow> jf i w (ignore_err (st_ReleaseIPByVM S i w1))"
  using frame_ReleaseIP by (simp add: ignore_err_def case_prod_beta)

lemma safe_nat_Allocate: "jf i w w1 \<Longrightarrow> safe i w (nat_Allocate S n i h w1)"
  unfolding nat_Allocate_def
  by (assumption | rule frame_rules frame_generateMAC safe_AllocateIP safe_calls E_simps frame_ignore_ReleaseIP
    | erule subnetHosts_err)+

lemma expandCIDRHosts_err: "expandCIDRHosts c = Some (Inl e) \<Longrightarrow> E e"
  by (auto simp: expandCIDRHosts_def Let_def E_plain split: option.splits if_splits)

lemma expandPool_loop_err: "expandPool_loop g n out es = Some (Inl e) \<Longrightarrow> E e"
  by (induction es arbitrary: out)
    (auto simp: E_plain split: option.splits sum.splits if_splits dest: expandCIDRHosts_err)

lemma safe_bridge_Allocate:
  assumes "bridge_Allocate S n i h w1 = Some p" "jf i w w1"
  shows "safe i w p"
proof -
  obtain r w2 where m: "generateMAC w1 = (r, w2)" by (cases "generateMAC w1")
  have s: "safe i w (r, w2)" using frame_generateMAC [OF assms(2)] by (simp add: m)
  then have f: "jf i w w2" by (simp add: run_safe_def)
  show ?thesis
  proof (cases "\<exists>mac cs. r = Inr mac \<and> expandPool (nw_IPPool n) (nw_Gateway n) maxCandidates = Some (Inr cs) \<and> cs \<noteq> []")
    case True
    then obtain mac cs where "r = Inr mac" "expandPool (nw_IPPool n) (nw_Gateway n) maxCandidates = Some (Inr cs)"
      "cs \<noteq> []" by blast
    then have "p = (case st_AllocateIP S (nw_ID n) i mac cs w2 of (Inl e, w2) \<Rightarrow> (Inl e, w2)
      | (Inr ip, w2) \<Rightarrow> (Inr \<lparr>at_NetworkID = nw_ID n, at_Mode = NetworkModeBridge, at_MAC = mac, at_IP = ip,
               at_Gateway = nw_Gateway n, at_Netmask = nw_Netmask n, at_Source = nw_Bridge n,
               at_VLAN = nw_VLAN n, at_Static = True,
               at_AddressCIDR = ip @ ''/'' @ prefixFromNetmask (nw_Netmask n),
               at_Nameservers = nw_DNS n\<rparr>, w2))"
      using assms(1) by (auto simp: bridge_Allocate_def m split: prod.splits sum.splits)
    then show ?thesis
      using f by (simp only:) (assumption | rule frame_rules safe_AllocateIP)+
  next
    case False
    then show ?thesis
      using assms(1) f s
      by (auto simp: bridge_Allocate_def m run_safe_def expandPool_def E_plain
          split: sum.splits option.splits if_splits dest: expandPool_loop_err)
  qed
qed

lemma safe_manager_Allocate:
  assumes "manager_Allocate S net i h w1 = Some p" "jf i w w1"
  shows "safe i w p"
proof (cases "sv_network S net")
  case None
  then show ?thesis using assms E_simps(3,4) by (auto simp: manager_Allocate_def run_safe_def)
next
  case (Some st)
  then show ?thesis
    using assms safe_nat_Allocate safe_bridge_Allocate by (cases st) (auto simp: manager_Allocate_def)
qed

lemma frame_nat_Release: "jf i w w1 \<Longrightarrow> jf i w (snd (nat_Release S n i m w1))"
proof -
  assume f: "jf i w w1"
  define w2 where "w2 = (if m \<noteq> [] then snd (on_conn (co_RemoveDHCPHost (sv_conn S) (nw_LibvirtNetwork n) m) w1) else w1)"
  have "jf i w w2"
    unfolding w2_def by (rule frame_if run_safe_frame safe_calls f)+
  moreover have "snd (nat_Release S n i m w1) = snd (st_ReleaseIPByVM S i w2)"
    by (auto simp: nat_Release_def w2_def split: prod.splits sum.splits option.splits)
  ultimately show ?thesis using frame_ReleaseIP by simp
qed

lemma frame_manager_Release: "jf i w w1 \<Longrightarrow> jf i w (ignore_err (manager_Release S net i m w1))"
proof (cases "sv_network S net")
  case None
  then show "jf i w w1 \<Longrightarrow> ?thesis" by (simp add: manager_Release_def)
next
  case (Some st)
  then show "jf i w w1 \<Longrightarrow> ?thesis"
    using frame_nat_Release frame_ReleaseIP
    by (cases st) (auto simp: manager_Release_def bridge_Release_def ignore_err_def case_prod_beta)
qed

subsection \<open>Provisioning\<close>

lemma safe_write_seed_files: "jf i w w1 \<Longrightarrow> safe i w (write_seed_files S path fs w1)"
  by (induction fs arbitrary: w1) (simp_all only: write_seed_files.simps,
    (assumption | rule frame_rules safe_calls E_simps | simp)+)

lemma safe_fill_seed: "jf i w w1 \<Longrightarrow> safe i w (fill_seed S path fs wd w1)"
  unfolding fill_seed_def
  by (assumption | rule frame_rules safe_calls E_simps safe_write_seed_files)+

lemma safe_BuildSeedISO: "jf i w w1 \<Longrightarrow> safe i w (BuildSeedISO S path fs w1)"
proof -
  assume f: "jf i w w1"
  obtain r w2 where rm: "on_fs (os_Remove (sv_os S) path) w1 = (r, w2)"
    by (cases "on_fs (os_Remove (sv_os S) path) w1")
  have s: "safe i w (r, w2)" unfolding rm [symmetric] by (rule safe_calls f)+
  have rest: "safe i w (case fill_seed S path fs wd w4 of
      (r, w5) \<Rightarrow> (r, ignore_err (on_fs (os_RemoveAll (sv_os S) wd) w5)))" if "jf i w w4" for wd w4
  proof (cases "fill_seed S path fs wd w4")
    case (Pair r w5)
    have *: "safe i w (r, w5)" unfolding Pair [symmetric] by (rule safe_fill_seed [OF that])
    then have "jf i w (ignore_err (on_fs (os_RemoveAll (sv_os S) wd) w5))"
      by (intro jf_ignore safe_calls) (simp add: run_safe_def)
    with * show ?thesis by (simp add: Pair run_safe_def)
  qed
  from s have f2: "jf i w w2" by (simp add: run_safe_def)
  from s have e: "E e" if "r = Inl e" for e using that by (simp add: run_safe_def)
  show ?thesis
    unfolding BuildSeedISO_def rm Let_def prod.case
    by (assumption | rule frame_rules safe_calls E_simps rest f2 | simp add: E_wrap e f2 split: sum.splits if_splits)+
qed

lemma safe_Prepare: "jf i w w1 \<Longrightarrow> safe i w (Prepare S req w1)"
  unfolding Prepare_def CreateOverlay_def
  by (assumption | rule frame_rules safe_calls E_simps safe_BuildSeedISO)+

lemma Render_err: "Render (sv_xml S) spec = Inl e \<Longrightarrow> E e"
  by (auto simp: Render_def validate_spec_def validateInterface_def E_plain split: sum.splits if_splits dest: E_xmls)

lemma RenderInterface_err: "RenderInterface (sv_xml S) spec = Inl e \<Longrightarrow> E e"
  by (auto simp: RenderInterface_def validateInterface_def E_plain split: sum.splits if_splits dest: E_xmls)

end

section \<open>The agent's environments\<close>

text \<open>Dependencies that never report a cancellation. The context of a job is cancelled only at
  shutdown, and of the calls a job makes only those on the database watch it.\<close>

definition uncancelled :: "goerr \<Rightarrow> bool" where
  "uncancelled e \<longleftrightarrow> \<not> errors_Is e ContextCanceled"

definition quiet_deps :: "('s, 'c, 'f) Service \<Rightarrow> bool" where
  "quiet_deps S \<longleftrightarrow> conn_errors (sv_conn S) uncancelled \<and> os_errors (sv_os S) uncancelled \<and>
     xml_errors (sv_xml S) uncancelled"

interpretation anyrun: job_env "S\<lparr>sv_store := sqlite_ops\<rparr>" sqlite_view sqlite_inv "\<lambda>_. True"
  for S :: "(SQLiteStore, 'c, 'f) Service"
  by unfold_locales (simp_all add: conn_errors_def os_errors_def xml_errors_def)

lemma sqlite_uncancelled:
  "sqlite_calm s \<Longrightarrow> so_GetVM sqlite_ops i s = (Inl e, s') \<or> so_UpdateVM sqlite_ops now v s = (Inl e, s') \<or>
   so_AllocateIP sqlite_ops now n i' m cs s = (Inl e, s') \<or> so_ListVMs sqlite_ops s = (Inl e, s') \<Longrightarrow> uncancelled e"
  unfolding uncancelled_def by (elim disjE) (erule sqlite.calm_errors, blast)+

interpretation calmrun: job_env "S\<lparr>sv_store := sqlite_ops\<rparr>" sqlite_view "\<lambda>s. sqlite_inv s \<and> sqlite_calm s"
    "\<lambda>e. quiet_deps S \<longrightarrow> uncancelled e"
  for S :: "(SQLiteStore, 'c, 'f) Service"
proof -
  have "service_store (S\<lparr>sv_store := sqlite_ops\<rparr>) sqlite_view (\<lambda>s. sqlite_inv s \<and> sqlite_calm s)"
    unfolding service_store_def by (simp add: sqlite.store_api_calm)
  moreover have "job_env_axioms (S\<lparr>sv_store := sqlite_ops\<rparr>) (\<lambda>s. sqlite_inv s \<and> sqlite_calm s)
      (\<lambda>e. quiet_deps S \<longrightarrow> uncancelled e)"
  proof (unfold_locales, goal_cases)
    case (4 st i e st' now v n i' m cs)
    then show ?case using sqlite_uncancelled [of st i e st'] by simp
  qed (auto simp: uncancelled_def quiet_deps_def conn_errors_def os_errors_def xml_errors_def)
  ultimately show "job_env (S\<lparr>sv_store := sqlite_ops\<rparr>) sqlite_view (\<lambda>s. sqlite_inv s \<and> sqlite_calm s)
      (\<lambda>e. quiet_deps S \<longrightarrow> uncancelled e)"
    by (rule job_env.intro)
qed

end
