(* ===== verification/VmValidate.thy ===== *)
theory VmValidate
  imports World
begin

text \<open>
  Request validation (\<open>internal/vm/validate.go\<close>). The hostname check is the code's regular
  expression, transcribed into the datatype \<open>re\<close> and matched with derivatives; it is proved to
  accept exactly the names made of dot-separated labels of 1 to 63 letters, digits and hyphens
  that neither start nor end with a hyphen. The SSH key parser is a parameter of the service.
\<close>

section \<open>Regular expressions\<close>

datatype re = Fail | Eps | Cls "char \<Rightarrow> bool" | Seq re re | Alt re re | Star re

fun Upto :: "nat \<Rightarrow> re \<Rightarrow> re" where
  \<comment> \<open>\<open>r{0,n}\<close>\<close>
  "Upto 0 r = Eps"
| "Upto (Suc n) r = Alt Eps (Seq r (Upto n r))"

fun nullable :: "re \<Rightarrow> bool" where
  "nullable Fail = False"
| "nullable Eps = True"
| "nullable (Cls p) = False"
| "nullable (Seq r s) = (nullable r \<and> nullable s)"
| "nullable (Alt r s) = (nullable r \<or> nullable s)"
| "nullable (Star r) = True"

fun deriv :: "char \<Rightarrow> re \<Rightarrow> re" where
  "deriv c Fail = Fail"
| "deriv c Eps = Fail"
| "deriv c (Cls p) = (if p c then Eps else Fail)"
| "deriv c (Seq r s) = (if nullable r then Alt (Seq (deriv c r) s) (deriv c s) else Seq (deriv c r) s)"
| "deriv c (Alt r s) = Alt (deriv c r) (deriv c s)"
| "deriv c (Star r) = Seq (deriv c r) (Star r)"

definition MatchString :: "re \<Rightarrow> string \<Rightarrow> bool" where
  \<comment> \<open>an expression anchored at both ends\<close>
  "MatchString r s = nullable (fold deriv s r)"

inductive in_re :: "re \<Rightarrow> string \<Rightarrow> bool" where
  eps: "in_re Eps []"
| cls: "p c \<Longrightarrow> in_re (Cls p) [c]"
| seq: "in_re r u \<Longrightarrow> in_re s v \<Longrightarrow> in_re (Seq r s) (u @ v)"
| altl: "in_re r u \<Longrightarrow> in_re (Alt r s) u"
| altr: "in_re s u \<Longrightarrow> in_re (Alt r s) u"
| star0: "in_re (Star r) []"
| star: "in_re r u \<Longrightarrow> in_re (Star r) v \<Longrightarrow> in_re (Star r) (u @ v)"

inductive_simps in_re_simps [simp]: "in_re Fail s" "in_re Eps s" "in_re (Cls p) s" "in_re (Alt r t) s"
inductive_cases in_re_SeqE: "in_re (Seq r t) s"
inductive_cases in_re_StarE: "in_re (Star r) s"

lemma nullable_iff: "nullable r \<longleftrightarrow> in_re r []"
proof (induction r)
  case (Seq r s)
  then show ?case by (auto elim!: in_re_SeqE intro: in_re.seq [of _ "[]" _ "[]", simplified])
qed (auto intro: in_re.intros)

lemma star_Cons:
  assumes "in_re (Star r) w" "w = c # s"
  shows "\<exists>u v. s = u @ v \<and> in_re r (c # u) \<and> in_re (Star r) v"
  using assms
proof (induction "Star r" w arbitrary: s rule: in_re.induct)
  case (star u v)
  then show ?case by (cases u) auto
qed auto

lemma deriv_iff: "in_re (deriv c r) s \<longleftrightarrow> in_re r (c # s)"
proof (induction r arbitrary: s)
  case (Seq r1 r2)
  show ?case
  proof
    assume "in_re (deriv c (Seq r1 r2)) s"
    then show "in_re (Seq r1 r2) (c # s)"
      using Seq by (auto split: if_splits elim!: in_re_SeqE simp: nullable_iff
          intro: in_re.seq [of _ "[]", simplified] in_re.seq [of _ "c # u" for u, simplified])
  next
    assume "in_re (Seq r1 r2) (c # s)"
    then obtain u v where uv: "c # s = u @ v" "in_re r1 u" "in_re r2 v" by (auto elim: in_re_SeqE)
    show "in_re (deriv c (Seq r1 r2)) s"
    proof (cases u)
      case Nil
      then show ?thesis using uv Seq by (simp add: nullable_iff)
    next
      case (Cons d us)
      then show ?thesis using uv Seq by (auto intro: in_re.seq)
    qed
  qed
next
  case (Star r)
  show ?case
  proof
    assume "in_re (deriv c (Star r)) s"
    then show "in_re (Star r) (c # s)"
      using Star by (auto elim!: in_re_SeqE intro: in_re.star [of _ "c # u" for u, simplified])
  next
    assume "in_re (Star r) (c # s)"
    then obtain u v where "s = u @ v" "in_re r (c # u)" "in_re (Star r) v" using star_Cons by blast
    then show "in_re (deriv c (Star r)) s" using Star by (auto intro: in_re.seq)
  qed
qed auto

lemma MatchString_iff: "MatchString r s \<longleftrightarrow> in_re r s"
proof -
  have "nullable (fold deriv s r) \<longleftrightarrow> in_re r s"
    by (induction s arbitrary: r) (simp_all add: nullable_iff deriv_iff)
  then show ?thesis by (simp add: MatchString_def)
qed

lemma in_re_Upto_Cls: "in_re (Upto n (Cls p)) s \<longleftrightarrow> length s \<le> n \<and> (\<forall>c\<in>set s. p c)"
proof (induction n arbitrary: s)
  case (Suc n)
  show ?case
  proof (cases s)
    case (Cons c t)
    have "in_re (Seq (Cls p) (Upto n (Cls p))) (c # t) \<longleftrightarrow> p c \<and> in_re (Upto n (Cls p)) t"
      by (auto elim!: in_re_SeqE intro: in_re.seq [of "Cls p" "[c]", simplified])
    then show ?thesis using Suc Cons by auto
  qed (simp)
qed auto

section \<open>The checks\<close>

definition alnum :: "char \<Rightarrow> bool" where
  "alnum c \<longleftrightarrow> (CHR ''a'' \<le> c \<and> c \<le> CHR ''z'') \<or> (CHR ''A'' \<le> c \<and> c \<le> CHR ''Z'') \<or>
     (CHR ''0'' \<le> c \<and> c \<le> CHR ''9'')"

definition alnum_hyphen :: "char \<Rightarrow> bool" where
  "alnum_hyphen c \<longleftrightarrow> alnum c \<or> c = CHR ''-''"

definition label_re :: re where
  "label_re = Seq (Cls alnum) (Alt Eps (Seq (Upto 61 (Cls alnum_hyphen)) (Cls alnum)))"

definition hostnameRE :: re where
  "hostnameRE = Seq label_re (Star (Seq (Cls (\<lambda>c. c = CHR ''.'')) label_re))"

definition validateHostname :: "string \<Rightarrow> unit res" where
  "validateHostname h =
     (if length h = 0 \<or> length h > 253 \<or> \<not> MatchString hostnameRE h then
        Inl (detail_err ErrInvalidRequest ''hostname must be a valid RFC 1123 hostname (letters, digits, hyphens, dots)'')
      else Inr ())"

definition validatePassword :: "string \<Rightarrow> unit res" where
  "validatePassword p =
     (if p = [] then Inr ()
      else if length p > 256 then Inl (detail_err ErrInvalidRequest ''password is too long (max 256 bytes)'')
      else if \<exists>r\<in>set p. (of_char r :: nat) < 0x20 \<or> (of_char r :: nat) = 0x7F then
        Inl (detail_err ErrInvalidRequest ''password must not contain control characters'')
      else Inr ())"

fun validateSSHKeys_loop :: "(string \<Rightarrow> bool) \<Rightarrow> nat \<Rightarrow> string list \<Rightarrow> unit res" where
  "validateSSHKeys_loop ok i [] = Inr ()"
| "validateSSHKeys_loop ok i (k0 # ks) =
     (let k = TrimSpace k0; pre = ''ssh_keys['' @ dec_of_nat i @ '']''
      in if k = [] then Inl (detail_err ErrInvalidRequest (pre @ '' is empty''))
         else if CHR 0x0A \<in> set k \<or> CHR 0x0D \<in> set k then
           Inl (detail_err ErrInvalidRequest (pre @ '' must be a single line''))
         else if \<not> ok k then Inl (detail_err ErrInvalidRequest (pre @ '' is not a valid SSH public key''))
         else validateSSHKeys_loop ok (Suc i) ks)"

definition validateSSHKeys :: "(string \<Rightarrow> bool) \<Rightarrow> string list \<Rightarrow> unit res" where
  "validateSSHKeys ok keys = validateSSHKeys_loop ok 0 keys"

section \<open>What the hostname check accepts\<close>

definition label_ok :: "string \<Rightarrow> bool" where
  "label_ok l \<longleftrightarrow> l \<noteq> [] \<and> length l \<le> 63 \<and> alnum (hd l) \<and> alnum (last l) \<and> (\<forall>c\<in>set l. alnum_hyphen c)"

lemma alnum_hyphenI: "alnum c \<Longrightarrow> alnum_hyphen c"
  by (simp add: alnum_hyphen_def)

lemma in_label_re: "in_re label_re l \<longleftrightarrow> label_ok l"
proof
  assume "in_re label_re l"
  then show "label_ok l"
    by (auto simp: label_re_def label_ok_def in_re_Upto_Cls alnum_hyphenI elim!: in_re_SeqE)
next
  assume l: "label_ok l"
  then obtain c t where ct: "l = c # t" "alnum c" "\<forall>d\<in>set t. alnum_hyphen d" "length t \<le> 62"
    by (cases l) (auto simp: label_ok_def)
  have "in_re (Alt Eps (Seq (Upto 61 (Cls alnum_hyphen)) (Cls alnum))) t"
  proof (cases t rule: rev_cases)
    case (snoc m d)
    then have "alnum d" using l ct by (simp add: label_ok_def)
    then have "in_re (Seq (Upto 61 (Cls alnum_hyphen)) (Cls alnum)) (m @ [d])"
      using ct snoc by (intro in_re.seq) (auto simp: in_re_Upto_Cls)
    then show ?thesis using snoc by simp
  qed simp
  then show "in_re label_re l"
    using ct in_re.seq [of "Cls alnum" "[c]"] by (simp add: label_re_def)
qed

lemma dot_not_label: "label_ok l \<Longrightarrow> CHR ''.'' \<notin> set l"
  by (auto simp: label_ok_def alnum_hyphen_def alnum_def less_eq_char_def)

lemma split_on_absent: "d \<notin> set u \<Longrightarrow> split_on d u = [u]"
  by (induction u) auto

lemma split_on_Cons_first: "d \<notin> set u \<Longrightarrow> split_on d (u @ d # v) = u # split_on d v"
  by (induction u) auto

lemma split_on_ne [simp]: "split_on d s \<noteq> []"
  by (cases s) (auto split: list.splits)

lemma split_on_concat: "s = hd (split_on d s) @ concat (map ((#) d) (tl (split_on d s)))"
proof (induction s)
  case (Cons c s)
  then show ?case by (cases "split_on d s") auto
qed simp

lemma in_dotted_star:
  assumes "in_re (Star (Seq (Cls (\<lambda>c. c = CHR ''.'')) label_re)) w"
  shows "w = [] \<or> (\<exists>v. w = CHR ''.'' # v \<and> (\<forall>l\<in>set (split_on (CHR ''.'') v). label_ok l))"
  using assms
proof (induction "Star (Seq (Cls (\<lambda>c. c = CHR ''.'')) label_re)" w rule: in_re.induct)
  case (star u w')
  then obtain l where l: "u = CHR ''.'' # l" "label_ok l"
    by (auto elim!: in_re_SeqE simp: in_label_re)
  from star.hyps(3) show ?case
  proof
    assume "w' = []"
    then show ?thesis using l by (simp add: split_on_absent dot_not_label)
  next
    assume "\<exists>v. w' = CHR ''.'' # v \<and> (\<forall>l\<in>set (split_on (CHR ''.'') v). label_ok l)"
    then show ?thesis using l by (auto simp: split_on_Cons_first dot_not_label)
  qed
qed simp

lemma dotted_star_in:
  "\<forall>l\<in>set ls. label_ok l \<Longrightarrow>
   in_re (Star (Seq (Cls (\<lambda>c. c = CHR ''.'')) label_re)) (concat (map ((#) (CHR ''.'')) ls))"
proof (induction ls)
  case (Cons l ls)
  have "in_re (Seq (Cls (\<lambda>c. c = CHR ''.'')) label_re) ([CHR ''.''] @ l)"
    using Cons.prems by (intro in_re.seq) (simp_all add: in_label_re)
  then show ?case using Cons in_re.star [of _ "CHR ''.'' # l"] by simp
qed (simp add: in_re.star0)

lemma in_hostnameRE: "in_re hostnameRE h \<longleftrightarrow> (\<forall>l\<in>set (split_on (CHR ''.'') h). label_ok l)"
proof
  assume "in_re hostnameRE h"
  then obtain l w where l: "h = l @ w" "label_ok l" "in_re (Star (Seq (Cls (\<lambda>c. c = CHR ''.'')) label_re)) w"
    by (auto simp: hostnameRE_def in_label_re elim!: in_re_SeqE)
  from in_dotted_star [OF l(3)] l show "\<forall>l\<in>set (split_on (CHR ''.'') h). label_ok l"
    by (auto simp: split_on_absent split_on_Cons_first dot_not_label)
next
  assume h: "\<forall>l\<in>set (split_on (CHR ''.'') h). label_ok l"
  let ?ls = "split_on (CHR ''.'') h"
  have "set ?ls = insert (hd ?ls) (set (tl ?ls))" by (cases ?ls) simp_all
  then have "in_re hostnameRE (hd ?ls @ concat (map ((#) (CHR ''.'')) (tl ?ls)))"
    unfolding hostnameRE_def using h by (intro in_re.seq) (auto simp: in_label_re intro: dotted_star_in)
  then show "in_re hostnameRE h" using split_on_concat [of h "CHR ''.''"] by simp
qed

section \<open>Properties\<close>

text \<open>(C35) The regular expression is RFC 1123: a hostname is accepted exactly when it is not
  empty, has at most 253 bytes, and each of its dot-separated labels has 1 to 63 letters, digits
  and hyphens and neither starts nor ends with a hyphen.\<close>

theorem validateHostname_iff:
  "validateHostname h = Inr () \<longleftrightarrow> h \<noteq> [] \<and> length h \<le> 253 \<and>
     (\<forall>l \<in> set (split_on (CHR ''.'') h). label_ok l)"
  by (auto simp: validateHostname_def MatchString_iff in_hostnameRE)

theorem validateHostname_iff_witness:
  "validateHostname ''web-1.example.org'' = Inr () \<and> validateHostname ''web-.example'' \<noteq> Inr ()"
proof -
  have "\<forall>l \<in> set (split_on (CHR ''.'') ''web-1.example.org''). label_ok l"
    "\<not> (\<forall>l \<in> set (split_on (CHR ''.'') ''web-.example''). label_ok l)"
    by (simp_all add: label_ok_def alnum_def alnum_hyphen_def less_eq_char_def)
  then show ?thesis
    using validateHostname_iff [of "''web-1.example.org''"] validateHostname_iff [of "''web-.example''"] by auto
qed

end
