(* ===== verification/VmService.thy ===== *)
theory VmService
  imports JobFrame VmValidate
begin

text \<open>
  \<open>internal/vm/service.go\<close>, \<open>model.go\<close> and \<open>host.go\<close>: creating, listing, reading and
  terminating VMs, the resolution of networks, capacity accounting and admission.

  A request handler returns \<open>'a res\<close> and the world; the part of an operation that a worker
  runs (\<open>run...\<close>) does the same, except \<open>runCreate\<close>, which is \<open>None\<close> when the expansion of a
  pool does not return. \<open>float64\<close> values are rational numbers here: the arithmetic is exact.
\<close>

unbundle bit_operations_syntax

section \<open>Requests and views\<close>

definition gib :: "64 word" where
  "gib = push_bit 30 1"

record NetworkRequest =
  nr_NetworkID :: string
  nr_Mode :: string

record CreateRequest =
  cr_FlavorID :: string
  cr_ImageID :: string
  cr_Hostname :: string
  cr_Password :: string
  cr_SSHKeys :: "string list"
  cr_Network :: NetworkRequest
  cr_TrafficQuotaGB :: "int option"

record StatusInfo =
  si_ID :: string
  si_Status :: VMStatus
  si_PowerState :: PowerState

record ListOptions =
  lo_Limit :: int
  lo_Offset :: int
  lo_Status :: string
  lo_NetworkID :: string

record ListResult =
  lr_VMs :: "VM list"
  lr_Total :: int
  lr_Limit :: int
  lr_Offset :: int

definition defaultListLimit :: int where "defaultListLimit = 100"
definition maxListLimit :: int where "maxListLimit = 500"

record HostReport =
  hr_Hostname :: string
  hr_LibvirtVersion :: string
  hr_CPUCores :: int
  hr_CommittedVCPUs :: int
  hr_MemoryTotalMB :: "64 word"
  hr_MemoryFreeMB :: "64 word"
  hr_CommittedMemMB :: "64 word"
  hr_StorageTotalGB :: "64 word"
  hr_StorageFreeGB :: "64 word"
  hr_CommittedDiskGB :: "64 word"
  hr_VMCount :: int
  hr_RunningCount :: int

record commitment =
  cm_vms :: int
  cm_running :: int
  cm_vcpus :: int
  cm_memMB :: "64 word"
  cm_diskGB :: "64 word"

section \<open>Capacity\<close>

definition zero_commitment :: commitment where
  "zero_commitment = \<lparr>cm_vms = 0, cm_running = 0, cm_vcpus = 0, cm_memMB = 0, cm_diskGB = 0\<rparr>"

definition commit_vm :: "VM \<Rightarrow> commitment \<Rightarrow> commitment" where
  "commit_vm v c =
     (if vm_Status v = VMStatusTerminated then c
      else c\<lparr>cm_vms := cm_vms c + 1, cm_vcpus := cm_vcpus c + vm_VCPUs v,
        cm_memMB := cm_memMB c + word_of_int (vm_MemoryMB v),
        cm_diskGB := cm_diskGB c + word_of_int (vm_DiskGB v),
        cm_running := (if vm_Status v = VMStatusRunning then cm_running c + 1 else cm_running c)\<rparr>)"

definition committed :: "('s, 'c, 'f) Service \<Rightarrow> ('s, 'c, 'f) world \<Rightarrow> commitment res \<times> ('s, 'c, 'f) world" where
  "committed S w = (case st_ListVMs S w of
     (Inl e, w1) \<Rightarrow> (Inl e, w1)
   | (Inr vms, w1) \<Rightarrow> (Inr (fold commit_vm vms zero_commitment), w1))"

definition Service_HostReport :: "('s, 'c, 'f) Service \<Rightarrow> ('s, 'c, 'f) world \<Rightarrow> HostReport res \<times> ('s, 'c, 'f) world" where
  "Service_HostReport S w = (case on_conn (co_HostInfo (sv_conn S) (lv_StoragePool (cfg_Libvirt (sv_cfg S)))) w of
     (Inl e, w1) \<Rightarrow> (Inl e, w1)
   | (Inr hi, w1) \<Rightarrow> (case committed S w1 of
       (Inl e, w2) \<Rightarrow> (Inl e, w2)
     | (Inr c, w2) \<Rightarrow>
         (Inr \<lparr>hr_Hostname = hi_Hostname hi, hr_LibvirtVersion = hi_LibvirtVersion hi,
            hr_CPUCores = hi_CPUs hi, hr_CommittedVCPUs = cm_vcpus c,
            hr_MemoryTotalMB = drop_bit 20 (hi_MemoryTotalBytes hi),
            hr_MemoryFreeMB = drop_bit 20 (hi_MemoryFreeBytes hi), hr_CommittedMemMB = cm_memMB c,
            hr_StorageTotalGB = drop_bit 30 (hi_StorageBytes hi),
            hr_StorageFreeGB = drop_bit 30 (hi_StorageFreeBytes hi), hr_CommittedDiskGB = cm_diskGB c,
            hr_VMCount = cm_vms c, hr_RunningCount = cm_running c\<rparr>, w2)))"

text \<open>The verb \<open>%0.f\<close>: the nearest integer, a half to the even neighbour.\<close>

definition round_half_even :: "rat \<Rightarrow> int" where
  "round_half_even r =
     (let f = \<lfloor>r\<rfloor>; d = r - of_int f
      in if d < 1 / 2 then f else if d > 1 / 2 then f + 1 else if even f then f else f + 1)"

definition fmt_f0 :: "rat \<Rightarrow> string" where
  "fmt_f0 r = (if r < 0 then ''-'' else []) @ dec_of_nat (nat (round_half_even \<bar>r\<bar>))"

definition admit :: "('s, 'c, 'f) Service \<Rightarrow> Flavor \<Rightarrow> ('s, 'c, 'f) world \<Rightarrow> unit res \<times> ('s, 'c, 'f) world" where
  "admit S flavor w =
     (let cap = cfg_Capacity (sv_cfg S)
      in case committed S w of
           (Inl e, w1) \<Rightarrow> (Inl e, w1)
         | (Inr c, w1) \<Rightarrow>
             if cap_MaxVMs cap > 0 \<and> cm_vms c \<ge> cap_MaxVMs cap then
               (Inl (detail_err ErrInsufficientCapacity (''host VM limit ('' @ Itoa (cap_MaxVMs cap) @ '') reached'')), w1)
             else if cap_MemOvercommit cap \<le> 0 \<and> cap_CPUOvercommit cap \<le> 0 then (Inr (), w1)
             else case on_conn (co_HostInfo (sv_conn S) (lv_StoragePool (cfg_Libvirt (sv_cfg S)))) w1 of
               (Inl e, w2) \<Rightarrow> (Inr (), w2)
             | (Inr hi, w2) \<Rightarrow>
                 let totalMB = of_int (uint (drop_bit 20 (hi_MemoryTotalBytes hi)));
                     allowedMem = (totalMB - of_int (cap_ReservedMemoryMB cap)) * cap_MemOvercommit cap;
                     allowedCPU = of_int (hi_CPUs hi) * cap_CPUOvercommit cap
                 in if cap_MemOvercommit cap > 0 \<and>
                       of_int (uint (cm_memMB c)) + of_int (fl_MemoryMB flavor) > allowedMem then
                      (Inl (detail_err ErrInsufficientCapacity (''not enough memory (committed '' @
                         dec_of_nat (unat (cm_memMB c)) @ '' MB + '' @ Itoa (fl_MemoryMB flavor) @ '' MB > '' @
                         fmt_f0 allowedMem @ '' MB allowed)'')), w2)
                    else if cap_CPUOvercommit cap > 0 \<and>
                       of_int (cm_vcpus c) + of_int (fl_VCPUs flavor) > allowedCPU then
                      (Inl (detail_err ErrInsufficientCapacity (''not enough vCPU (committed '' @
                         Itoa (cm_vcpus c) @ '' + '' @ Itoa (fl_VCPUs flavor) @ '' > '' @
                         fmt_f0 allowedCPU @ '' allowed)'')), w2)
                    else (Inr (), w2))"

section \<open>Networks and domain descriptions\<close>

fun first_of_mode :: "string \<Rightarrow> Network option \<Rightarrow> Network list \<Rightarrow> Network option" where
  "first_of_mode mode first [] = first"
| "first_of_mode mode first (n # ns) =
     (if nw_Mode n \<noteq> mode then first_of_mode mode first ns
      else if nw_Default n then Some n
      else first_of_mode mode (case first of None \<Rightarrow> Some n | Some _ \<Rightarrow> first) ns)"

definition resolveNetwork :: "Config \<Rightarrow> NetworkRequest \<Rightarrow> Network res" where
  "resolveNetwork cfg req =
     (if nr_NetworkID req \<noteq> [] then
        (case NetworkByID cfg (nr_NetworkID req) of
           None \<Rightarrow> Inl (detail_err ErrNetworkNotFound (nr_NetworkID req))
         | Some n \<Rightarrow> Inr n)
      else if nr_Mode req \<noteq> [] then
        (case first_of_mode (nr_Mode req) None (cfg_Networks cfg) of
           None \<Rightarrow> Inl (detail_err ErrNetworkNotFound (''no network with mode '' @ Quote (nr_Mode req)))
         | Some n \<Rightarrow> Inr n)
      else (case DefaultNetwork cfg of
           None \<Rightarrow> Inl (sentinel_err ErrNetworkNotFound)
         | Some d \<Rightarrow> Inr d))"

definition flavorBandwidth :: "('s, 'c, 'f) Service \<Rightarrow> string \<Rightarrow> int" where
  "flavorBandwidth S flavorID =
     (case cat_Flavor (sv_catalog S) flavorID of None \<Rightarrow> 0 | Some f \<Rightarrow> fl_BandwidthMbps f)"

definition networkAttachmentFor :: "('s, 'c, 'f) Service \<Rightarrow> VM \<Rightarrow> NetworkAttachment" where
  "networkAttachmentFor S v =
     (let n = NetworkByID (sv_cfg S) (vm_NetworkID v)
      in if vm_NetworkMode v = NetworkBridge
         then \<lparr>na_Mode = ModeBridge, na_Source = (case n of None \<Rightarrow> [] | Some n \<Rightarrow> nw_Bridge n),
               na_VLAN = (case n of None \<Rightarrow> 0 | Some n \<Rightarrow> nw_VLAN n)\<rparr>
         else \<lparr>na_Mode = ModeNAT, na_Source = (case n of None \<Rightarrow> [] | Some n \<Rightarrow> nw_LibvirtNetwork n),
               na_VLAN = 0\<rparr>)"

definition buildDomainSpec :: "('s, 'c, 'f) Service \<Rightarrow> VM \<Rightarrow> Spec" where
  "buildDomainSpec S v = \<lparr>sp_Name = vm_DomainName v, sp_UUID = [], sp_VCPUs = vm_VCPUs v,
     sp_MemoryMB = vm_MemoryMB v, sp_DiskPath = vm_DiskPath v, sp_SeedPath = vm_SeedPath v,
     sp_MAC = vm_MAC v, sp_Network = networkAttachmentFor S v,
     sp_BandwidthMbps = flavorBandwidth S (vm_FlavorID v), sp_LinkDown = vm_NetworkBlocked v,
     sp_VNCListen = []\<rparr>"

section \<open>Reading\<close>

fun mapPowerState :: "DomainState \<Rightarrow> PowerState" where
  "mapPowerState StateRunning = PowerRunning"
| "mapPowerState StateShutoff = PowerShutoff"
| "mapPowerState StatePaused = PowerPaused"
| "mapPowerState StateUnknown = PowerUnknown"

definition conn_state :: "('s, 'c, 'f) Service \<Rightarrow> VM \<Rightarrow> ('s, 'c, 'f) world \<Rightarrow> DomainState res \<times> ('s, 'c, 'f) world" where
  "conn_state S v w = on_conn (co_DomainState (sv_conn S) (vm_DomainName v)) w"

definition reconcilePower :: "('s, 'c, 'f) Service \<Rightarrow> VM \<Rightarrow> ('s, 'c, 'f) world \<Rightarrow> VM \<times> ('s, 'c, 'f) world" where
  "reconcilePower S v w =
     (if vm_Status v = VMStatusTerminated then (v, w)
      else case conn_state S v w of
        (Inl _, w1) \<Rightarrow> (v, w1)
      | (Inr state, w1) \<Rightarrow> (v\<lparr>vm_PowerState := mapPowerState state\<rparr>, w1))"

definition Get :: "('s, 'c, 'f) Service \<Rightarrow> string \<Rightarrow> ('s, 'c, 'f) world \<Rightarrow> VM res \<times> ('s, 'c, 'f) world" where
  "Get S i w = (case st_GetVM S i w of
     (Inl e, w1) \<Rightarrow> (Inl (if errors_Is e ErrNotFound then sentinel_err ErrVMNotFound else e), w1)
   | (Inr v, w1) \<Rightarrow> (case reconcilePower S v w1 of (v', w2) \<Rightarrow> (Inr v', w2)))"

definition Status :: "('s, 'c, 'f) Service \<Rightarrow> string \<Rightarrow> ('s, 'c, 'f) world \<Rightarrow> StatusInfo res \<times> ('s, 'c, 'f) world" where
  "Status S i w = (case Get S i w of
     (Inl e, w1) \<Rightarrow> (Inl e, w1)
   | (Inr v, w1) \<Rightarrow> (Inr \<lparr>si_ID = vm_ID v, si_Status = vm_Status v, si_PowerState = vm_PowerState v\<rparr>, w1))"

text \<open>The bulk reading: a later entry for a name overwrites an earlier one.\<close>

definition state_by_name :: "DomainStats list \<Rightarrow> string \<rightharpoonup> DomainState" where
  "state_by_name stats = fold (\<lambda>st m. m(ds_Name st \<mapsto> ds_State st)) stats Map.empty"

definition refresh_power :: "(string \<rightharpoonup> DomainState) \<Rightarrow> VM \<Rightarrow> VM" where
  "refresh_power byName v =
     (if vm_Status v = VMStatusTerminated then v
      else case byName (vm_DomainName v) of
        None \<Rightarrow> v | Some st \<Rightarrow> v\<lparr>vm_PowerState := mapPowerState st\<rparr>)"

definition batchReconcilePower :: "('s, 'c, 'f) Service \<Rightarrow> VM list \<Rightarrow> ('s, 'c, 'f) world
    \<Rightarrow> VM list \<times> ('s, 'c, 'f) world" where
  "batchReconcilePower S vms w =
     (if vms = [] then (vms, w)
      else case on_conn (co_AllDomainStats (sv_conn S)) w of
        (Inl _, w1) \<Rightarrow> (vms, w1)
      | (Inr stats, w1) \<Rightarrow> (map (refresh_power (state_by_name stats)) vms, w1))"

definition list_keep :: "ListOptions \<Rightarrow> VM \<Rightarrow> bool" where
  "list_keep opts v \<longleftrightarrow>
     \<not> (lo_Status opts \<noteq> [] \<and> VMStatus_text (vm_Status v) \<noteq> lo_Status opts) \<and>
     \<not> (lo_NetworkID opts \<noteq> [] \<and> vm_NetworkID v \<noteq> lo_NetworkID opts)"

definition List :: "('s, 'c, 'f) Service \<Rightarrow> ListOptions \<Rightarrow> ('s, 'c, 'f) world \<Rightarrow> ListResult res \<times> ('s, 'c, 'f) world" where
  "List S opts w = (case st_ListVMs S w of
     (Inl e, w1) \<Rightarrow> (Inl e, w1)
   | (Inr all, w1) \<Rightarrow>
       let filtered = filter (list_keep opts) all;
           total = int (length filtered);
           limit0 = (if lo_Limit opts \<le> 0 then defaultListLimit else lo_Limit opts);
           limit = (if limit0 > maxListLimit then maxListLimit else limit0);
           offset = (if lo_Offset opts < 0 then 0 else lo_Offset opts);
           page = (if offset < total
                   then let end0 = offset + limit; end1 = (if end0 > total then total else end0)
                        in take (nat (end1 - offset)) (drop (nat offset) filtered)
                   else [])
       in case batchReconcilePower S page w1 of
            (vms, w2) \<Rightarrow> (Inr \<lparr>lr_VMs = vms, lr_Total = total, lr_Limit = limit, lr_Offset = offset\<rparr>, w2))"

definition loadOperable :: "('s, 'c, 'f) Service \<Rightarrow> string \<Rightarrow> ('s, 'c, 'f) world \<Rightarrow> VM res \<times> ('s, 'c, 'f) world" where
  "loadOperable S i w = (case st_GetVM S i w of
     (Inl e, w1) \<Rightarrow> (Inl (if errors_Is e ErrNotFound then sentinel_err ErrVMNotFound else e), w1)
   | (Inr v, w1) \<Rightarrow>
       if vm_Status v = VMStatusTerminated then (Inl (sentinel_err ErrVMTerminated), w1) else (Inr v, w1))"

section \<open>Creating\<close>

text \<open>\<open>j := job.New(typ, id, ""); s.queue.Enqueue(ctx, j); return j\<close>, with which the handlers end.\<close>

definition enqueue_new :: "('s, 'c, 'f) Service \<Rightarrow> JobType \<Rightarrow> string \<Rightarrow> ('s, 'c, 'f) world \<Rightarrow> Job res \<times> ('s, 'c, 'f) world" where
  "enqueue_new S typ i w = (case job_New typ i [] w of (j, w1) \<Rightarrow> Enqueue S j w1)"

definition create_record :: "CreateRequest \<Rightarrow> Flavor \<Rightarrow> Image \<Rightarrow> Network \<Rightarrow> string \<Rightarrow> string \<Rightarrow> int \<Rightarrow> time \<Rightarrow> VM" where
  "create_record req flavor img netCfg i hostname quotaGB now =
     zero_VM\<lparr>vm_ID := i, vm_DomainName := ''kvm-'' @ i, vm_Hostname := hostname,
       vm_FlavorID := fl_ID flavor, vm_ImageID := img_ID img, vm_VCPUs := fl_VCPUs flavor,
       vm_MemoryMB := fl_MemoryMB flavor, vm_DiskGB := fl_DiskGB flavor, vm_NetworkID := nw_ID netCfg,
       vm_NetworkMode := nw_Mode netCfg, vm_Status := VMStatusProvisioning, vm_PowerState := PowerShutoff,
       vm_Password := cr_Password req, vm_SSHKeys := cr_SSHKeys req,
       vm_TrafficQuotaBytes := word_of_int quotaGB * gib, vm_TrafficPeriodStart := now\<rparr>"

text \<open>The checks of \<open>Create\<close> that need neither the store nor the hypervisor, in two groups: those
  before admission, and those after the id is drawn.\<close>

definition create_choices :: "('s, 'c, 'f) Service \<Rightarrow> CreateRequest \<Rightarrow> (Flavor \<times> Image \<times> Network) res" where
  "create_choices S req = (case cat_Flavor (sv_catalog S) (cr_FlavorID req) of
     None \<Rightarrow> Inl (detail_err ErrFlavorNotFound (cr_FlavorID req))
   | Some flavor \<Rightarrow> (case cat_Image (sv_catalog S) (cr_ImageID req) of
       None \<Rightarrow> Inl (detail_err ErrImageNotFound (cr_ImageID req))
     | Some img \<Rightarrow> (case resolveNetwork (sv_cfg S) (cr_Network req) of
         Inl e \<Rightarrow> Inl e
       | Inr netCfg \<Rightarrow> (case validatePassword (cr_Password req) of
           Inl e \<Rightarrow> Inl e
         | Inr _ \<Rightarrow> (case validateSSHKeys (sv_ssh_ok S) (cr_SSHKeys req) of
             Inl e \<Rightarrow> Inl e
           | Inr _ \<Rightarrow> Inr (flavor, img, netCfg))))))"

definition create_names :: "CreateRequest \<Rightarrow> Flavor \<Rightarrow> string \<Rightarrow> (string \<times> int) res" where
  "create_names req flavor i =
     (let hostname = TrimSpace (cr_Hostname req);
          checked = (if hostname = [] then Inr (''vm-'' @ take 8 i)
                     else case validateHostname hostname of Inl e \<Rightarrow> Inl e | Inr _ \<Rightarrow> Inr hostname)
      in case checked of
           Inl e \<Rightarrow> Inl e
         | Inr h \<Rightarrow> (case cr_TrafficQuotaGB req of
             None \<Rightarrow> Inr (h, fl_TrafficQuotaGB flavor)
           | Some q \<Rightarrow> if q < 0 then Inl (detail_err ErrInvalidRequest ''traffic_quota_gb must be >= 0'')
                       else Inr (h, q)))"

definition Create :: "('s, 'c, 'f) Service \<Rightarrow> CreateRequest \<Rightarrow> ('s, 'c, 'f) world \<Rightarrow> Job res \<times> ('s, 'c, 'f) world" where
  "Create S req w = (case create_choices S req of
     Inl e \<Rightarrow> (Inl e, w)
   | Inr (flavor, img, netCfg) \<Rightarrow> (case admit S flavor w of
       (Inl e, w1) \<Rightarrow> (Inl e, w1)
     | (Inr _, w1) \<Rightarrow> (case uuid_NewString w1 of (i, w2) \<Rightarrow> (case create_names req flavor i of
         Inl e \<Rightarrow> (Inl e, w2)
       | Inr (hostname, quotaGB) \<Rightarrow> (case time_Now w2 of (now, w3) \<Rightarrow>
           (case st_CreateVM S (create_record req flavor img netCfg i hostname quotaGB now) w3 of
              (Inl e, w4) \<Rightarrow> (Inl e, w4)
            | (Inr _, w4) \<Rightarrow> enqueue_new S JobCreate i w4))))))"

section \<open>Teardown and failure\<close>

definition teardownPartial :: "('s, 'c, 'f) Service \<Rightarrow> VM \<Rightarrow> string \<Rightarrow> ('s, 'c, 'f) world \<Rightarrow> ('s, 'c, 'f) world" where
  "teardownPartial S v mac w =
     (let w1 = ignore_err (on_conn (co_DestroyDomain (sv_conn S) (vm_DomainName v)) w);
          w2 = ignore_err (on_conn (co_UndefineDomain (sv_conn S) (vm_DomainName v)) w1);
          w3 = ignore_err (on_conn (co_DeleteVolume (sv_conn S) (lv_StoragePool (cfg_Libvirt (sv_cfg S)))
                 (vm_ID v @ ''.qcow2'')) w2);
          w4 = (if vm_SeedPath v \<noteq> [] then ignore_err (on_fs (os_Remove (sv_os S) (vm_SeedPath v)) w3) else w3)
      in ignore_err (manager_Release S (vm_NetworkID v) (vm_ID v) mac w4))"

definition failVM :: "('s, 'c, 'f) Service \<Rightarrow> VM \<Rightarrow> goerr \<Rightarrow> ('s, 'c, 'f) world \<Rightarrow> unit res \<times> ('s, 'c, 'f) world" where
  "failVM S v cause w = (Inl cause, ignore_err (st_UpdateVM S (v\<lparr>vm_Status := VMStatusError\<rparr>) w))"

definition failCreate :: "('s, 'c, 'f) Service \<Rightarrow> VM \<Rightarrow> string \<Rightarrow> goerr \<Rightarrow> ('s, 'c, 'f) world \<Rightarrow> unit res \<times> ('s, 'c, 'f) world" where
  "failCreate S v mac cause w = failVM S v cause (teardownPartial S v mac w)"

definition image_gone :: "VM \<Rightarrow> goerr" where
  "image_gone v = errors_New (''image '' @ Quote (vm_ImageID v) @ '' no longer configured'')"

text \<open>\<open>runCreate\<close> once the network is allocated: overlay and seed, domain description, start.\<close>

definition provision_vm :: "('s, 'c, 'f) Service \<Rightarrow> VM \<Rightarrow> Image \<Rightarrow> Attachment \<Rightarrow> ('s, 'c, 'f) world \<Rightarrow> unit res \<times> ('s, 'c, 'f) world" where
  "provision_vm S v img att w =
     (case Prepare S \<lparr>pr_ID = vm_ID v, pr_Hostname = vm_Hostname v, pr_DefaultUser = img_DefaultUser img,
         pr_Password = vm_Password v, pr_SSHKeys = vm_SSHKeys v, pr_BackingPath = img_BasePath img,
         pr_DiskBytes = word_of_int (vm_DiskGB v) * gib,
         pr_Network = \<lparr>nc_MAC = at_MAC att, nc_Static = at_Static att, nc_AddressCIDR = at_AddressCIDR att,
           nc_Gateway = at_Gateway att, nc_Nameservers = at_Nameservers att\<rparr>\<rparr> w of
        (Inl e, w1) \<Rightarrow> failCreate S v (at_MAC att) (wrap_err ''provision'' e) w1
      | (Inr art, w1) \<Rightarrow>
          let v1 = v\<lparr>vm_DiskPath := art_DiskPath art, vm_SeedPath := art_SeedPath art\<rparr>
          in case Render (sv_xml S) \<lparr>sp_Name = vm_DomainName v1, sp_UUID = [], sp_VCPUs = vm_VCPUs v1,
                sp_MemoryMB = vm_MemoryMB v1, sp_DiskPath = art_DiskPath art, sp_SeedPath = art_SeedPath art,
                sp_MAC = at_MAC att, sp_Network = \<lparr>na_Mode = at_Mode att, na_Source = at_Source att, na_VLAN = at_VLAN att\<rparr>,
                sp_BandwidthMbps = flavorBandwidth S (vm_FlavorID v1), sp_LinkDown = vm_NetworkBlocked v1,
                sp_VNCListen = []\<rparr> of
             Inl e \<Rightarrow> failCreate S v1 (at_MAC att) (wrap_err ''render domain xml'' e) w1
           | Inr xml \<Rightarrow> (case on_conn (co_DefineDomain (sv_conn S) xml) w1 of
               (Inl e, w2) \<Rightarrow> failCreate S v1 (at_MAC att) (wrap_err ''define domain'' e) w2
             | (Inr domUUID, w2) \<Rightarrow>
                 let v2 = v1\<lparr>vm_DomainUUID := domUUID\<rparr>
                 in case on_conn (co_StartDomain (sv_conn S) (vm_DomainName v2)) w2 of
                      (Inl e, w3) \<Rightarrow> failCreate S v2 (at_MAC att) (wrap_err ''start domain'' e) w3
                    | (Inr _, w3) \<Rightarrow>
                        st_UpdateVM S (v2\<lparr>vm_Status := VMStatusRunning, vm_PowerState := PowerRunning\<rparr>) w3))"

definition runCreate :: "('s, 'c, 'f) Service \<Rightarrow> string \<Rightarrow> ('s, 'c, 'f) world \<Rightarrow> (unit res \<times> ('s, 'c, 'f) world) option" where
  "runCreate S vmID w = (case st_GetVM S vmID w of
     (Inl e, w1) \<Rightarrow> Some (Inl e, w1)
   | (Inr v, w1) \<Rightarrow> (case cat_Image (sv_catalog S) (vm_ImageID v) of
       None \<Rightarrow> Some (failVM S v (image_gone v) w1)
     | Some img \<Rightarrow> (case manager_Allocate S (vm_NetworkID v) (vm_ID v) (vm_Hostname v) w1 of
         None \<Rightarrow> None
       | Some (Inl e, w2) \<Rightarrow> Some (failVM S v (wrap_err ''allocate network'' e) w2)
       | Some (Inr att, w2) \<Rightarrow>
           (let v1 = v\<lparr>vm_MAC := at_MAC att, vm_IP := at_IP att, vm_Gateway := at_Gateway att,
                  vm_Netmask := at_Netmask att\<rparr>
            in Some (provision_vm S v1 img att (ignore_err (st_UpdateVM S v1 w2)))))))"

definition Terminate :: "('s, 'c, 'f) Service \<Rightarrow> string \<Rightarrow> ('s, 'c, 'f) world \<Rightarrow> Job res \<times> ('s, 'c, 'f) world" where
  "Terminate S i w = (case st_GetVM S i w of
     (Inl e, w1) \<Rightarrow> (Inl (if errors_Is e ErrNotFound then sentinel_err ErrVMNotFound else e), w1)
   | (Inr _, w1) \<Rightarrow> enqueue_new S JobTerminate i w1)"

definition runTerminate :: "('s, 'c, 'f) Service \<Rightarrow> string \<Rightarrow> ('s, 'c, 'f) world \<Rightarrow> unit res \<times> ('s, 'c, 'f) world" where
  "runTerminate S vmID w = (case st_GetVM S vmID w of
     (Inl e, w1) \<Rightarrow> (Inl e, w1)
   | (Inr v, w1) \<Rightarrow>
       if vm_Status v = VMStatusTerminated then (Inr (), w1)
       else st_UpdateVM S (v\<lparr>vm_Status := VMStatusTerminated, vm_PowerState := PowerShutoff\<rparr>)
              (teardownPartial S v (vm_MAC v) w1))"

section \<open>What the operations touch\<close>

context job_env
begin

lemma safe_conn_state: "jf i w w1 \<Longrightarrow> safe i w (conn_state S v w1)"
  unfolding conn_state_def by (rule safe_calls)

lemma safe_state_case:
  assumes "jf i w w1" "\<And>r w2. conn_state S v w1 = (r, w2) \<Longrightarrow> jf i w w2 \<Longrightarrow> safe i w (q r w2)"
  shows "safe i w (case conn_state S v w1 of (r, w2) \<Rightarrow> q r w2)"
  using safe_conn_state [OF assms(1), of v] assms(2)
  by (cases "conn_state S v w1") (simp add: run_safe_def [of _ _ _ _ _ "(_, _)"])

lemma frame_teardown:
  assumes "jf i w w1" "vm_ID v = i"
  shows "jf i w (teardownPartial S v mac w1)"
  unfolding teardownPartial_def Let_def assms(2)
  by (rule frame_manager_Release frame_if jf_ignore safe_calls assms)+

lemma safe_failVM: "jf i w w1 \<Longrightarrow> vm_ID v = i \<Longrightarrow> E e \<Longrightarrow> safe i w (failVM S v e w1)"
  unfolding failVM_def by (rule safe_error jf_ignore safe_UpdateVM | simp)+

lemma safe_failCreate: "jf i w w1 \<Longrightarrow> vm_ID v = i \<Longrightarrow> E e \<Longrightarrow> safe i w (failCreate S v mac e w1)"
  unfolding failCreate_def by (intro safe_failVM frame_teardown)

lemma E_image_gone: "E (image_gone v)"
  by (simp add: image_gone_def E_plain)

lemmas vm_rules = safe_load safe_state_case frame_rules safe_UpdateVM safe_conn_state safe_failVM safe_failCreate frame_teardown
  safe_calls E_simps E_image_gone frame_if jf_ignore

lemma safe_provision_vm: "jf i w w1 \<Longrightarrow> vm_ID v = i \<Longrightarrow> safe i w (provision_vm S v img att w1)"
  unfolding provision_vm_def
  by (assumption | rule vm_rules safe_Prepare | erule Render_err | simp)+

lemma safe_runCreate: "jf i w w1 \<Longrightarrow> runCreate S i w1 = Some p \<Longrightarrow> safe i w p"
proof -
  assume f: "jf i w w1" and p: "runCreate S i w1 = Some p"
  obtain r w2 where g: "st_GetVM S i w1 = (r, w2)" by (cases "st_GetVM S i w1")
  have s: "safe i w (r, w2)" using safe_GetVM [OF f] by (simp add: g)
  then have f2: "jf i w w2" by (simp add: run_safe_def)
  show "safe i w p"
  proof (cases r)
    case (Inl e)
    then show ?thesis using s p by (auto simp: runCreate_def g run_safe_def)
  next
    case (Inr v)
    then have i: "vm_ID v = i" using GetVM_id [OF f] g by simp
    show ?thesis
    proof (cases "cat_Image (sv_catalog S) (vm_ImageID v)")
      case None
      then have "p = failVM S v (image_gone v) w2" using p Inr by (simp add: runCreate_def g)
      then show ?thesis using f2 i E_image_gone by (simp add: safe_failVM)
    next
      case (Some img)
      obtain ra w3 where a: "manager_Allocate S (vm_NetworkID v) i (vm_Hostname v) w2 = Some (ra, w3)"
        using p Inr Some by (auto simp: runCreate_def g i split: option.splits)
      have sa: "safe i w (ra, w3)" by (rule safe_manager_Allocate [OF a f2])
      then have f3: "jf i w w3" by (simp add: run_safe_def)
      show ?thesis
      proof (cases ra)
        case (Inl e)
        then have "p = failVM S v (wrap_err ''allocate network'' e) w3"
          using p Inr Some by (simp add: runCreate_def g i a)
        moreover have "E e" using sa Inl by (simp add: run_safe_def)
        ultimately show ?thesis using safe_failVM [OF f3 i E_wrap] by simp
      next
        case (Inr att)
        define v1 where "v1 = v\<lparr>vm_MAC := at_MAC att, vm_IP := at_IP att, vm_Gateway := at_Gateway att,
          vm_Netmask := at_Netmask att\<rparr>"
        have i1: "vm_ID v1 = i" by (simp add: v1_def i)
        have "p = provision_vm S v1 img att (ignore_err (st_UpdateVM S v1 w3))"
          using p \<open>r = Inr v\<close> Some Inr by (simp add: runCreate_def g i a v1_def Let_def)
        then show ?thesis using safe_provision_vm [OF jf_ignore [OF safe_UpdateVM [OF f3 i1]] i1] by simp
      qed
    qed
  qed
qed

lemma safe_runTerminate: "jf i w w1 \<Longrightarrow> safe i w (runTerminate S i w1)"
  unfolding runTerminate_def
  by (rule safe_load safe_if safe_return safe_UpdateVM frame_teardown | assumption | simp)+

end

end
