(* ===== verification/VmTraffic.thy ===== *)
theory VmTraffic
  imports VmService
begin

text \<open>
  Traffic accounting, quotas and network blocks (\<open>internal/vm/traffic.go\<close>) and the usage
  readings (\<open>stats.go\<close>). Byte counters are 64-bit words. The periodic loop
  (\<open>AccountTraffic\<close>) is a sequence of ticks.
\<close>

section \<open>Blocks\<close>

definition blockReasonQuota :: string where "blockReasonQuota = ''quota''"
definition blockReasonManual :: string where "blockReasonManual = ''manual''"

record TrafficInfo =
  ti_ID :: string
  ti_QuotaBytes :: "64 word"
  ti_UsedBytes :: "64 word"
  ti_Unlimited :: bool
  ti_Percent :: rat
  ti_PeriodStart :: time
  ti_Blocked :: bool
  ti_BlockReason :: string

definition trafficInfo :: "VM \<Rightarrow> TrafficInfo" where
  "trafficInfo v = \<lparr>ti_ID = vm_ID v, ti_QuotaBytes = vm_TrafficQuotaBytes v, ti_UsedBytes = vm_TrafficUsedBytes v,
     ti_Unlimited = (vm_TrafficQuotaBytes v = 0),
     ti_Percent = (if vm_TrafficQuotaBytes v > 0
       then of_int (uint (vm_TrafficUsedBytes v)) / of_int (uint (vm_TrafficQuotaBytes v)) * 100 else 0),
     ti_PeriodStart = vm_TrafficPeriodStart v, ti_Blocked = vm_NetworkBlocked v,
     ti_BlockReason = vm_NetworkBlockReason v\<rparr>"

definition TrafficUsage :: "('s, 'c, 'f) Service \<Rightarrow> string \<Rightarrow> ('s, 'c, 'f) world \<Rightarrow> TrafficInfo res \<times> ('s, 'c, 'f) world" where
  "TrafficUsage S i w = (case loadOperable S i w of
     (Inl e, w1) \<Rightarrow> (Inl e, w1)
   | (Inr v, w1) \<Rightarrow> (Inr (trafficInfo v), w1))"

definition applyLink :: "('s, 'c, 'f) Service \<Rightarrow> VM \<Rightarrow> ('s, 'c, 'f) world \<Rightarrow> unit res \<times> ('s, 'c, 'f) world" where
  "applyLink S v w = (case conn_state S v w of
     (Inl _, w1) \<Rightarrow> (Inr (), w1)
   | (Inr state, w1) \<Rightarrow>
       if mapPowerState state \<noteq> PowerRunning then (Inr (), w1)
       else case RenderInterface (sv_xml S) \<lparr>sp_Name = [], sp_UUID = [], sp_VCPUs = 0, sp_MemoryMB = 0,
              sp_DiskPath = [], sp_SeedPath = [], sp_MAC = vm_MAC v, sp_Network = networkAttachmentFor S v,
              sp_BandwidthMbps = flavorBandwidth S (vm_FlavorID v), sp_LinkDown = vm_NetworkBlocked v,
              sp_VNCListen = []\<rparr> of
         Inl e \<Rightarrow> (Inl e, w1)
       | Inr ifaceXML \<Rightarrow> on_conn (co_UpdateInterface (sv_conn S) (vm_DomainName v) ifaceXML) w1)"

definition unblocked :: "VM \<Rightarrow> VM" where
  "unblocked v = v\<lparr>vm_NetworkBlocked := False, vm_NetworkBlockReason := []\<rparr>"

definition reconcileQuota :: "('s, 'c, 'f) Service \<Rightarrow> VM \<Rightarrow> ('s, 'c, 'f) world \<Rightarrow> bool \<times> VM \<times> ('s, 'c, 'f) world" where
  "reconcileQuota S v w =
     (if vm_Status v = VMStatusTerminated then (False, v, w)
      else if vm_TrafficQuotaBytes v = 0 then
        (if vm_NetworkBlocked v \<and> vm_NetworkBlockReason v = blockReasonQuota
         then (True, unblocked v, ignore_err (applyLink S (unblocked v) w))
         else (False, v, w))
      else
        let over = vm_TrafficUsedBytes v \<ge> vm_TrafficQuotaBytes v
        in if over \<and> \<not> vm_NetworkBlocked v then
             let v1 = v\<lparr>vm_NetworkBlocked := True, vm_NetworkBlockReason := blockReasonQuota\<rparr>
             in (True, v1, ignore_err (applyLink S v1 w))
           else if \<not> over \<and> vm_NetworkBlocked v \<and> vm_NetworkBlockReason v = blockReasonQuota then
             (True, unblocked v, ignore_err (applyLink S (unblocked v) w))
           else (False, v, w))"

definition SetTrafficQuota :: "('s, 'c, 'f) Service \<Rightarrow> string \<Rightarrow> int \<Rightarrow> ('s, 'c, 'f) world \<Rightarrow> TrafficInfo res \<times> ('s, 'c, 'f) world" where
  "SetTrafficQuota S i quotaGB w =
     (if quotaGB < 0 then (Inl (detail_err ErrInvalidRequest ''quota_gb must be >= 0''), w)
      else case loadOperable S i w of
        (Inl e, w1) \<Rightarrow> (Inl e, w1)
      | (Inr v, w1) \<Rightarrow> (case reconcileQuota S (v\<lparr>vm_TrafficQuotaBytes := word_of_int quotaGB * gib\<rparr>) w1 of
          (changed, v1, w2) \<Rightarrow> (case st_UpdateVM S v1 w2 of
              (Inl e, w3) \<Rightarrow> (Inl e, w3)
            | (Inr _, w3) \<Rightarrow> (Inr (trafficInfo v1), w3))))"

definition enqueueVMJob :: "('s, 'c, 'f) Service \<Rightarrow> string \<Rightarrow> JobType \<Rightarrow> ('s, 'c, 'f) world \<Rightarrow> Job res \<times> ('s, 'c, 'f) world" where
  "enqueueVMJob S i typ w = (case loadOperable S i w of
     (Inl e, w1) \<Rightarrow> (Inl e, w1)
   | (Inr _, w1) \<Rightarrow> enqueue_new S typ i w1)"

definition BlockNetwork :: "('s, 'c, 'f) Service \<Rightarrow> string \<Rightarrow> ('s, 'c, 'f) world \<Rightarrow> Job res \<times> ('s, 'c, 'f) world" where
  "BlockNetwork S i w = enqueueVMJob S i JobNetBlock w"

definition UnblockNetwork :: "('s, 'c, 'f) Service \<Rightarrow> string \<Rightarrow> ('s, 'c, 'f) world \<Rightarrow> Job res \<times> ('s, 'c, 'f) world" where
  "UnblockNetwork S i w = enqueueVMJob S i JobNetUnblock w"

definition ResetTraffic :: "('s, 'c, 'f) Service \<Rightarrow> string \<Rightarrow> ('s, 'c, 'f) world \<Rightarrow> Job res \<times> ('s, 'c, 'f) world" where
  "ResetTraffic S i w = enqueueVMJob S i JobTrafficReset w"

definition runNetBlock :: "('s, 'c, 'f) Service \<Rightarrow> string \<Rightarrow> ('s, 'c, 'f) world \<Rightarrow> unit res \<times> ('s, 'c, 'f) world" where
  "runNetBlock S vmID w = (case st_GetVM S vmID w of
     (Inl e, w1) \<Rightarrow> (Inl e, w1)
   | (Inr v, w1) \<Rightarrow>
       let v1 = v\<lparr>vm_NetworkBlocked := True, vm_NetworkBlockReason := blockReasonManual\<rparr>
       in st_UpdateVM S v1 (ignore_err (applyLink S v1 w1)))"

definition runNetUnblock :: "('s, 'c, 'f) Service \<Rightarrow> string \<Rightarrow> ('s, 'c, 'f) world \<Rightarrow> unit res \<times> ('s, 'c, 'f) world" where
  "runNetUnblock S vmID w = (case st_GetVM S vmID w of
     (Inl e, w1) \<Rightarrow> (Inl e, w1)
   | (Inr v, w1) \<Rightarrow> st_UpdateVM S (unblocked v) (ignore_err (applyLink S (unblocked v) w1)))"

definition runTrafficReset :: "('s, 'c, 'f) Service \<Rightarrow> string \<Rightarrow> ('s, 'c, 'f) world \<Rightarrow> unit res \<times> ('s, 'c, 'f) world" where
  "runTrafficReset S vmID w = (case st_GetVM S vmID w of
     (Inl e, w1) \<Rightarrow> (Inl e, w1)
   | (Inr v, w1) \<Rightarrow> (case time_Now w1 of (now, w2) \<Rightarrow>
       let v1 = v\<lparr>vm_TrafficUsedBytes := 0, vm_TrafficPeriodStart := now\<rparr>;
           lift = (vm_NetworkBlocked v1 \<and> vm_NetworkBlockReason v1 = blockReasonQuota);
           v2 = (if lift then unblocked v1 else v1);
           w3 = (if lift then ignore_err (applyLink S v2 w2) else w2);
           w4 = w3\<lparr>w_trafficLast := (w_trafficLast w3)(vm_DomainName v2 := None)\<rparr>
       in st_UpdateVM S v2 w4))"

section \<open>Accounting\<close>

definition resetAwareDelta :: "64 word \<Rightarrow> 64 word \<Rightarrow> 64 word" where
  "resetAwareDelta prev cur = (if cur < prev then cur else cur - prev)"

definition stats_by_name :: "DomainStats list \<Rightarrow> string \<rightharpoonup> DomainStats" where
  "stats_by_name stats = fold (\<lambda>st m. m(ds_Name st \<mapsto> st)) stats Map.empty"

text \<open>One VM's share of a tick: the sample and the delta it adds.\<close>

definition sample_vm :: "(string \<rightharpoonup> DomainStats) \<Rightarrow> VM \<Rightarrow> ('s, 'c, 'f) world \<Rightarrow> 64 word \<times> ('s, 'c, 'f) world" where
  "sample_vm byDomain v w = (case byDomain (vm_DomainName v) of
     None \<Rightarrow> (0, w)
   | Some st \<Rightarrow>
       let w1 = w\<lparr>w_trafficLast := (w_trafficLast w)(vm_DomainName v \<mapsto> \<lparr>nc_rx = ds_NetRxBytes st, nc_tx = ds_NetTxBytes st\<rparr>)\<rparr>
       in case w_trafficLast w (vm_DomainName v) of
            None \<Rightarrow> (0, w1)
          | Some prev \<Rightarrow>
              (resetAwareDelta (nc_rx prev) (ds_NetRxBytes st) + resetAwareDelta (nc_tx prev) (ds_NetTxBytes st), w1))"

definition account_vm :: "('s, 'c, 'f) Service \<Rightarrow> (string \<rightharpoonup> DomainStats) \<Rightarrow> VM \<Rightarrow> ('s, 'c, 'f) world \<Rightarrow> ('s, 'c, 'f) world" where
  "account_vm S byDomain v w =
     (if vm_Status v = VMStatusTerminated then w
      else case sample_vm byDomain v w of (delta, w1) \<Rightarrow>
        (let v1 = (if delta > 0 then v\<lparr>vm_TrafficUsedBytes := vm_TrafficUsedBytes v + delta\<rparr> else v)
         in case reconcileQuota S v1 w1 of (blockChanged, v2, w2) \<Rightarrow>
              if delta > 0 \<or> blockChanged then ignore_err (st_UpdateVM S v2 w2) else w2))"

definition accountTick :: "('s, 'c, 'f) Service \<Rightarrow> ('s, 'c, 'f) world \<Rightarrow> ('s, 'c, 'f) world" where
  "accountTick S w = (case on_conn (co_AllDomainStats (sv_conn S)) w of
     (Inl _, w1) \<Rightarrow> w1
   | (Inr stats, w1) \<Rightarrow> (case st_ListVMs S w1 of
       (Inl _, w2) \<Rightarrow> w2
     | (Inr vms, w2) \<Rightarrow> fold (account_vm S (stats_by_name stats)) vms w2))"

text \<open>The period of the loop \<open>AccountTraffic\<close>. \<open>time.NewTicker\<close> panics on a period that is not positive.\<close>

definition account_interval :: "duration \<Rightarrow> duration" where
  "account_interval interval = (if interval \<le> 0 then minute else interval)"

lemma account_interval_pos: "0 < account_interval d"
  by (simp add: account_interval_def)

text \<open>The loop: rounds of \<open>accountTick\<close>, between which guests send and receive and the hypervisor moves on.
  The statistics a round reads are listed; a round that cannot read them changes nothing.\<close>

inductive AccountTraffic :: "('s, 'c, 'f) Service \<Rightarrow> ('s, 'c, 'f) world \<Rightarrow> DomainStats list list \<Rightarrow> ('s, 'c, 'f) world \<Rightarrow> bool"
  for S w where
  waits: "AccountTraffic S w [] w"
| ticks: "AccountTraffic S w readings w1 \<Longrightarrow> co_AllDomainStats (sv_conn S) c = (Inr stats, c') \<Longrightarrow>
    AccountTraffic S w (readings @ [stats]) (accountTick S (w1\<lparr>w_conn := c\<rparr>))"
| misses: "AccountTraffic S w readings w1 \<Longrightarrow> co_AllDomainStats (sv_conn S) c = (Inl e, c') \<Longrightarrow>
    AccountTraffic S w readings (accountTick S (w1\<lparr>w_conn := c\<rparr>))"

section \<open>Usage readings\<close>

record StatsInfo =
  sti_ID :: string
  sti_PowerState :: PowerState
  sti_CPUTimeNs :: "64 word"
  sti_CPUPercent :: rat
  sti_MemBalloonKiB :: "64 word"
  sti_MemRSSKiB :: "64 word"
  sti_NetRxBytes :: "64 word"
  sti_NetTxBytes :: "64 word"
  sti_NetRxBps :: rat
  sti_NetTxBps :: rat
  sti_BlockRdBytes :: "64 word"
  sti_BlockWrBytes :: "64 word"
  sti_BlockRdBps :: rat
  sti_BlockWrBps :: rat
  sti_BlockAllocationBytes :: "64 word"
  sti_BlockCapacityBytes :: "64 word"
  sti_IntervalSeconds :: rat

definition zero_StatsInfo :: StatsInfo where
  "zero_StatsInfo = \<lparr>sti_ID = [], sti_PowerState = PowerNone, sti_CPUTimeNs = 0, sti_CPUPercent = 0,
     sti_MemBalloonKiB = 0, sti_MemRSSKiB = 0, sti_NetRxBytes = 0, sti_NetTxBytes = 0, sti_NetRxBps = 0,
     sti_NetTxBps = 0, sti_BlockRdBytes = 0, sti_BlockWrBytes = 0, sti_BlockRdBps = 0, sti_BlockWrBps = 0,
     sti_BlockAllocationBytes = 0, sti_BlockCapacityBytes = 0, sti_IntervalSeconds = 0\<rparr>"

definition rate :: "64 word \<Rightarrow> 64 word \<Rightarrow> rat \<Rightarrow> rat" where
  "rate prev cur elapsed = (if cur < prev \<or> elapsed \<le> 0 then 0 else of_int (uint (cur - prev)) / elapsed)"

definition cpuPercent :: "64 word \<Rightarrow> 64 word \<Rightarrow> rat \<Rightarrow> int \<Rightarrow> rat" where
  "cpuPercent prevNs curNs elapsed vcpus =
     (if curNs < prevNs \<or> elapsed \<le> 0 \<or> vcpus \<le> 0 then 0
      else of_int (uint (curNs - prevNs)) / (elapsed * 1000000000 * of_int vcpus) * 100)"

text \<open>The reading of one domain against the previous one.\<close>

definition stats_reading :: "VM \<Rightarrow> DomainStats \<Rightarrow> time \<Rightarrow> statsSample option \<Rightarrow> StatsInfo" where
  "stats_reading v cur now prev =
     (let info = zero_StatsInfo\<lparr>sti_ID := vm_ID v, sti_PowerState := mapPowerState (ds_State cur),
            sti_CPUTimeNs := ds_CPUTimeNs cur, sti_MemBalloonKiB := ds_MemBalloonKiB cur,
            sti_MemRSSKiB := ds_MemRSSKiB cur, sti_NetRxBytes := ds_NetRxBytes cur,
            sti_NetTxBytes := ds_NetTxBytes cur, sti_BlockRdBytes := ds_BlockRdBytes cur,
            sti_BlockWrBytes := ds_BlockWrBytes cur, sti_BlockAllocationBytes := ds_BlockAllocation cur,
            sti_BlockCapacityBytes := ds_BlockCapacity cur\<rparr>
      in case prev of
           None \<Rightarrow> info
         | Some p \<Rightarrow>
             let elapsed = of_int (now - ss_t p) / of_int second
             in if elapsed > 0 then
                  info\<lparr>sti_IntervalSeconds := elapsed,
                    sti_CPUPercent := cpuPercent (ds_CPUTimeNs (ss_s p)) (ds_CPUTimeNs cur) elapsed (vm_VCPUs v),
                    sti_NetRxBps := rate (ds_NetRxBytes (ss_s p)) (ds_NetRxBytes cur) elapsed,
                    sti_NetTxBps := rate (ds_NetTxBytes (ss_s p)) (ds_NetTxBytes cur) elapsed,
                    sti_BlockRdBps := rate (ds_BlockRdBytes (ss_s p)) (ds_BlockRdBytes cur) elapsed,
                    sti_BlockWrBps := rate (ds_BlockWrBytes (ss_s p)) (ds_BlockWrBytes cur) elapsed\<rparr>
                else info)"

definition Stats :: "('s, 'c, 'f) Service \<Rightarrow> string \<Rightarrow> ('s, 'c, 'f) world \<Rightarrow> StatsInfo res \<times> ('s, 'c, 'f) world" where
  "Stats S i w = (case st_GetVM S i w of
     (Inl e, w1) \<Rightarrow> (Inl (if errors_Is e ErrNotFound then sentinel_err ErrVMNotFound else e), w1)
   | (Inr v, w1) \<Rightarrow> (case on_conn (co_AllDomainStats (sv_conn S)) w1 of
       (Inl e, w2) \<Rightarrow> (Inl e, w2)
     | (Inr all, w2) \<Rightarrow> (case find (\<lambda>st. ds_Name st = vm_DomainName v) all of
         None \<Rightarrow> (case reconcilePower S v w2 of (v1, w3) \<Rightarrow>
           (Inr (zero_StatsInfo\<lparr>sti_ID := vm_ID v1, sti_PowerState := vm_PowerState v1\<rparr>), w3))
       | Some cur \<Rightarrow> (case time_Now w2 of (now, w3) \<Rightarrow>
           (Inr (stats_reading v cur now (w_lastStats w3 (vm_DomainName v))),
            w3\<lparr>w_lastStats := (w_lastStats w3)(vm_DomainName v \<mapsto> \<lparr>ss_t = now, ss_s = cur\<rparr>)\<rparr>)))))"

section \<open>What the operations touch\<close>

context job_env
begin

lemma safe_applyLink: "jf i w w1 \<Longrightarrow> safe i w (applyLink S v w1)"
  unfolding applyLink_def by (assumption | rule vm_rules | erule RenderInterface_err)+

lemma unblocked_id [simp]: "vm_ID (unblocked v) = vm_ID v"
  by (simp add: unblocked_def)

lemma safe_runNetBlock: "jf i w w1 \<Longrightarrow> safe i w (runNetBlock S i w1)"
  unfolding runNetBlock_def by (assumption | rule vm_rules safe_applyLink | simp)+

lemma safe_runNetUnblock: "jf i w w1 \<Longrightarrow> safe i w (runNetUnblock S i w1)"
  unfolding runNetUnblock_def by (assumption | rule vm_rules safe_applyLink | simp)+

lemma frame_trafficLast: "jf i w w1 \<Longrightarrow> jf i w (w1\<lparr>w_trafficLast := m\<rparr>)"
  by (erule job_frame_same_store) simp_all

lemma safe_runTrafficReset: "jf i w w1 \<Longrightarrow> safe i w (runTrafficReset S i w1)"
  unfolding runTrafficReset_def Let_def
  by (assumption | rule vm_rules safe_applyLink frame_trafficLast | erule (1) frame_time | simp)+

lemma frame_reconcileQuota:
  "reconcileQuota S v w1 = (b, v', w2) \<Longrightarrow> jf i w w1 \<Longrightarrow> jf i w w2 \<and> vm_ID v' = vm_ID v"
  by (auto simp: reconcileQuota_def Let_def split: if_splits intro!: jf_ignore safe_applyLink)

end

end
