(* ===== verification/VmLifecycle.thy ===== *)
theory VmLifecycle
  imports VmService
begin

text \<open>
  What creating, listing and terminating achieve: the effect of teardown on the store and on the
  hypervisor, the outcome of a create job on every path, the record and the job an accepted
  request leaves, pages of the listing, and the capacity limits.
\<close>

unbundle bit_operations_syntax

section \<open>Teardown\<close>

text \<open>The table of addresses without those of one VM.\<close>

definition ips_without :: "string \<Rightarrow> (string \<times> string \<rightharpoonup> string) \<Rightarrow> (string \<times> string \<rightharpoonup> string)" where
  "ips_without i m = (\<lambda>k. if m k = Some i then None else m k)"

lemma ips_without_free [simp]: "ips_without i m k \<noteq> Some i"
  by (simp add: ips_without_def)

lemma ips_without_other: "j \<noteq> i \<Longrightarrow> ips_without i m k = Some j \<longleftrightarrow> m k = Some j"
  by (auto simp: ips_without_def)

text \<open>A release on a configured network: a lease may go, then the addresses of the VM.\<close>

lemma manager_Release_steps:
  assumes "sv_network S net = Some st" "manager_Release S net i m w = (r, w')"
  shows "\<exists>w1 rr. (w1 = w \<or> (\<exists>n. w1 = snd (on_conn (co_RemoveDHCPHost (sv_conn S) n m) w))) \<and>
    st_ReleaseIPByVM S i w1 = (rr, w')"
proof (cases st)
  case (natStrategy n)
  define w1 where "w1 = (if m \<noteq> [] then snd (on_conn (co_RemoveDHCPHost (sv_conn S) (nw_LibvirtNetwork n) m) w) else w)"
  have "st_ReleaseIPByVM S i w1 = (fst (st_ReleaseIPByVM S i w1), w')"
    using assms natStrategy
    by (auto simp: manager_Release_def nat_Release_def w1_def split: prod.splits sum.splits option.splits if_splits)
  moreover have "w1 = w \<or> (\<exists>n. w1 = snd (on_conn (co_RemoveDHCPHost (sv_conn S) n m) w))"
    unfolding w1_def by (cases "m = []") auto
  ultimately show ?thesis by blast
next
  case (bridgeStrategy n)
  then show ?thesis using assms by (auto simp: manager_Release_def bridge_Release_def)
qed

context service_calm
begin

lemma manager_Release_calm:
  assumes "sinv (w_store w)" "calm (w_store w)" "sv_network S net = Some st"
    and "manager_Release S net i m w = (r, w')"
  shows "sinv (w_store w') \<and> calm (w_store w') \<and> view (w_store w') = (view (w_store w))\<lparr>sv_ips := ips_without i (sv_ips (view (w_store w)))\<rparr>"
proof -
  obtain w1 rr where "w1 = w \<or> (\<exists>n. w1 = snd (on_conn (co_RemoveDHCPHost (sv_conn S) n m) w))"
    and rel: "st_ReleaseIPByVM S i w1 = (rr, w')"
    using manager_Release_steps [OF assms(3,4)] by blast
  then have w1: "w_store w1 = w_store w" by (auto simp: on_conn_def case_prod_beta)
  obtain w2 where "st_ReleaseIPByVM S i w1 = (Inr (), w2)" "calm (w_store w2)"
    using st_ReleaseIPByVM_calm [of w1 i] w1 assms(2) by auto
  then show ?thesis using st_ReleaseIPByVM_law [OF rel, unfolded w1] rel assms(1) by (simp add: ips_without_def)
qed

lemma st_UpdateVM_effect:
  assumes "sinv (w_store w)" "calm (w_store w)" "sv_vms (view (w_store w)) (vm_ID v) = Some old"
  obtains w' now where "st_UpdateVM S v w = (Inr (), w')" "sinv (w_store w')" "calm (w_store w')"
    "view (w_store w') = (view (w_store w))\<lparr>sv_vms := (sv_vms (view (w_store w)))(vm_ID v \<mapsto> vm_written now old v)\<rparr>"
    "store_frame w w'"
proof -
  obtain w' where u: "st_UpdateVM S v w = (Inr (), w')" "calm (w_store w')"
    using st_UpdateVM_calm [OF assms(2,3)] by blast
  from st_UpdateVM_law [OF u(1) assms(1)] assms(3) that [OF u(1) _ u(2) _ st_frame(4) [OF u(1)]] show ?thesis by auto
qed

lemma teardown_calm:
  assumes "sinv (w_store w)" "calm (w_store w)" "sv_network S (vm_NetworkID v) = Some st"
  shows "sinv (w_store (teardownPartial S v mac w)) \<and> calm (w_store (teardownPartial S v mac w)) \<and>
    view (w_store (teardownPartial S v mac w)) = (view (w_store w))\<lparr>sv_ips :=
      ips_without (vm_ID v) (sv_ips (view (w_store w)))\<rparr>"
proof -
  have ign: "w_store (ignore_err (on_conn f w1)) = w_store w1" for f :: "'c \<Rightarrow> unit res \<times> 'c" and w1 :: "('s, 'c, 'f) world"
    by (simp add: ignore_err_def on_conn_def split: prod.splits)
  have ign': "w_store (ignore_err (on_fs f w1)) = w_store w1" for f :: "'f \<Rightarrow> unit res \<times> 'f" and w1 :: "('s, 'c, 'f) world"
    by (simp add: ignore_err_def on_fs_def split: prod.splits)
  define w4 where "w4 = (let w1 = ignore_err (on_conn (co_DestroyDomain (sv_conn S) (vm_DomainName v)) w);
          w2 = ignore_err (on_conn (co_UndefineDomain (sv_conn S) (vm_DomainName v)) w1);
          w3 = ignore_err (on_conn (co_DeleteVolume (sv_conn S) (lv_StoragePool (cfg_Libvirt (sv_cfg S)))
                 (vm_ID v @ ''.qcow2'')) w2)
      in (if vm_SeedPath v \<noteq> [] then ignore_err (on_fs (os_Remove (sv_os S) (vm_SeedPath v)) w3) else w3))"
  have s4: "w_store w4 = w_store w" by (simp add: w4_def Let_def ign ign')
  obtain r w5 where rel: "manager_Release S (vm_NetworkID v) (vm_ID v) mac w4 = (r, w5)"
    by (cases "manager_Release S (vm_NetworkID v) (vm_ID v) mac w4")
  have "teardownPartial S v mac w = w5"
    using rel by (simp add: teardownPartial_def w4_def Let_def)
  then show ?thesis using manager_Release_calm [OF _ _ assms(3) rel, unfolded s4] assms by simp
qed

lemma st_GetVM_fine:
  assumes "calm (w_store w)" "sinv (w_store w)" "sv_vms (view (w_store w)) i = Some v"
  shows "st_GetVM S i w = (Inr v, w)" "vm_ID v = i"
  using st_GetVM_calm [OF assms(1,3)] st_GetVM_law [OF st_GetVM_calm [OF assms(1,3)] assms(2)] by auto

lemma runTerminate_calm:
  assumes "sinv (w_store w)" "calm (w_store w)" "sv_vms (view (w_store w)) i = Some v"
    and "vm_Status v \<noteq> VMStatusTerminated" "sv_network S (vm_NetworkID v) = Some st"
  obtains w' v' where "runTerminate S i w = (Inr (), w')" "sinv (w_store w')" "calm (w_store w')"
    "vm_Status v' = VMStatusTerminated" "vm_PowerState v' = PowerShutoff"
    "view (w_store w') = (view (w_store w))\<lparr>sv_vms := (sv_vms (view (w_store w)))(i \<mapsto> v'),
        sv_ips := ips_without i (sv_ips (view (w_store w)))\<rparr>"
    "w_conn w' = w_conn (teardownPartial S v (vm_MAC v) w)"
proof -
  note g = st_GetVM_fine [OF assms(2,1,3)]
  define v1 where "v1 = v\<lparr>vm_Status := VMStatusTerminated, vm_PowerState := PowerShutoff\<rparr>"
  define w1 where "w1 = teardownPartial S v (vm_MAC v) w"
  have t: "sinv (w_store w1)" "calm (w_store w1)" "view (w_store w1) = (view (w_store w))\<lparr>sv_ips :=
      ips_without i (sv_ips (view (w_store w)))\<rparr>"
    using teardown_calm [OF assms(1,2,5), of "vm_MAC v"] by (simp_all add: w1_def g(2))
  have "sv_vms (view (w_store w1)) (vm_ID v1) = Some v" using assms(3) t(3) by (simp add: v1_def g(2))
  then obtain w' now where u: "st_UpdateVM S v1 w1 = (Inr (), w')" "sinv (w_store w')" "calm (w_store w')"
    "view (w_store w') = (view (w_store w1))\<lparr>sv_vms := (sv_vms (view (w_store w1)))(vm_ID v1 \<mapsto> vm_written now v v1)\<rparr>"
    "store_frame w1 w'"
    by (rule st_UpdateVM_effect [OF t(1,2)])
  show ?thesis
  proof (rule that)
    show "runTerminate S i w = (Inr (), w')" using assms(4) u(1) by (simp add: runTerminate_def g(1) v1_def w1_def)
    show "sinv (w_store w')" "calm (w_store w')" by fact+
    show "vm_Status (vm_written now v v1) = VMStatusTerminated" "vm_PowerState (vm_written now v v1) = PowerShutoff"
      by (simp_all add: vm_written_def v1_def)
    show "view (w_store w') = (view (w_store w))\<lparr>sv_vms := (sv_vms (view (w_store w)))(i \<mapsto> vm_written now v v1),
        sv_ips := ips_without i (sv_ips (view (w_store w)))\<rparr>"
      using u(4) t(3) by (simp add: v1_def g(2))
    show "w_conn w' = w_conn (teardownPartial S v (vm_MAC v) w)"
      using store_frameD(1) [OF u(5)] by (simp add: w1_def)
  qed
qed

end

text \<open>The hypervisor's side of a teardown, on a connection that answers.\<close>

lemma manager_Release_conn:
  assumes "conn_api (sv_conn S) cview dn" "manager_Release S net i m w = (r, w')"
  shows "cv_doms (cview (w_conn w')) = cv_doms (cview (w_conn w)) \<and> cv_vols (cview (w_conn w')) = cv_vols (cview (w_conn w))"
proof (cases "sv_network S net")
  case None
  then show ?thesis using assms(2) by (simp add: manager_Release_def)
next
  case (Some st)
  obtain w1 rr where w1: "w1 = w \<or> (\<exists>n. w1 = snd (on_conn (co_RemoveDHCPHost (sv_conn S) n m) w))"
    and rel: "st_ReleaseIPByVM S i w1 = (rr, w')"
    using manager_Release_steps [OF Some assms(2)] by blast
  have "cv_doms (cview c') = cv_doms (cview c) \<and> cv_vols (cview c') = cv_vols (cview c)"
    if "c' = snd (co_RemoveDHCPHost (sv_conn S) n m c)" for n c c'
  proof (cases "co_RemoveDHCPHost (sv_conn S) n m c")
    case (Pair r' c'')
    then show ?thesis using conn_api.RemoveLease_law [OF assms(1) Pair] that by (auto simp: acted_def)
  qed
  then show ?thesis
    using w1 store_frameD(1) [OF st_frame(6) [OF rel]] by (auto simp: on_conn_def case_prod_beta)
qed

lemma ignore_conn: "f (w_conn w) = (r, c) \<Longrightarrow> w_conn (ignore_err (on_conn f w)) = c"
  by (simp add: ignore_err_def on_conn_def)

lemma ignore_fs_conn: "w_conn (ignore_err (on_fs f w)) = w_conn w"
  by (simp add: ignore_err_def on_fs_def split: prod.splits)

lemma teardown_conn:
  assumes "responsive_conn (sv_conn S) cview dn"
    and "\<forall>d. cv_doms (cview (w_conn w)) (vm_DomainName v) = Some d \<longrightarrow> \<not> dv_Held d"
  shows "cv_doms (cview (w_conn (teardownPartial S v mac w))) = (cv_doms (cview (w_conn w)))(vm_DomainName v := None) \<and>
    cv_vols (cview (w_conn (teardownPartial S v mac w))) =
      cv_vols (cview (w_conn w)) - {vol_key (lv_StoragePool (cfg_Libvirt (sv_cfg S))) (vm_ID v @ ''.qcow2'')}"
proof -
  note api = responsive_conn.axioms(1) [OF assms(1)]
  let ?n = "vm_DomainName v" and ?pool = "lv_StoragePool (cfg_Libvirt (sv_cfg S))"
  obtain r1 c1 where 1: "co_DestroyDomain (sv_conn S) ?n (w_conn w) = (r1, c1)"
    by (cases "co_DestroyDomain (sv_conn S) ?n (w_conn w)")
  obtain r2 c2 where 2: "co_UndefineDomain (sv_conn S) ?n c1 = (r2, c2)"
    by (cases "co_UndefineDomain (sv_conn S) ?n c1")
  obtain c3 where 3: "co_DeleteVolume (sv_conn S) ?pool (vm_ID v @ ''.qcow2'') c2 = (Inr (), c3)"
    using responsive_conn.DeleteVol_answers [OF assms(1)] by blast
  have gone: "cview c2 = (cview (w_conn w))\<lparr>cv_doms := (cv_doms (cview (w_conn w)))(?n := None)\<rparr>"
    by (rule responsive_conn.remove_domain [OF assms(1) 1 2 assms(2)])
  define w4 where "w4 = (let w1 = ignore_err (on_conn (co_DestroyDomain (sv_conn S) ?n) w);
          w2 = ignore_err (on_conn (co_UndefineDomain (sv_conn S) ?n) w1);
          w3 = ignore_err (on_conn (co_DeleteVolume (sv_conn S) ?pool (vm_ID v @ ''.qcow2'')) w2)
      in (if vm_SeedPath v \<noteq> [] then ignore_err (on_fs (os_Remove (sv_os S) (vm_SeedPath v)) w3) else w3))"
  have "w_conn (ignore_err (on_conn (co_DestroyDomain (sv_conn S) ?n) w)) = c1" by (rule ignore_conn [of _ _ r1]) (rule 1)
  then have "w_conn (ignore_err (on_conn (co_UndefineDomain (sv_conn S) ?n)
    (ignore_err (on_conn (co_DestroyDomain (sv_conn S) ?n) w)))) = c2" (is "w_conn ?w2 = c2") by (intro ignore_conn [of _ _ r2]) (simp add: 2)
  then have "w_conn (ignore_err (on_conn (co_DeleteVolume (sv_conn S) ?pool (vm_ID v @ ''.qcow2'')) ?w2)) = c3"
    by (intro ignore_conn [of _ _ "Inr ()"]) (simp add: 3)
  then have c4: "w_conn w4 = c3"
    unfolding w4_def Let_def by (simp add: ignore_fs_conn)
  obtain r w5 where rel: "manager_Release S (vm_NetworkID v) (vm_ID v) mac w4 = (r, w5)"
    by (cases "manager_Release S (vm_NetworkID v) (vm_ID v) mac w4")
  have "teardownPartial S v mac w = w5"
    using rel by (simp add: teardownPartial_def w4_def Let_def)
  then show ?thesis
    using manager_Release_conn [OF api rel] c4 conn_api.DeleteVol_law [OF api 3] gone by (simp add: acted_def)
qed

lemma BuildSeedISO_store: "BuildSeedISO S p fs w = (r, w') \<Longrightarrow> w_store w' = w_store w"
proof -
  have seed: "w_store (snd (write_seed_files S p fs w)) = w_store w" for p fs and w :: "('a, 'b, 'c) world"
    by (induction fs arbitrary: w) (auto simp: on_fs_def case_prod_beta split: sum.splits)
  have "w_store (snd (BuildSeedISO S p fs w)) = w_store w"
    using seed by (auto simp: BuildSeedISO_def fill_seed_def Let_def on_fs_def ignore_err_def case_prod_beta
        split: sum.splits option.splits if_splits)
  then show "BuildSeedISO S p fs w = (r, w') \<Longrightarrow> w_store w' = w_store w" by (metis snd_conv)
qed

lemma Prepare_store: "Prepare S req w = (r, w') \<Longrightarrow> w_store w' = w_store w"
  by (auto simp: Prepare_def CreateOverlay_def Let_def on_conn_def dest!: BuildSeedISO_store split: prod.splits sum.splits)

context service_calm
begin

lemma failVM_calm:
  assumes "sinv (w_store w)" "calm (w_store w)" "sv_vms (view (w_store w)) (vm_ID v) = Some old"
    and "failVM S v e w = (r, w')"
  shows "r = Inl e \<and> sinv (w_store w') \<and> calm (w_store w') \<and> (\<exists>v'. vm_Status v' = VMStatusError \<and>
    view (w_store w') = (view (w_store w))\<lparr>sv_vms := (sv_vms (view (w_store w)))(vm_ID v \<mapsto> v')\<rparr>)"
proof -
  define v1 where "v1 = v\<lparr>vm_Status := VMStatusError\<rparr>"
  have i: "vm_ID v1 = vm_ID v" by (simp add: v1_def)
  obtain w2 now where u: "st_UpdateVM S v1 w = (Inr (), w2)" "sinv (w_store w2)" "calm (w_store w2)"
    "view (w_store w2) = (view (w_store w))\<lparr>sv_vms := (sv_vms (view (w_store w)))(vm_ID v1 \<mapsto> vm_written now old v1)\<rparr>"
    by (rule st_UpdateVM_effect [OF assms(1,2), of v1]) (use assms(3) i in auto)
  have "vm_Status (vm_written now old v1) = VMStatusError" by (simp add: vm_written_def v1_def)
  then show ?thesis using u assms(4) i unfolding failVM_def v1_def [symmetric] by auto
qed

lemma failCreate_calm:
  assumes "sinv (w_store w)" "calm (w_store w)" "sv_vms (view (w_store w)) (vm_ID v) = Some old"
    and "sv_network S (vm_NetworkID v) = Some st" "failCreate S v mac e w = (r, w')"
  shows "r = Inl e \<and> sinv (w_store w') \<and> calm (w_store w') \<and> (\<exists>v'. vm_Status v' = VMStatusError \<and>
    view (w_store w') = (view (w_store w))\<lparr>sv_vms := (sv_vms (view (w_store w)))(vm_ID v \<mapsto> v'),
      sv_ips := ips_without (vm_ID v) (sv_ips (view (w_store w)))\<rparr>)"
proof -
  note t = teardown_calm [OF assms(1,2,4), of mac]
  from t assms(3) have "sv_vms (view (w_store (teardownPartial S v mac w))) (vm_ID v) = Some old" by simp
  from failVM_calm [OF _ _ this assms(5) [unfolded failCreate_def]] t show ?thesis by auto
qed

lemma provision_vm_calm:
  assumes "sinv (w_store w)" "calm (w_store w)" "sv_vms (view (w_store w)) (vm_ID v) = Some old"
    and "sv_network S (vm_NetworkID v) = Some st" "provision_vm S v img att w = (r, w')"
  shows "sinv (w_store w') \<and> calm (w_store w') \<and> (\<exists>v'. case r of
      Inl e \<Rightarrow> vm_Status v' = VMStatusError \<and>
        view (w_store w') = (view (w_store w))\<lparr>sv_vms := (sv_vms (view (w_store w)))(vm_ID v \<mapsto> v'),
          sv_ips := ips_without (vm_ID v) (sv_ips (view (w_store w)))\<rparr>
    | Inr _ \<Rightarrow> vm_Status v' = VMStatusRunning \<and> vm_PowerState v' = PowerRunning \<and>
        vm_IP v' = vm_IP v \<and> vm_NetworkID v' = vm_NetworkID v \<and>
        view (w_store w') = (view (w_store w))\<lparr>sv_vms := (sv_vms (view (w_store w)))(vm_ID v \<mapsto> v')\<rparr>)"
proof -
  have fail: ?thesis if "failCreate S v1 mac e w1 = (r, w')" "w_store w1 = w_store w" "vm_ID v1 = vm_ID v"
    "vm_NetworkID v1 = vm_NetworkID v" for v1 mac e w1
    using failCreate_calm [OF _ _ _ _ that(1)] assms(1-4) that(2-4) by auto
  have win: ?thesis if "st_UpdateVM S (v1\<lparr>vm_Status := VMStatusRunning, vm_PowerState := PowerRunning\<rparr>) w1 = (r, w')"
    "w_store w1 = w_store w" "vm_ID v1 = vm_ID v" "vm_NetworkID v1 = vm_NetworkID v" "vm_IP v1 = vm_IP v" for v1 w1
  proof -
    note h = that
    let ?v = "v1\<lparr>vm_Status := VMStatusRunning, vm_PowerState := PowerRunning\<rparr>"
    obtain w2 now where u: "st_UpdateVM S ?v w1 = (Inr (), w2)" "sinv (w_store w2)" "calm (w_store w2)"
      "view (w_store w2) = (view (w_store w1))\<lparr>sv_vms := (sv_vms (view (w_store w1)))(vm_ID ?v \<mapsto> vm_written now old ?v)\<rparr>"
      by (rule st_UpdateVM_effect [of w1 ?v old]) (use assms(1-3) h(2,3) in auto)
    have "vm_Status (vm_written now old ?v) = VMStatusRunning \<and> vm_PowerState (vm_written now old ?v) = PowerRunning \<and>
        vm_IP (vm_written now old ?v) = vm_IP v \<and> vm_NetworkID (vm_written now old ?v) = vm_NetworkID v"
      using h(4,5) by (simp add: vm_written_def)
    then show ?thesis using u h(1-3) by auto
  qed
  obtain rp w1 where p: "Prepare S \<lparr>pr_ID = vm_ID v, pr_Hostname = vm_Hostname v, pr_DefaultUser = img_DefaultUser img,
         pr_Password = vm_Password v, pr_SSHKeys = vm_SSHKeys v, pr_BackingPath = img_BasePath img,
         pr_DiskBytes = word_of_int (vm_DiskGB v) * gib,
         pr_Network = \<lparr>nc_MAC = at_MAC att, nc_Static = at_Static att, nc_AddressCIDR = at_AddressCIDR att,
           nc_Gateway = at_Gateway att, nc_Nameservers = at_Nameservers att\<rparr>\<rparr> w = (rp, w1)" by fastforce
  note s1 = Prepare_store [OF p]
  show ?thesis
  proof (cases rp)
    case (Inl e)
    then have "failCreate S v (at_MAC att) (wrap_err ''provision'' e) w1 = (r, w')"
      using assms(5) p by (simp add: provision_vm_def)
    then show ?thesis by (rule fail) (simp_all add: s1)
  next
    case (Inr art)
    define v1 where "v1 = v\<lparr>vm_DiskPath := art_DiskPath art, vm_SeedPath := art_SeedPath art\<rparr>"
    have v1: "vm_ID v1 = vm_ID v" "vm_NetworkID v1 = vm_NetworkID v" "vm_IP v1 = vm_IP v"
      by (simp_all add: v1_def)
    obtain rx where rx: "Render (sv_xml S) \<lparr>sp_Name = vm_DomainName v1, sp_UUID = [], sp_VCPUs = vm_VCPUs v1,
                sp_MemoryMB = vm_MemoryMB v1, sp_DiskPath = art_DiskPath art, sp_SeedPath = art_SeedPath art,
                sp_MAC = at_MAC att, sp_Network = \<lparr>na_Mode = at_Mode att, na_Source = at_Source att, na_VLAN = at_VLAN att\<rparr>,
                sp_BandwidthMbps = flavorBandwidth S (vm_FlavorID v1), sp_LinkDown = vm_NetworkBlocked v1,
                sp_VNCListen = []\<rparr> = rx" by blast
    note run = assms(5) [unfolded provision_vm_def p Inr prod.case sum.case Let_def, folded v1_def, unfolded rx]
    show ?thesis
    proof (cases rx)
      case (Inl e)
      then have "failCreate S v1 (at_MAC att) (wrap_err ''render domain xml'' e) w1 = (r, w')" using run by simp
      then show ?thesis by (rule fail) (simp_all add: s1 v1)
    next
      case (Inr xml)
      obtain rd w2 where d: "on_conn (co_DefineDomain (sv_conn S) xml) w1 = (rd, w2)" by fastforce
      have s2: "w_store w2 = w_store w" using on_conn_store [OF d] s1 by simp
      show ?thesis
      proof (cases rd)
        case (Inl e)
        then have "failCreate S v1 (at_MAC att) (wrap_err ''define domain'' e) w2 = (r, w')" using run d Inr by simp
        then show ?thesis by (rule fail) (simp_all add: s2 v1)
      next
        case dok: (Inr uid)
        define v2 where "v2 = v1\<lparr>vm_DomainUUID := uid\<rparr>"
        have v2: "vm_ID v2 = vm_ID v" "vm_NetworkID v2 = vm_NetworkID v" "vm_IP v2 = vm_IP v"
          by (simp_all add: v2_def v1)
        obtain rs w3 where st: "on_conn (co_StartDomain (sv_conn S) (vm_DomainName v2)) w2 = (rs, w3)" by fastforce
        have s3: "w_store w3 = w_store w" using on_conn_store [OF st] s2 by simp
        note run' = run [unfolded Inr sum.case d dok prod.case, folded v2_def, unfolded st prod.case]
        show ?thesis
        proof (cases rs)
          case (Inl e)
          then have "failCreate S v2 (at_MAC att) (wrap_err ''start domain'' e) w3 = (r, w')" using run' by simp
          then show ?thesis by (rule fail) (simp_all add: s3 v2)
        next
          case sok: (Inr u)
          then have "st_UpdateVM S (v2\<lparr>vm_Status := VMStatusRunning, vm_PowerState := PowerRunning\<rparr>) w3 = (r, w')"
            using run' by simp
          then show ?thesis by (rule win) (simp_all add: s3 v2)
        qed
      qed
    qed
  qed
qed

lemma manager_Allocate_ok:
  assumes "manager_Allocate S net i h w = Some (Inr a, w')" "sinv (w_store w)" "calm (w_store w)"
  shows "(\<exists>st. sv_network S net = Some st) \<and> sinv (w_store w') \<and> calm (w_store w') \<and>
    sv_ips (view (w_store w)) (at_NetworkID a, at_IP a) = None \<and>
    view (w_store w') = (view (w_store w))\<lparr>sv_ips := (sv_ips (view (w_store w)))((at_NetworkID a, at_IP a) \<mapsto> i)\<rparr>"
proof -
  obtain st where st: "sv_network S net = Some st"
    using assms(1) by (cases "sv_network S net") (auto simp: manager_Allocate_def)
  have "sinv (w_store w') \<and> calm (w_store w')"
    using fine.manager.alloc_inv [OF assms(1)] assms(2,3) by simp
  moreover have "sv_ips (view (w_store w)) (at_NetworkID a, at_IP a) = None \<and>
    view (w_store w') = (view (w_store w))\<lparr>sv_ips := (sv_ips (view (w_store w)))((at_NetworkID a, at_IP a) \<mapsto> i)\<rparr>"
    using assms(1)
  proof (cases rule: manager_Allocate_cases)
    case (2 n)
    then show ?thesis using nat_Allocate_law [of n i h w "Inr a" w'] assms(2) by auto
  next
    case (3 n)
    then show ?thesis using bridge_Allocate_law [OF 3 assms(2)] by auto
  qed simp
  ultimately show ?thesis using st by simp
qed

lemma ips_without_fresh: "m k = None \<Longrightarrow> \<forall>k. m k \<noteq> Some i \<Longrightarrow> ips_without i (m(k \<mapsto> i)) = m"
  by (auto simp: ips_without_def fun_eq_iff)

lemma runCreate_calm:
  assumes "sinv (w_store w)" "calm (w_store w)" "sv_vms (view (w_store w)) i = Some v"
    and "\<forall>k. sv_ips (view (w_store w)) k \<noteq> Some i" "runCreate S i w = Some (r, w')"
  shows "sinv (w_store w') \<and> calm (w_store w') \<and> (\<exists>v'. case r of
      Inl e \<Rightarrow> vm_Status v' = VMStatusError \<and>
        view (w_store w') = (view (w_store w))\<lparr>sv_vms := (sv_vms (view (w_store w)))(i \<mapsto> v')\<rparr>
    | Inr _ \<Rightarrow> vm_Status v' = VMStatusRunning \<and> vm_PowerState v' = PowerRunning \<and>
        (\<exists>net. sv_ips (view (w_store w)) (net, vm_IP v') = None \<and>
          view (w_store w') = (view (w_store w))\<lparr>sv_vms := (sv_vms (view (w_store w)))(i \<mapsto> v'),
            sv_ips := (sv_ips (view (w_store w)))((net, vm_IP v') \<mapsto> i)\<rparr>))"
proof -
  note g = st_GetVM_fine [OF assms(2,1,3)]
  have fail: ?thesis if "failVM S v e w1 = (r, w')" "view (w_store w1) = view (w_store w)" "sinv (w_store w1)"
    "calm (w_store w1)" for e w1
    using failVM_calm [OF that(3,4) _ that(1)] that(2) assms(3) g(2) by auto
  show ?thesis
  proof (cases "cat_Image (sv_catalog S) (vm_ImageID v)")
    case None
    then have "failVM S v (image_gone v) w = (r, w')" using assms(5) g(1) by (simp add: runCreate_def)
    then show ?thesis by (rule fail) (use assms(1,2) in simp_all)
  next
    case (Some img)
    obtain ra w1 where a: "manager_Allocate S (vm_NetworkID v) i (vm_Hostname v) w = Some (ra, w1)"
      using assms(5) g Some by (auto simp: runCreate_def split: option.splits)
    show ?thesis
    proof (cases ra)
      case (Inl e)
      have "failVM S v (wrap_err ''allocate network'' e) w1 = (r, w')"
        using assms(5) g Some a Inl by (simp add: runCreate_def)
      then show ?thesis
        by (rule fail) (use manager_Allocate_fails [OF assms(1,2,4)] fine.manager.alloc_inv [OF a] assms(1,2) a Inl in auto)
    next
      case (Inr att)
      define k where "k = (at_NetworkID att, at_IP att)"
      define v1 where "v1 = v\<lparr>vm_MAC := at_MAC att, vm_IP := at_IP att, vm_Gateway := at_Gateway att,
        vm_Netmask := at_Netmask att\<rparr>"
      have v1: "vm_ID v1 = i" "vm_NetworkID v1 = vm_NetworkID v" "vm_IP v1 = at_IP att" by (simp_all add: v1_def g(2))
      from manager_Allocate_ok [OF a [unfolded Inr] assms(1,2)] obtain st where
        st: "sv_network S (vm_NetworkID v1) = Some st" and f1: "sinv (w_store w1)" "calm (w_store w1)"
        and free: "sv_ips (view (w_store w)) k = None"
        and view1: "view (w_store w1) = (view (w_store w))\<lparr>sv_ips := (sv_ips (view (w_store w)))(k \<mapsto> i)\<rparr>"
        by (auto simp: k_def v1)
      obtain w2 now where u: "st_UpdateVM S v1 w1 = (Inr (), w2)" "sinv (w_store w2)" "calm (w_store w2)"
        "view (w_store w2) = (view (w_store w1))\<lparr>sv_vms := (sv_vms (view (w_store w1)))(vm_ID v1 \<mapsto> vm_written now v v1)\<rparr>"
        by (rule st_UpdateVM_effect [OF f1, of v1 v]) (use view1 assms(3) v1 in auto)
      have p: "provision_vm S v1 img att w2 = (r, w')"
        using assms(5) g Some a Inr u(1) by (simp add: runCreate_def Let_def v1_def)
      have view2: "view (w_store w2) = (view (w_store w))\<lparr>sv_vms := (sv_vms (view (w_store w)))(i \<mapsto> vm_written now v v1),
          sv_ips := (sv_ips (view (w_store w)))(k \<mapsto> i)\<rparr>"
        by (simp add: u(4) view1 v1)
      note pv = provision_vm_calm [OF u(2,3) _ st p, of "vm_written now v v1", unfolded view2 v1]
      show ?thesis
      proof (cases r)
        case (Inl e)
        then show ?thesis using pv by (auto simp: ips_without_fresh [OF free assms(4)])
      next
        case (Inr x)
        obtain v' where v': "vm_Status v' = VMStatusRunning" "vm_PowerState v' = PowerRunning" "vm_IP v' = at_IP att"
          and w': "view (w_store w') = (view (w_store w))\<lparr>sv_vms := (sv_vms (view (w_store w)))(i \<mapsto> v'),
            sv_ips := (sv_ips (view (w_store w)))(k \<mapsto> i)\<rparr>"
          using pv Inr by auto
        show ?thesis
          using pv Inr free unfolding w' k_def v'(3) [symmetric]
          by (intro conjI exI [of _ v']) (auto simp: v')
      qed
    qed
  qed
qed

end
text \<open>Every bridge pool expands, which fails only for the pools of \<open>expandCIDRHosts_exact\<close>.\<close>

definition pools_finite :: "('s, 'c, 'f) Service \<Rightarrow> bool" where
  "pools_finite S \<longleftrightarrow> (\<forall>net n. sv_network S net = Some (bridgeStrategy n) \<longrightarrow>
     expandPool (nw_IPPool n) (nw_Gateway n) maxCandidates \<noteq> None)"

lemma manager_Allocate_returns: "pools_finite S \<Longrightarrow> manager_Allocate S net v h w \<noteq> None"
  unfolding manager_Allocate_def pools_finite_def
  by (cases "sv_network S net"; cases "the (sv_network S net)")
    (force simp: bridge_Allocate_def split: prod.splits sum.splits option.splits)+

lemma runCreate_returns: "pools_finite S \<Longrightarrow> runCreate S i w \<noteq> None"
  by (auto simp: runCreate_def Let_def split: prod.splits sum.splits option.splits
      dest: notE [OF manager_Allocate_returns])

lemma demo_pools_finite: "pools_finite demo_service"
  by (auto simp: pools_finite_def demo_service_def demo_bridge_def maxCandidates_def demo_pool split: if_splits)

section \<open>Properties\<close>



text \<open>(C6) Terminating releases everything, once: on a host that answers, the job of a live VM on a
  configured network succeeds and leaves the VM terminated, its domain gone, its disk deleted and
  none of its addresses allocated; running it again changes nothing. The hypervisor must not hold
  snapshots of the domain: it would refuse to undefine it, and the job does not look.\<close>

theorem terminate_releases_everything:
  assumes "sv_store S = sqlite_ops" "responsive_conn (sv_conn S) cview dn"
    and "sqlite_inv (w_store w)" "sqlite_calm (w_store w)"
    and "sv_vms (sqlite_view (w_store w)) i = Some v" "vm_Status v \<noteq> VMStatusTerminated"
    and "sv_network S (vm_NetworkID v) = Some st"
    and "\<forall>d. cv_doms (cview (w_conn w)) (vm_DomainName v) = Some d \<longrightarrow> \<not> dv_Held d"
  shows "\<exists>w' v'. runTerminate S i w = (Inr (), w') \<and>
    sv_vms (sqlite_view (w_store w')) i = Some v' \<and> vm_Status v' = VMStatusTerminated \<and>
    (\<forall>k. sv_ips (sqlite_view (w_store w')) k \<noteq> Some i) \<and>
    cv_doms (cview (w_conn w')) (vm_DomainName v) = None \<and>
    vol_key (lv_StoragePool (cfg_Libvirt (sv_cfg S))) (i @ ''.qcow2'') \<notin> cv_vols (cview (w_conn w')) \<and>
    runTerminate S i w' = (Inr (), w')"
proof -
  note calm = agent.runTerminate_calm [where S = S, unfolded with_sqlite [OF assms(1)]]
  obtain w' v' where t: "runTerminate S i w = (Inr (), w')" "sqlite_inv (w_store w')" "sqlite_calm (w_store w')"
    "vm_Status v' = VMStatusTerminated"
    "sqlite_view (w_store w') = (sqlite_view (w_store w))\<lparr>sv_vms := (sv_vms (sqlite_view (w_store w)))(i \<mapsto> v'),
        sv_ips := ips_without i (sv_ips (sqlite_view (w_store w)))\<rparr>"
    "w_conn w' = w_conn (teardownPartial S v (vm_MAC v) w)"
    by (rule calm [OF assms(3-7)])
  note fine = agent.st_GetVM_fine(1) [where S = S, unfolded with_sqlite [OF assms(1)]]
  have v': "sv_vms (sqlite_view (w_store w')) i = Some v'" by (simp add: t(5))
  have again: "runTerminate S i w' = (Inr (), w')"
    using fine [OF t(3,2) v'] t(4) by (simp add: runTerminate_def)
  show ?thesis
    using t again v' teardown_conn [OF assms(2,8), of "vm_MAC v"] agent.st_GetVM_fine(2) [OF assms(4,3,5)] by auto
qed

theorem terminate_releases_everything_witness:
  "\<exists>w' v'. runTerminate demo_service ''v1'' (vm_world demo_vm) = (Inr (), w') \<and>
    sv_vms (sqlite_view (w_store w')) ''v1'' = Some v' \<and> vm_Status v' = VMStatusTerminated \<and>
    cv_doms (fake_view (w_conn w')) ''kvm-v1'' = None"
proof -
  have i: "vm_ID demo_vm = ''v1''" "vm_DomainName demo_vm = ''kvm-v1''" "vm_Status demo_vm \<noteq> VMStatusTerminated"
    "sv_network demo_service (vm_NetworkID demo_vm) = Some (bridgeStrategy demo_bridge)"
    by (simp_all add: demo_vm_def demo_service_def)
  have row: "sv_vms (sqlite_view (w_store (vm_world demo_vm))) ''v1'' = Some demo_vm" by (simp add: i)
  have "\<forall>d. cv_doms (fake_view (w_conn (vm_world demo_vm))) (vm_DomainName demo_vm) = Some d \<longrightarrow> \<not> dv_Held d"
    by (auto simp: fake_view_def)
  from terminate_releases_everything [OF demo_store(1) fake.responsive_conn_axioms [folded demo_store(2)] vm_world_ok row i(3,4) this]
  show ?thesis unfolding i by blast
qed

lemma batchReconcilePower_ids:
  "batchReconcilePower S vms w = (vms', w') \<Longrightarrow> map vm_ID vms' = map vm_ID vms \<and> w_store w' = w_store w"
  by (auto simp: batchReconcilePower_def refresh_power_def on_conn_def split: if_splits prod.splits sum.splits option.splits)

text \<open>(C27) A page of the listing: its limit is between 1 and 500 and its offset is not negative,
  whatever was asked; it holds, in the listing's order, exactly the VMs that match the filter from
  the offset on, as many as the limit allows, none twice; the total counts all matches; and
  reading changes nothing in the store.\<close>

theorem List_page:
  assumes "sv_store S = sqlite_ops" "sqlite_inv (w_store w)" "List S opts w = (Inr r, w')"
  shows "1 \<le> lr_Limit r \<and> lr_Limit r \<le> 500 \<and> 0 \<le> lr_Offset r \<and>
    (\<exists>all w1. st_ListVMs S w = (Inr all, w1) \<and>
      map vm_ID (lr_VMs r) = map vm_ID (take (nat (lr_Limit r)) (drop (nat (lr_Offset r)) (filter (list_keep opts) all)))) \<and>
    distinct (map vm_ID (lr_VMs r)) \<and>
    lr_Total r = int (card {v \<in> ran (sv_vms (sqlite_view (w_store w))). list_keep opts v}) \<and>
    int (length (lr_VMs r)) = max 0 (min (lr_Limit r) (lr_Total r - lr_Offset r)) \<and>
    sqlite_view (w_store w') = sqlite_view (w_store w)"
proof -
  obtain all w1 where l: "st_ListVMs S w = (Inr all, w1)"
    using assms(3) by (auto simp: List_def split: prod.splits sum.splits)
  note law = agent.st_ListVMs_law [where S = S, unfolded with_sqlite [OF assms(1)], OF l assms(2)]
  let ?f = "filter (list_keep opts) all"
  define limit0 limit offset where "limit0 = (if lo_Limit opts \<le> 0 then defaultListLimit else lo_Limit opts)"
    and "limit = (if limit0 > maxListLimit then maxListLimit else limit0)"
    and "offset = (if lo_Offset opts < 0 then 0 else lo_Offset opts)"
  have lim: "1 \<le> limit" "limit \<le> 500" "0 \<le> offset"
    by (auto simp: limit_def limit0_def offset_def defaultListLimit_def maxListLimit_def)
  define page where "page = (if offset < int (length ?f)
      then take (nat ((if offset + limit > int (length ?f) then int (length ?f) else offset + limit) - offset)) (drop (nat offset) ?f)
      else [])"
  obtain vms w2 where b: "batchReconcilePower S page w1 = (vms, w2)" by fastforce
  have r: "r = \<lparr>lr_VMs = vms, lr_Total = int (length ?f), lr_Limit = limit, lr_Offset = offset\<rparr>" "w' = w2"
    using assms(3) b unfolding List_def l prod.case sum.case Let_def
      limit0_def [symmetric] limit_def [symmetric] offset_def [symmetric] page_def [symmetric]
    by simp_all
  have page: "page = take (nat limit) (drop (nat offset) ?f)"
    using lim by (auto simp: page_def min_def nat_le_iff intro!: take_equalityI)
  note ids = batchReconcilePower_ids [OF b]
  have "distinct (map vm_ID ?f)" using law by (simp add: distinct_map_filter)
  then have d: "distinct (map vm_ID page)"
    unfolding page by (metis distinct_drop distinct_take drop_map take_map)
  have "set ?f = {v \<in> ran (sv_vms (sqlite_view (w_store w))). list_keep opts v}" using law by auto
  moreover have "distinct ?f" using law by (simp add: distinct_map)
  ultimately have "length ?f = card {v \<in> ran (sv_vms (sqlite_view (w_store w))). list_keep opts v}"
    using distinct_card by metis
  moreover have "int (length vms) = max 0 (min limit (int (length ?f) - offset))"
    using arg_cong [OF conjunct1 [OF ids], of length] lim by (simp add: page) arith
  ultimately show ?thesis
    using lim l ids d law page r by auto
qed

definition list_all_opts :: ListOptions where
  "list_all_opts = \<lparr>lo_Limit = 0, lo_Offset = -3, lo_Status = ''running'', lo_NetworkID = []\<rparr>"

theorem List_page_witness:
  "\<exists>r w'. List demo_service list_all_opts (vm_world demo_vm) = (Inr r, w') \<and> lr_Total r = 1 \<and>
    length (lr_VMs r) = 1 \<and> lr_Limit r \<le> 500"
proof -
  obtain vs where l: "st_ListVMs demo_service (vm_world demo_vm) = (Inr vs, vm_world demo_vm)"
    using agent.st_ListVMs_calm [of "vm_world demo_vm" demo_service, unfolded with_sqlite [OF demo_store(1)]] by auto
  obtain r w' where r: "List demo_service list_all_opts (vm_world demo_vm) = (Inr r, w')"
    by (cases "List demo_service list_all_opts (vm_world demo_vm)") (auto simp: List_def l Let_def split: prod.splits)
  have k: "{v \<in> ran [vm_ID demo_vm \<mapsto> demo_vm]. list_keep list_all_opts v} = {demo_vm}"
    by (auto simp: list_keep_def list_all_opts_def demo_vm_def)
  have o: "lr_Offset r = 0" using r by (auto simp: List_def l Let_def list_all_opts_def split: prod.splits)
  show ?thesis using List_page [OF demo_store(1) vm_world_ok(1) r] r k o by auto
qed

section \<open>Creation and capacity\<close>

definition live :: "VM \<Rightarrow> bool" where
  "live v \<longleftrightarrow> vm_Status v \<noteq> VMStatusTerminated"

lemma commit_sums:
  "cm_vms (fold commit_vm vs c) = cm_vms c + (\<Sum>v\<leftarrow>vs. if live v then 1 else 0)"
  "cm_vcpus (fold commit_vm vs c) = cm_vcpus c + (\<Sum>v\<leftarrow>vs. if live v then vm_VCPUs v else 0)"
  "cm_memMB (fold commit_vm vs c) = cm_memMB c + (\<Sum>v\<leftarrow>vs. if live v then word_of_int (vm_MemoryMB v) else 0)"
  by (induction vs arbitrary: c) (simp_all add: commit_vm_def live_def)

lemma sum_list_insert:
  fixes f :: "'a \<Rightarrow> 'b::comm_monoid_add"
  assumes "distinct xs" "distinct ys" "set ys = insert x (set xs)" "x \<notin> set xs"
  shows "sum_list (map f ys) = f x + sum_list (map f xs)"
  using assms by (simp add: sum_list_distinct_conv_sum_set)

lemma uint_add_word_of_int_le:
  fixes a :: "'a::len word"
  shows "0 \<le> m \<Longrightarrow> uint (a + word_of_int m) \<le> uint a + m"
  by (simp add: uint_word_ariths uint_word_of_int mod_add_right_eq) (meson add_nonneg_nonneg uint_ge_0 zmod_le_nonneg_dividend)

lemma commit_insert:
  assumes "distinct vs" "distinct vs'" "set vs' = insert v (set vs)" "v \<notin> set vs" "live v"
  defines "c \<equiv> fold commit_vm vs zero_commitment" and "c' \<equiv> fold commit_vm vs' zero_commitment"
  shows "cm_vms c' = cm_vms c + 1" "cm_vcpus c' = cm_vcpus c + vm_VCPUs v"
    "cm_memMB c' = cm_memMB c + word_of_int (vm_MemoryMB v)"
  unfolding c_def c'_def commit_sums sum_list_insert [OF assms(1-4)] using assms(5) by simp_all

text \<open>What admission has checked when it accepts.\<close>

lemma admit_accepts:
  assumes "admit S flavor w = (Inr (), w1)"
  shows "\<exists>c w0. committed S w = (Inr c, w0) \<and>
    (cap_MaxVMs (cfg_Capacity (sv_cfg S)) > 0 \<longrightarrow> cm_vms c < cap_MaxVMs (cfg_Capacity (sv_cfg S))) \<and>
    (\<forall>hi c'. co_HostInfo (sv_conn S) (lv_StoragePool (cfg_Libvirt (sv_cfg S))) (w_conn w0) = (Inr hi, c') \<longrightarrow>
      (cap_CPUOvercommit (cfg_Capacity (sv_cfg S)) > 0 \<longrightarrow>
        of_int (cm_vcpus c + fl_VCPUs flavor) \<le> of_int (hi_CPUs hi) * cap_CPUOvercommit (cfg_Capacity (sv_cfg S))) \<and>
      (cap_MemOvercommit (cfg_Capacity (sv_cfg S)) > 0 \<longrightarrow>
        of_int (uint (cm_memMB c) + fl_MemoryMB flavor) \<le>
          (of_int (uint (drop_bit 20 (hi_MemoryTotalBytes hi))) - of_int (cap_ReservedMemoryMB (cfg_Capacity (sv_cfg S)))) *
          cap_MemOvercommit (cfg_Capacity (sv_cfg S))))"
proof -
  obtain c w0 where c: "committed S w = (Inr c, w0)"
    using assms by (auto simp: admit_def Let_def split: prod.splits sum.splits)
  show ?thesis
    by (rule exI [of _ c], rule exI [of _ w0])
      (use assms in \<open>auto simp: admit_def Let_def c on_conn_def split: if_splits prod.splits sum.splits\<close>)
qed

lemma committed_frame: "committed S w = (r, w') \<Longrightarrow> store_frame w w'"
  by (auto simp: committed_def split: prod.splits sum.splits dest: st_frame(3))

lemma admit_steps:
  assumes "admit S f w = (r, w')" "committed S w = (rc, w1)"
  shows "w' = w1 \<or> (\<exists>c. w' = w1\<lparr>w_conn := c\<rparr>)"
  using assms by (auto simp: admit_def Let_def on_conn_def split: if_splits prod.splits sum.splits)

context service_store
begin

lemma committed_law:
  assumes "committed S w = (r, w')" "sinv (w_store w)"
  shows "sinv (w_store w') \<and> view (w_store w') = view (w_store w) \<and>
    (\<forall>c. r = Inr c \<longrightarrow> (\<exists>vs. distinct vs \<and> set vs = ran (sv_vms (view (w_store w))) \<and>
      (\<forall>v\<in>set vs. sv_vms (view (w_store w)) (vm_ID v) = Some v) \<and> c = fold commit_vm vs zero_commitment))"
proof -
  obtain rl w1 where l: "st_ListVMs S w = (rl, w1)" by fastforce
  from st_ListVMs_law [OF l assms(2)] assms(1) show ?thesis
    by (cases rl) (auto simp: committed_def l distinct_map)
qed

lemma admit_law:
  assumes "admit S f w = (r, w')" "sinv (w_store w)"
  shows "sinv (w_store w') \<and> view (w_store w') = view (w_store w) \<and> w_sched w' = w_sched w"
proof -
  obtain rc w1 where c: "committed S w = (rc, w1)" by fastforce
  show ?thesis
    using admit_steps [OF assms(1) c] committed_law [OF c assms(2)] store_frameD(5) [OF committed_frame [OF c]] by auto
qed

lemma enqueue_new_law:
  assumes "enqueue_new S typ i w = (r, w')" "sinv (w_store w)"
  shows "sinv (w_store w') \<and> (case r of
      Inl e \<Rightarrow> view (w_store w') = view (w_store w) \<and> w_sched w' = w_sched w
    | Inr j \<Rightarrow> job_VMID j = i \<and> job_Type j = typ \<and> job_State j = JobQueued \<and> job_Attempts j = 0 \<and>
        sv_jobs (view (w_store w)) (job_ID j) = None \<and> w_sched w' = w_sched w @ [job_ID j] \<and>
        view (w_store w') = (view (w_store w))\<lparr>sv_jobs := (sv_jobs (view (w_store w)))(job_ID j \<mapsto> j)\<rparr>)"
proof -
  obtain j0 w1 where j0: "job_New typ i [] w = (j0, w1)" by fastforce
  have w1: "w_store w1 = w_store w" "w_sched w1 = w_sched w" and
    j: "job_VMID j0 = i" "job_Type j0 = typ" "job_State j0 = JobQueued" "job_Attempts j0 = 0"
    using j0 by (auto simp: job_New_def uuid_NewString_def)
  obtain rc w2 where c: "st_CreateJob S (j0\<lparr>job_State := JobQueued\<rparr>) w1 = (rc, w2)" by fastforce
  note law = st_CreateJob_law [OF c, unfolded w1, OF assms(2)] and fr = store_frameD(5) [OF st_frame(9) [OF c]]
  show ?thesis
    using assms(1) law fr w1 j
    by (cases rc) (auto simp: enqueue_new_def j0 Enqueue_def c schedule_def job_created_def)
qed

lemma Create_law:
  assumes "Create S req w = (r, w')" "sinv (w_store w)"
  shows "sinv (w_store w') \<and> (case r of
      Inl e \<Rightarrow> w_sched w' = w_sched w \<and> (view (w_store w') = view (w_store w) \<or>
        (\<exists>v. sv_vms (view (w_store w)) (vm_ID v) = None \<and> vm_Status v = VMStatusProvisioning \<and>
          view (w_store w') = (view (w_store w))\<lparr>sv_vms := (sv_vms (view (w_store w)))(vm_ID v \<mapsto> v)\<rparr>))
    | Inr j \<Rightarrow> (\<exists>flavor img net w1 i h q now now' v. create_choices S req = Inr (flavor, img, net) \<and>
        admit S flavor w = (Inr (), w1) \<and> create_names req flavor i = Inr (h, q) \<and>
        v = vm_created now' (create_record req flavor img net i h q now) \<and>
        sv_vms (view (w_store w)) i = None \<and>
        job_VMID j = i \<and> job_Type j = JobCreate \<and> job_State j = JobQueued \<and> w_sched w' = w_sched w @ [job_ID j] \<and>
        view (w_store w') = (view (w_store w))\<lparr>sv_vms := (sv_vms (view (w_store w)))(i \<mapsto> v),
          sv_jobs := (sv_jobs (view (w_store w)))(job_ID j \<mapsto> j)\<rparr>))"
proof (cases "create_choices S req")
  case (Inl e)
  then show ?thesis using assms by (auto simp: Create_def)
next
  case (Inr ch)
  then obtain flavor img net where ch: "create_choices S req = Inr (flavor, img, net)" by (cases ch) auto
  obtain ra w1 where a: "admit S flavor w = (ra, w1)" by fastforce
  note al = admit_law [OF a assms(2)]
  then have va: "view (w_store w1) = view (w_store w)" by simp
  obtain i w2 where u: "uuid_NewString w1 = (i, w2)" by fastforce
  have w2: "w_store w2 = w_store w1" "w_sched w2 = w_sched w1" using u by (auto simp: uuid_NewString_def)
  show ?thesis
  proof (cases "\<exists>h q. ra = Inr () \<and> create_names req flavor i = Inr (h, q)")
    case False
    then show ?thesis using assms(1) ch a al u w2
      by (cases ra; cases "create_names req flavor i") (auto simp: Create_def)
  next
    case True
    then obtain h q where ra: "ra = Inr ()" and n: "create_names req flavor i = Inr (h, q)" by blast
    obtain now w3 where t: "time_Now w2 = (now, w3)" by fastforce
    have w3: "w_store w3 = w_store w1" "w_sched w3 = w_sched w1" using t w2 by (auto simp: time_Now_def)
    define v where "v = create_record req flavor img net i h q now"
    have v: "vm_ID v = i" "vm_Status v = VMStatusProvisioning" by (simp_all add: v_def create_record_def)
    obtain rc w4 where c: "st_CreateVM S v w3 = (rc, w4)" by fastforce
    have cl: "sinv (w_store w4)" "w_sched w4 = w_sched w"
      and cl': "case rc of Inl e \<Rightarrow> view (w_store w4) = view (w_store w)
        | Inr _ \<Rightarrow> sv_vms (view (w_store w)) i = None \<and> (\<exists>now'. view (w_store w4) =
            (view (w_store w))\<lparr>sv_vms := (sv_vms (view (w_store w)))(i \<mapsto> vm_created now' v)\<rparr>)"
      using st_CreateVM_law [OF c, unfolded w3 va v(1)] store_frameD(5) [OF st_frame(1) [OF c]] al w3 by auto
    have run: "Create S req w = (case rc of Inl e \<Rightarrow> (Inl e, w4) | Inr _ \<Rightarrow> enqueue_new S JobCreate i w4)"
      using ch a ra u n t c by (simp add: Create_def v_def)
    show ?thesis
    proof (cases rc)
      case (Inl e)
      then show ?thesis using run assms(1) cl cl' by simp
    next
      case (Inr x)
      then obtain now' where fresh: "sv_vms (view (w_store w)) i = None" and view4:
        "view (w_store w4) = (view (w_store w))\<lparr>sv_vms := (sv_vms (view (w_store w)))(i \<mapsto> vm_created now' v)\<rparr>"
        using cl' by auto
      have e: "enqueue_new S JobCreate i w4 = (r, w')" using run assms(1) Inr by simp
      note el = enqueue_new_law [OF e cl(1), unfolded view4 cl(2)]
      show ?thesis
      proof (cases r)
        case (Inl e)
        have "vm_ID (vm_created now' v) = i" "vm_Status (vm_created now' v) = VMStatusProvisioning"
          using v by (simp_all add: vm_created_def)
        then show ?thesis using el Inl fresh by (auto intro!: exI [of _ "vm_created now' v"])
      next
        case (Inr j)
        then have "case_sum (\<lambda>_. False) (\<lambda>j. sinv (w_store w') \<and> create_choices S req = Inr (flavor, img, net) \<and>
          admit S flavor w = (Inr (), w1) \<and> create_names req flavor i = Inr (h, q) \<and>
          sv_vms (view (w_store w)) i = None \<and>
          job_VMID j = i \<and> job_Type j = JobCreate \<and> job_State j = JobQueued \<and> w_sched w' = w_sched w @ [job_ID j] \<and>
          view (w_store w') = (view (w_store w))\<lparr>sv_vms := (sv_vms (view (w_store w)))(i \<mapsto> vm_created now' v),
            sv_jobs := (sv_jobs (view (w_store w)))(job_ID j \<mapsto> j)\<rparr>) r"
          using el ch a ra n fresh by simp
        with Inr show ?thesis unfolding v_def by (simp only: sum.case) blast
      qed
    qed
  qed
qed

end
text \<open>(C26) What an accepted creation records: the flavor, image and network named by the request
  exist, the guest-supplied hostname and password have passed validation, a fresh VM in the
  provisioning state carries the flavor's sizes, and exactly one queued create job for it is in
  the jobs table and at the end of the queue's channel; nothing else changes. A rejected
  creation schedules nothing; the only trace it can leave is a provisioning VM whose job could
  not be stored.\<close>

theorem Create_records:
  assumes "sv_store S = sqlite_ops" "sqlite_inv (w_store w)" "Create S req w = (r, w')"
  shows "case r of
      Inl e \<Rightarrow> w_sched w' = w_sched w \<and> (sqlite_view (w_store w') = sqlite_view (w_store w) \<or>
        (\<exists>v. sv_vms (sqlite_view (w_store w)) (vm_ID v) = None \<and> vm_Status v = VMStatusProvisioning \<and>
          sqlite_view (w_store w') =
            (sqlite_view (w_store w))\<lparr>sv_vms := (sv_vms (sqlite_view (w_store w)))(vm_ID v \<mapsto> v)\<rparr>))
    | Inr j \<Rightarrow> (\<exists>v flavor. cat_Flavor (sv_catalog S) (cr_FlavorID req) = Some flavor \<and>
        cat_Image (sv_catalog S) (cr_ImageID req) \<noteq> None \<and>
        resolveNetwork (sv_cfg S) (cr_Network req) \<in> range Inr \<and>
        vm_Status v = VMStatusProvisioning \<and> vm_VCPUs v = fl_VCPUs flavor \<and>
        vm_MemoryMB v = fl_MemoryMB flavor \<and> vm_DiskGB v = fl_DiskGB flavor \<and>
        (TrimSpace (cr_Hostname req) \<noteq> [] \<longrightarrow> validateHostname (vm_Hostname v) = Inr ()) \<and>
        validatePassword (vm_Password v) = Inr () \<and>
        sv_vms (sqlite_view (w_store w)) (vm_ID v) = None \<and>
        job_VMID j = vm_ID v \<and> job_Type j = JobCreate \<and> job_State j = JobQueued \<and>
        w_sched w' = w_sched w @ [job_ID j] \<and>
        sqlite_view (w_store w') = (sqlite_view (w_store w))\<lparr>
          sv_vms := (sv_vms (sqlite_view (w_store w)))(vm_ID v \<mapsto> v),
          sv_jobs := (sv_jobs (sqlite_view (w_store w)))(job_ID j \<mapsto> j)\<rparr>)"
proof -
  note law = agent.Create_law [where S = S, unfolded with_sqlite [OF assms(1)], OF assms(3,2)]
  show ?thesis
  proof (cases r)
    case (Inl e)
    then show ?thesis using law by simp
  next
    case (Inr j)
    then obtain flavor img net w1 i h q now now' v where
      ch: "create_choices S req = Inr (flavor, img, net)" and n: "create_names req flavor i = Inr (h, q)"
      and v: "v = vm_created now' (create_record req flavor img net i h q now)"
      and rest: "sv_vms (sqlite_view (w_store w)) i = None"
        "job_VMID j = i" "job_Type j = JobCreate" "job_State j = JobQueued" "w_sched w' = w_sched w @ [job_ID j]"
        "sqlite_view (w_store w') = (sqlite_view (w_store w))\<lparr>sv_vms := (sv_vms (sqlite_view (w_store w)))(i \<mapsto> v),
          sv_jobs := (sv_jobs (sqlite_view (w_store w)))(job_ID j \<mapsto> j)\<rparr>"
      using law by (auto simp only: sum.case)
    have c: "cat_Flavor (sv_catalog S) (cr_FlavorID req) = Some flavor" "cat_Image (sv_catalog S) (cr_ImageID req) \<noteq> None"
      "resolveNetwork (sv_cfg S) (cr_Network req) = Inr net" "validatePassword (cr_Password req) = Inr ()"
      using ch by (auto simp: create_choices_def split: option.splits sum.splits)
    have h: "TrimSpace (cr_Hostname req) \<noteq> [] \<longrightarrow> validateHostname h = Inr ()"
      using n by (auto simp: create_names_def Let_def split: option.splits sum.splits if_splits)
    have f: "vm_ID v = i" "vm_Status v = VMStatusProvisioning" "vm_VCPUs v = fl_VCPUs flavor"
      "vm_MemoryMB v = fl_MemoryMB flavor" "vm_DiskGB v = fl_DiskGB flavor" "vm_Hostname v = h" "vm_Password v = cr_Password req"
      by (simp_all add: v vm_created_def create_record_def)
    show ?thesis
      unfolding Inr sum.case
      by (rule exI [of _ v], rule exI [of _ flavor]) (use c h f rest in \<open>simp add: image_iff\<close>)
  qed
qed

lemma committed_insert:
  fixes S :: "(SQLiteStore, 'c, 'f) Service"
  assumes "sv_store S = sqlite_ops" "sqlite_inv (w_store w)" "sqlite_inv (w_store w')"
    and "committed S w = (Inr c0, w0)" "committed S w' = (Inr c, w'')"
    and "sv_vms (sqlite_view (w_store w')) = (sv_vms (sqlite_view (w_store w)))(vm_ID v \<mapsto> v)"
    and "sv_vms (sqlite_view (w_store w)) (vm_ID v) = None" "live v"
  shows "cm_vms c = cm_vms c0 + 1" "cm_vcpus c = cm_vcpus c0 + vm_VCPUs v" "cm_memMB c = cm_memMB c0 + word_of_int (vm_MemoryMB v)"
proof -
  note com = agent.committed_law [where S = S, unfolded with_sqlite [OF assms(1)]]
  obtain vs where vs: "distinct vs" "set vs = ran (sv_vms (sqlite_view (w_store w)))" "c0 = fold commit_vm vs zero_commitment"
    and keyed: "\<forall>u\<in>set vs. sv_vms (sqlite_view (w_store w)) (vm_ID u) = Some u"
    using com [OF assms(4,2)] by auto
  obtain vs' where vs': "distinct vs'" "set vs' = ran (sv_vms (sqlite_view (w_store w')))" "c = fold commit_vm vs' zero_commitment"
    using com [OF assms(5,3)] by auto
  have new: "set vs' = insert v (set vs)" using vs(2) vs'(2) assms(7) by (simp add: assms(6))
  have "v \<notin> set vs" using keyed assms(7) by auto
  from commit_insert [OF vs(1) vs'(1) new this assms(8), folded vs(3) vs'(3)]
  show "cm_vms c = cm_vms c0 + 1" "cm_vcpus c = cm_vcpus c0 + vm_VCPUs v" "cm_memMB c = cm_memMB c0 + word_of_int (vm_MemoryMB v)"
    by simp_all
qed


definition demo_request :: CreateRequest where
  "demo_request = \<lparr>cr_FlavorID = ''s1.small'', cr_ImageID = ''ubuntu-22.04'', cr_Hostname = [], cr_Password = [],
     cr_SSHKeys = [], cr_Network = \<lparr>nr_NetworkID = [], nr_Mode = ''bridge''\<rparr>, cr_TrafficQuotaGB = None\<rparr>"

text \<open>The demonstration host with room for one VM.\<close>

definition tight_service :: "(SQLiteStore, Fake, unit) Service" where
  "tight_service = demo_service\<lparr>sv_cfg := demo_config\<lparr>cfg_Capacity := \<lparr>cap_CPUOvercommit = 1 / 4,
     cap_MemOvercommit = 1, cap_ReservedMemoryMB = 15360, cap_MaxVMs = 1\<rparr>\<rparr>\<rparr>"

lemma tight_choices: "\<exists>flavor img net. create_choices tight_service demo_request = Inr (flavor, img, net) \<and>
  fl_VCPUs flavor = 1 \<and> fl_MemoryMB flavor = 1024 \<and> fl_TrafficQuotaGB flavor = 1"
  by (simp add: create_choices_def tight_service_def demo_service_def demo_request_def demo_config_def dev_config_def
      catalog_New_def cat_Flavor_def cat_Image_def resolveNetwork_def demo_bridge_def NetworkModeNAT_def
      NetworkModeBridge_def validatePassword_def validateSSHKeys_def)

lemma tight_facts: "sv_store tight_service = sqlite_ops" "sv_conn tight_service = fake_ops"
  "cfg_Capacity (sv_cfg tight_service) = \<lparr>cap_CPUOvercommit = 1 / 4, cap_MemOvercommit = 1,
     cap_ReservedMemoryMB = 15360, cap_MaxVMs = 1\<rparr>"
  by (simp_all add: tight_service_def)

lemma tight_admits:
  assumes "fl_VCPUs flavor = 1" "fl_MemoryMB flavor = 1024"
  shows "admit tight_service flavor demo_world = (Inr (), demo_world)"
proof -
  have l: "st_ListVMs tight_service demo_world = (Inr [], demo_world)"
    by (simp add: st_ListVMs_def tight_facts on_store_def sqlite_ops_def demo_world_def
        empty_store_def ListVMs_def driver_def)
  have h: "on_conn (fake_HostInfo p) demo_world = (Inr \<lparr>hi_Hostname = ''fake-host'', hi_CPUs = 8,
     hi_MemoryTotalBytes = push_bit 30 16, hi_MemoryFreeBytes = push_bit 30 8,
     hi_StorageBytes = push_bit 30 500, hi_StorageFreeBytes = push_bit 30 400,
     hi_LibvirtVersion = ''0.0.0''\<rparr>, demo_world)" for p
    by (simp add: on_conn_def fake_HostInfo_def demo_world_def)
  have "drop_bit 20 (push_bit 30 16 :: 64 word) = 16384" by code_simp
  then show ?thesis
    by (simp add: admit_def committed_def l zero_commitment_def assms tight_facts h)
qed

context service_calm
begin

lemma enqueue_new_calm:
  assumes "calm (w_store w)" "sv_jobs (view (w_store w)) (w_uuid w 0) = None"
  shows "\<exists>j w'. enqueue_new S typ i w = (Inr j, w')"
proof -
  obtain j0 w1 where j0: "job_New typ i [] w = (j0, w1)" by fastforce
  have w1: "w_store w1 = w_store w" "job_ID j0 = w_uuid w 0" using j0 by (auto simp: job_New_def uuid_NewString_def)
  obtain s' where "so_CreateJob (sv_store S) (w_clock w1 0) (j0\<lparr>job_State := JobQueued\<rparr>) (w_store w1) =
      (Inr (job_created (w_clock w1 0) (j0\<lparr>job_State := JobQueued\<rparr>)), s')"
    using calm_CreateJob [of "w_store w1" "j0\<lparr>job_State := JobQueued\<rparr>" "w_clock w1 0"] assms w1 by auto
  then show ?thesis
    by (simp add: enqueue_new_def j0 Enqueue_def st_CreateJob_def time_Now_def on_store_def)
qed

lemma st_CreateVM_calm:
  assumes "calm (w_store w)" "sv_vms (view (w_store w)) (vm_ID v) = None"
  shows "\<exists>w'. st_CreateVM S v w = (Inr (), w') \<and> calm (w_store w')"
  using calm_CreateVM [OF assms, of "w_clock w 0"] by (auto simp: st_CreateVM_def time_Now_def on_store_def)

end

lemma demo_world_view: "sqlite_view (w_store demo_world) =
  \<lparr>sv_vms = Map.empty, sv_jobs = Map.empty, sv_idem = Map.empty, sv_ips = Map.empty\<rparr>"
  by (simp add: demo_world_def empty_store_def sqlite_view_def)

lemma tight_create: "\<exists>j w' c w''. Create tight_service demo_request demo_world = (Inr j, w') \<and>
  committed tight_service w' = (Inr c, w'')"
proof -
  note wsq = with_sqlite [OF tight_facts(1)]
  obtain flavor img net where ch: "create_choices tight_service demo_request = Inr (flavor, img, net)"
    and f: "fl_VCPUs flavor = 1" "fl_MemoryMB flavor = 1024" "fl_TrafficQuotaGB flavor = 1" using tight_choices by blast
  obtain i w2 where u: "uuid_NewString demo_world = (i, w2)" by fastforce
  obtain now w3 where t: "time_Now w2 = (now, w3)" by fastforce
  have w3: "w_store w3 = w_store demo_world" using u t by (auto simp: uuid_NewString_def time_Now_def)
  have n: "create_names demo_request flavor i = Inr (''vm-'' @ take 8 i, 1)"
    by (simp add: create_names_def demo_request_def f)
  let ?v = "create_record demo_request flavor img net i (''vm-'' @ take 8 i) 1 now"
  obtain w4 where c: "st_CreateVM tight_service ?v w3 = (Inr (), w4)" "sqlite_calm (w_store w4)"
    using agent.st_CreateVM_calm [of w3 ?v tight_service, unfolded wsq] w3 by (auto simp: demo_world_view)
  have v4: "sqlite_inv (w_store w4) \<and> sv_jobs (sqlite_view (w_store w4)) = Map.empty"
    using agent.st_CreateVM_law [where S = tight_service, unfolded wsq, OF c(1)] w3 by (auto simp: demo_world_view)
  obtain j w5 where e: "enqueue_new tight_service JobCreate i w4 = (Inr j, w5)"
    using agent.enqueue_new_calm [where S = tight_service, unfolded wsq, of w4 JobCreate i] c(2) v4 by auto
  have "Create tight_service demo_request demo_world = (Inr j, w5)"
    by (simp add: Create_def ch tight_admits [OF f(1,2)] u n t c(1) [simplified] e)
  moreover have "sqlite_calm (w_store w5)"
    using agent.fine.enqueue_new_law [where S = tight_service, unfolded wsq, OF e] c(2) v4 by auto
  ultimately show ?thesis
    using agent.st_ListVMs_calm [of w5 tight_service, unfolded wsq] by (auto simp: committed_def)
qed

theorem Create_records_witness:
  "\<exists>j w' v. Create tight_service demo_request demo_world = (Inr j, w') \<and>
    sv_vms (sqlite_view (w_store w')) (job_VMID j) = Some v \<and> vm_MemoryMB v = 1024"
proof -
  obtain j w' where c: "Create tight_service demo_request demo_world = (Inr j, w')" using tight_create by blast
  have f: "cat_Flavor (sv_catalog tight_service) (cr_FlavorID demo_request) = Some fl \<Longrightarrow> fl_MemoryMB fl = 1024" for fl
    using tight_choices by (auto simp: create_choices_def split: option.splits sum.splits)
  from Create_records [OF tight_facts(1) demo_world_ok(1) c] show ?thesis using c f by auto
qed


end
