(* ===== verification/VmAccounting.thy ===== *)
theory VmAccounting
  imports VmTraffic VmLifecycle
begin

text \<open>
  What the accountant and the quota endpoints guarantee. \<open>quota_decision\<close> states the rule as a
  function of the record; \<open>tick_result\<close> states what one tick makes of a record. The theorems
  show that \<open>reconcileQuota\<close>, \<open>accountTick\<close> and \<open>SetTrafficQuota\<close> implement them.
\<close>

section \<open>The quota decision\<close>

definition over_quota :: "VM \<Rightarrow> bool" where
  "over_quota v \<longleftrightarrow> vm_TrafficQuotaBytes v \<noteq> 0 \<and> vm_TrafficUsedBytes v \<ge> vm_TrafficQuotaBytes v"

definition quota_blocked :: "VM \<Rightarrow> bool" where
  "quota_blocked v \<longleftrightarrow> vm_NetworkBlocked v \<and> vm_NetworkBlockReason v = blockReasonQuota"

definition quota_decision :: "VM \<Rightarrow> VM" where
  "quota_decision v =
     (if over_quota v \<and> \<not> vm_NetworkBlocked v
      then v\<lparr>vm_NetworkBlocked := True, vm_NetworkBlockReason := blockReasonQuota\<rparr>
      else if \<not> over_quota v \<and> quota_blocked v then unblocked v else v)"

lemma block_changes:
  "\<not> vm_NetworkBlocked v \<Longrightarrow> v\<lparr>vm_NetworkBlocked := True, vm_NetworkBlockReason := r\<rparr> \<noteq> v"
  "vm_NetworkBlocked v \<Longrightarrow> unblocked v \<noteq> v"
  by (auto simp: unblocked_def dest!: arg_cong [where f = vm_NetworkBlocked])

lemma reconcileQuota_decision:
  "vm_Status v \<noteq> VMStatusTerminated \<Longrightarrow> reconcileQuota S v w =
     (quota_decision v \<noteq> v, quota_decision v,
      if quota_decision v = v then w else ignore_err (applyLink S (quota_decision v) w))"
  by (auto simp: reconcileQuota_def quota_decision_def over_quota_def quota_blocked_def Let_def block_changes)

lemma quota_decision_settled:
  "vm_NetworkBlocked (quota_decision v) \<longleftrightarrow> over_quota v \<or> vm_NetworkBlocked v \<and> \<not> quota_blocked v"
  "over_quota (quota_decision v) = over_quota v"
  "quota_decision (quota_decision v) = quota_decision v"
  by (auto simp: quota_decision_def over_quota_def quota_blocked_def unblocked_def blockReasonQuota_def)

lemma quota_decision_fields [simp]:
  "vm_ID (quota_decision v) = vm_ID v" "vm_Status (quota_decision v) = vm_Status v"
  "vm_TrafficUsedBytes (quota_decision v) = vm_TrafficUsedBytes v"
  "vm_TrafficQuotaBytes (quota_decision v) = vm_TrafficQuotaBytes v"
  "vm_CreatedAt (quota_decision v) = vm_CreatedAt v"
  "vm_DomainName (quota_decision v) = vm_DomainName v"
  by (auto simp: quota_decision_def unblocked_def)

lemma applyLink_store [simp]: "w_store (ignore_err (applyLink S v w)) = w_store w"
  "w_trafficLast (ignore_err (applyLink S v w)) = w_trafficLast w"
  by (auto simp: applyLink_def conn_state_def on_conn_def ignore_err_def split: prod.splits sum.splits)

text \<open>Quota enforcement settles in one step. For a VM that is not terminated, \<open>reconcileQuota\<close>
  leaves the network cut exactly when the VM is at or over a non-zero quota or was already cut
  for another reason (a manual block always survives); it reports a change exactly when the
  record changed, touches no other field and not the database, and running it again does
  nothing.\<close>

lemma reconcileQuota_settles:
  assumes "vm_Status v \<noteq> VMStatusTerminated" "reconcileQuota S v w = (changed, v', w')"
  shows "(vm_NetworkBlocked v' \<longleftrightarrow>
       vm_TrafficQuotaBytes v \<noteq> 0 \<and> vm_TrafficUsedBytes v \<ge> vm_TrafficQuotaBytes v \<or>
       vm_NetworkBlocked v \<and> vm_NetworkBlockReason v \<noteq> blockReasonQuota) \<and>
    (changed \<longleftrightarrow> v' \<noteq> v) \<and>
    v' = v\<lparr>vm_NetworkBlocked := vm_NetworkBlocked v', vm_NetworkBlockReason := vm_NetworkBlockReason v'\<rparr> \<and>
    (vm_NetworkBlocked v \<and> vm_NetworkBlockReason v \<noteq> blockReasonQuota \<longrightarrow> v' = v) \<and>
    w_store w' = w_store w \<and> reconcileQuota S v' w' = (False, v', w')"
proof -
  have v': "v' = quota_decision v" and c: "changed = (v' \<noteq> v)"
    and w': "w' = (if quota_decision v = v then w else ignore_err (applyLink S (quota_decision v) w))"
    using assms(2) by (auto simp: reconcileQuota_decision [OF assms(1)])
  have again: "reconcileQuota S v' w' = (False, v', w')"
    using reconcileQuota_decision [of v' S w'] assms(1) by (simp add: v' quota_decision_settled)
  show ?thesis
    unfolding c
    by (intro conjI again) (auto simp: v' w' quota_decision_def over_quota_def quota_blocked_def unblocked_def)
qed

section \<open>One accounting tick\<close>

text \<open>The bytes a reading adds for a VM, given the last counters seen: nothing without a reading or
  at the first sighting.\<close>

definition tick_delta :: "(string \<rightharpoonup> netCounters) \<Rightarrow> DomainStats list \<Rightarrow> VM \<Rightarrow> 64 word" where
  "tick_delta seen stats v = (case (stats_by_name stats (vm_DomainName v), seen (vm_DomainName v)) of
     (Some st, Some prev) \<Rightarrow> resetAwareDelta (nc_rx prev) (ds_NetRxBytes st) + resetAwareDelta (nc_tx prev) (ds_NetTxBytes st)
   | _ \<Rightarrow> 0)"

definition tick_counters :: "(string \<rightharpoonup> netCounters) \<Rightarrow> DomainStats list \<Rightarrow> VM \<Rightarrow> netCounters option" where
  "tick_counters seen stats v = (case stats_by_name stats (vm_DomainName v) of
     Some st \<Rightarrow> Some \<lparr>nc_rx = ds_NetRxBytes st, nc_tx = ds_NetTxBytes st\<rparr> | None \<Rightarrow> seen (vm_DomainName v))"

definition tick_result :: "(string \<rightharpoonup> netCounters) \<Rightarrow> DomainStats list \<Rightarrow> VM \<Rightarrow> VM" where
  "tick_result seen stats v = (if vm_Status v = VMStatusTerminated then v
     else quota_decision (v\<lparr>vm_TrafficUsedBytes := vm_TrafficUsedBytes v + tick_delta seen stats v\<rparr>))"

lemma sample_vm_tick:
  assumes "sample_vm (stats_by_name stats) v w = (delta, w1)"
  shows "delta = tick_delta (w_trafficLast w) stats v" "w_store w1 = w_store w" "w_sched w1 = w_sched w"
    "w_timers w1 = w_timers w" "w_trafficLast w1 = (w_trafficLast w)(vm_DomainName v := tick_counters (w_trafficLast w) stats v)"
  using assms by (auto simp: sample_vm_def tick_delta_def tick_counters_def Let_def split: option.splits)

lemma used_changes: "d \<noteq> 0 \<Longrightarrow> quota_decision (v\<lparr>vm_TrafficUsedBytes := vm_TrafficUsedBytes v + d\<rparr>) \<noteq> v"
  by (auto dest!: arg_cong [where f = vm_TrafficUsedBytes])

text \<open>One VM's share of the tick, for a store that answers.\<close>

lemma account_vm_tick:
  fixes S :: "(SQLiteStore, 'c, 'f) Service" and seen stats v w
  assumes S: "sv_store S = sqlite_ops" and ok: "sqlite_inv (w_store w) \<and> sqlite_calm (w_store w)"
    and v: "sv_vms (sqlite_view (w_store w)) (vm_ID v) = Some v"
    and seen: "w_trafficLast w (vm_DomainName v) = seen (vm_DomainName v)"
  defines "w' \<equiv> account_vm S (stats_by_name stats) v w"
  shows "job_frame sqlite_view (\<lambda>s. sqlite_inv s \<and> sqlite_calm s) (vm_ID v) w w' \<and>
    (\<exists>now. sv_vms (sqlite_view (w_store w')) (vm_ID v) =
      Some (if tick_result seen stats v = v then v else (tick_result seen stats v)\<lparr>vm_UpdatedAt := now\<rparr>)) \<and>
    w_trafficLast w' = (if vm_Status v = VMStatusTerminated then w_trafficLast w
      else (w_trafficLast w)(vm_DomainName v := tick_counters seen stats v))"
proof (cases "vm_Status v = VMStatusTerminated")
  case True
  then show ?thesis using ok v by (simp add: w'_def account_vm_def tick_result_def job_frame_def)
next
  case False
  let ?jf = "job_frame sqlite_view (\<lambda>s. sqlite_inv s \<and> sqlite_calm s) (vm_ID v) w"
  obtain delta w1 where s: "sample_vm (stats_by_name stats) v w = (delta, w1)" by fastforce
  note t = sample_vm_tick [OF s]
  have seen': "tick_delta (w_trafficLast w) stats v = tick_delta seen stats v"
    "tick_counters (w_trafficLast w) stats v = tick_counters seen stats v"
    using seen by (auto simp: tick_delta_def tick_counters_def split: option.splits)
  define v1 where "v1 = v\<lparr>vm_TrafficUsedBytes := vm_TrafficUsedBytes v + delta\<rparr>"
  have v1: "(if delta > 0 then v\<lparr>vm_TrafficUsedBytes := vm_TrafficUsedBytes v + delta\<rparr> else v) = v1"
    by (simp add: v1_def word_gt_0)
  define w2 where "w2 = (if quota_decision v1 = v1 then w1 else ignore_err (applyLink S (quota_decision v1) w1))"
  have r: "reconcileQuota S v1 w1 = (quota_decision v1 \<noteq> v1, quota_decision v1, w2)"
    unfolding w2_def by (rule reconcileQuota_decision) (simp add: v1_def False)
  have res: "quota_decision v1 = tick_result seen stats v"
    using False by (simp add: tick_result_def v1_def t(1) seen')
  have chg: "delta > 0 \<or> quota_decision v1 \<noteq> v1 \<longleftrightarrow> quota_decision v1 \<noteq> v"
    using used_changes [of delta v] by (cases "delta = 0") (auto simp: v1_def word_gt_0)
  have w': "w' = (if quota_decision v1 \<noteq> v then ignore_err (st_UpdateVM S (quota_decision v1) w2) else w2)"
    unfolding w'_def account_vm_def using False by (simp add: s v1 r chg Let_def)
  have f1: "?jf w1" by (rule job_frame_same_store [OF job_frame_refl [where sinv = "\<lambda>s. sqlite_inv s \<and> sqlite_calm s", OF ok] t(2-4)])
  have f2: "?jf w2"
    using calmrun.frame_reconcileQuota [where S = S, unfolded with_sqlite [OF S], OF r f1] by blast
  have st2: "w_store w2 = w_store w" and tl2: "w_trafficLast w2 = w_trafficLast w1"
    by (simp_all add: w2_def t(2))
  have row: "sv_vms (sqlite_view (w_store w2)) (vm_ID (quota_decision v1)) = Some v"
    using v by (simp add: st2 v1_def)
  have idv: "vm_ID (quota_decision v1) = vm_ID v" by (simp add: v1_def)
  have ok2: "sqlite_inv (w_store w2)" "sqlite_calm (w_store w2)" using ok by (simp_all add: st2)
  obtain w3 now where u: "st_UpdateVM S (quota_decision v1) w2 = (Inr (), w3)"
    "sqlite_view (w_store w3) = (sqlite_view (w_store w2))\<lparr>sv_vms := (sv_vms (sqlite_view (w_store w2)))(vm_ID (quota_decision v1) \<mapsto> vm_written now v (quota_decision v1))\<rparr>"
    "store_frame w2 w3"
    by (rule agent.st_UpdateVM_effect [where S = S, unfolded with_sqlite [OF S], OF ok2 row])
  have f3: "?jf w3"
    using calmrun.safe_UpdateVM [where S = S, unfolded with_sqlite [OF S], OF f2 idv]
    by (simp add: run_safe_def u(1))
  have new: "vm_written now v (quota_decision v1) = (tick_result seen stats v)\<lparr>vm_UpdatedAt := now\<rparr>"
    unfolding res [symmetric] by (simp add: vm_written_def v1_def)
  have tl: "w_trafficLast w2 = (w_trafficLast w)(vm_DomainName v := tick_counters seen stats v)"
    "w_trafficLast w3 = w_trafficLast w2"
    using u(3) by (simp_all add: tl2 t(5) seen' store_frame_def)
  have row3: "sv_vms (sqlite_view (w_store w3)) (vm_ID v) = Some ((tick_result seen stats v)\<lparr>vm_UpdatedAt := now\<rparr>)"
    by (simp add: u(2) new) (simp add: v1_def)
  have "w' = (if tick_result seen stats v = v then w2 else w3)" by (simp add: w' u(1) [unfolded res] res)
  then show ?thesis using f2 f3 row [unfolded idv] row3 False tl by auto
qed


lemma account_vm_last:
  assumes "k \<noteq> vm_DomainName v"
  shows "w_trafficLast (account_vm S (stats_by_name stats) v w) k = w_trafficLast w k"
proof -
  obtain delta w1 where s: "sample_vm (stats_by_name stats) v w = (delta, w1)" by fastforce
  have w1: "w_trafficLast w1 k = w_trafficLast w k" using sample_vm_tick(5) [OF s] assms by simp
  have q: "w_trafficLast w2 = w_trafficLast w1" if "reconcileQuota S u w1 = (b, v2, w2)" for u b v2 w2
    using that by (auto simp: reconcileQuota_def Let_def split: if_splits)
  have u: "w_trafficLast (ignore_err (st_UpdateVM S u w2)) = w_trafficLast w2" for u w2
  proof (cases "st_UpdateVM S u w2")
    case (Pair r w3)
    then show ?thesis using st_frame(4) [OF Pair] by (simp add: store_frame_def)
  qed
  show ?thesis using w1 by (auto simp: account_vm_def s Let_def u dest!: q split: prod.splits)
qed

text \<open>A VM before and after its share of the tick; the whole round takes each VM from one to the other.\<close>

definition tick_todo :: "(string \<rightharpoonup> netCounters) \<Rightarrow> VM \<Rightarrow> (SQLiteStore, 'c, 'f) world \<Rightarrow> bool" where
  "tick_todo seen v w \<longleftrightarrow> sv_vms (sqlite_view (w_store w)) (vm_ID v) = Some v \<and>
     w_trafficLast w (vm_DomainName v) = seen (vm_DomainName v)"

definition tick_done :: "(string \<rightharpoonup> netCounters) \<Rightarrow> DomainStats list \<Rightarrow> VM \<Rightarrow> (SQLiteStore, 'c, 'f) world \<Rightarrow> bool" where
  "tick_done seen stats v w \<longleftrightarrow> (\<exists>now. sv_vms (sqlite_view (w_store w)) (vm_ID v) =
      Some (if tick_result seen stats v = v then v else (tick_result seen stats v)\<lparr>vm_UpdatedAt := now\<rparr>)) \<and>
    (vm_Status v \<noteq> VMStatusTerminated \<longrightarrow> w_trafficLast w (vm_DomainName v) = tick_counters seen stats v)"

lemma account_vm_others:
  assumes "vm_DomainName u \<noteq> vm_DomainName v" "vm_ID u \<noteq> vm_ID v"
    and "job_frame sqlite_view I (vm_ID v) w (account_vm S (stats_by_name stats) v w)"
  shows "(tick_todo seen u w \<longrightarrow> tick_todo seen u (account_vm S (stats_by_name stats) v w)) \<and>
    (tick_done seen stats u w \<longrightarrow> tick_done seen stats u (account_vm S (stats_by_name stats) v w))"
  using account_vm_last [OF assms(1), of S stats w] assms(2,3) by (simp add: tick_todo_def tick_done_def job_frame_def)

lemma account_fold:
  fixes S :: "(SQLiteStore, 'c, 'f) Service" and stats
  assumes S: "sv_store S = sqlite_ops" and ok: "sqlite_inv (w_store w) \<and> sqlite_calm (w_store w)"
    and vs: "distinct (map vm_ID vs)" "\<forall>v\<in>set vs. sv_vms (sqlite_view (w_store w)) (vm_ID v) = Some v"
    and names: "\<forall>u\<in>set vs. \<forall>v\<in>set vs. vm_DomainName u = vm_DomainName v \<longrightarrow> vm_ID u = vm_ID v"
  defines "w' \<equiv> fold (account_vm S (stats_by_name stats)) vs w"
  shows "(sqlite_inv (w_store w') \<and> sqlite_calm (w_store w')) \<and> sv_jobs (sqlite_view (w_store w')) = sv_jobs (sqlite_view (w_store w)) \<and>
    (\<forall>k. k \<notin> vm_ID ` set vs \<longrightarrow> sv_vms (sqlite_view (w_store w')) k = sv_vms (sqlite_view (w_store w)) k) \<and>
    (\<forall>v\<in>set vs. tick_done (w_trafficLast w) stats v w')"
proof -
  let ?seen = "w_trafficLast w" and ?acc = "account_vm S (stats_by_name stats)" and ?I = "\<lambda>s. sqlite_inv s \<and> sqlite_calm s"
  have step: "job_frame sqlite_view ?I (vm_ID v) w1 (?acc v w1) \<and> tick_done ?seen stats v (?acc v w1)"
    if "?I (w_store w1)" "tick_todo ?seen v w1" for v w1
    using account_vm_tick [OF S that(1), of v ?seen stats] that(2) by (auto simp: tick_todo_def tick_done_def)
  have keep: "(tick_todo ?seen u w1 \<longrightarrow> tick_todo ?seen u (?acc v w1)) \<and> (tick_done ?seen stats u w1 \<longrightarrow> tick_done ?seen stats u (?acc v w1))"
    if "u \<in> set vs" "v \<in> set vs" "vm_ID u \<noteq> vm_ID v" "job_frame sqlite_view ?I (vm_ID v) w1 (?acc v w1)" for u v w1
    by (rule account_vm_others [OF _ that(3,4)]) (use names that(1-3) in blast)
  have todo: "\<forall>v\<in>set vs. tick_todo ?seen v w" using vs(2) by (simp add: tick_todo_def)
  have "(?I (w_store w') \<and> w_sched w' = w_sched w \<and> w_timers w' = w_timers w) \<and>
    sv_jobs (sqlite_view (w_store w')) = sv_jobs (sqlite_view (w_store w)) \<and>
    (\<forall>k. k \<notin> vm_ID ` set vs \<longrightarrow> sv_vms (sqlite_view (w_store w')) k = sv_vms (sqlite_view (w_store w)) k) \<and>
    (\<forall>v\<in>set vs. tick_done ?seen stats v w')"
    unfolding w'_def by (rule fold_vms [where f = ?acc and don = "tick_done ?seen stats" and view = sqlite_view
        and sinv = ?I, OF step keep ok vs(1) todo]) assumption+
  then show ?thesis by blast
qed

lemma accountTick_law:
  fixes S :: "(SQLiteStore, 'c, 'f) Service"
  assumes "sv_store S = sqlite_ops" "sqlite_inv (w_store w)" "sqlite_calm (w_store w)"
    and stats: "co_AllDomainStats (sv_conn S) (w_conn w) = (Inr stats, c)"
    and names: "\<forall>u\<in>ran (sv_vms (sqlite_view (w_store w))). \<forall>v\<in>ran (sv_vms (sqlite_view (w_store w))).
      vm_DomainName u = vm_DomainName v \<longrightarrow> vm_ID u = vm_ID v"
  shows "sqlite_inv (w_store (accountTick S w)) \<and> sqlite_calm (w_store (accountTick S w))"
    "sv_jobs (sqlite_view (w_store (accountTick S w))) = sv_jobs (sqlite_view (w_store w))"
    "\<And>i. sv_vms (sqlite_view (w_store w)) i = None \<Longrightarrow> sv_vms (sqlite_view (w_store (accountTick S w))) i = None"
    "\<And>i v. sv_vms (sqlite_view (w_store w)) i = Some v \<Longrightarrow> vm_ID v = i"
    "\<And>i v. sv_vms (sqlite_view (w_store w)) i = Some v \<Longrightarrow> tick_done (w_trafficLast w) stats v (accountTick S w)"
proof -
  define w0 where "w0 = w\<lparr>w_conn := c\<rparr>"
  have w0: "w_store w0 = w_store w" "w_trafficLast w0 = w_trafficLast w" by (simp_all add: w0_def)
  obtain vs where l: "st_ListVMs S w0 = (Inr vs, w0)"
    using agent.st_ListVMs_calm [where S = S, unfolded with_sqlite [OF assms(1)], of w0] assms(3) by (auto simp: w0)
  have law: "distinct (map vm_ID vs)" "set vs = ran (sv_vms (sqlite_view (w_store w)))"
    "\<forall>v\<in>set vs. sv_vms (sqlite_view (w_store w)) (vm_ID v) = Some v"
    using agent.st_ListVMs_law [where S = S, unfolded with_sqlite [OF assms(1)], OF l] assms(2) by (simp_all add: w0)
  have w': "accountTick S w = fold (account_vm S (stats_by_name stats)) vs w0"
    by (simp add: accountTick_def on_conn_def stats l w0_def [symmetric])
  note all = account_fold [OF assms(1), of w0 vs stats, unfolded w0, OF conjI [OF assms(2,3)] law(1,3) names [folded law(2)],
      folded w']
  show "sqlite_inv (w_store (accountTick S w)) \<and> sqlite_calm (w_store (accountTick S w))"
    "sv_jobs (sqlite_view (w_store (accountTick S w))) = sv_jobs (sqlite_view (w_store w))" using all by blast+
  show "sv_vms (sqlite_view (w_store (accountTick S w))) i = None" if "sv_vms (sqlite_view (w_store w)) i = None" for i
  proof -
    from that law(3) have "i \<notin> vm_ID ` set vs" by auto
    with all that show ?thesis by simp
  qed
  fix i v assume v: "sv_vms (sqlite_view (w_store w)) i = Some v"
  show "vm_ID v = i" by (rule agent.st_GetVM_fine(2) [OF assms(3,2) v])
  have "v \<in> set vs" using v law(2) by (auto simp: ran_def)
  with all show "tick_done (w_trafficLast w) stats v (accountTick S w)" by blast
qed



definition tick_world :: "(SQLiteStore, Fake, unit) world" where
  "tick_world = vm_world demo_vm\<lparr>w_trafficLast := [''kvm-v1'' \<mapsto> \<lparr>nc_rx = 1, nc_tx = 2\<rparr>],
     w_conn := NewFake\<lparr>f_domains := [(''kvm-v1'', demo_domain)],
       f_stats := [''kvm-v1'' \<mapsto> zero_DomainStats\<lparr>ds_NetRxBytes := push_bit 30 1 + 1, ds_NetTxBytes := 0\<rparr>]\<rparr>\<rparr>"


section \<open>Setting a quota\<close>

lemma quota_bytes:
  assumes "0 \<le> q"
  shows "word_of_int q * gib = word_of_int (q * 2 ^ 30)"
    "uint (word_of_int q * gib) = q * 2 ^ 30 \<longleftrightarrow> q < 2 ^ 34"
    "word_of_int q * gib = 0 \<longleftrightarrow> q mod 2 ^ 34 = 0"
proof -
  have gib: "gib = word_of_int (2 ^ 30)" by (simp add: gib_def)
  show w: "word_of_int q * gib = word_of_int (q * 2 ^ 30)" unfolding gib by (simp only: wi_hom_mult)
  have u: "uint (word_of_int q * gib) = (q * 2 ^ 30) mod (2 ^ 34 * 2 ^ 30)"
    unfolding w uint_word_of_int by simp
  also have "\<dots> = (q mod 2 ^ 34) * 2 ^ 30" by (simp add: mult_mod_left)
  finally have u: "uint (word_of_int q * gib) = (q mod 2 ^ 34) * 2 ^ 30" .
  have "q mod 2 ^ 34 = q \<longleftrightarrow> q < 2 ^ 34"
    using assms by (metis mod_pos_pos_trivial pos_mod_bound zero_less_numeral zero_less_power)
  then show "uint (word_of_int q * gib) = q * 2 ^ 30 \<longleftrightarrow> q < 2 ^ 34" unfolding u by simp
  show "word_of_int q * gib = 0 \<longleftrightarrow> q mod 2 ^ 34 = 0"
    using u by (metis mult_eq_0_iff power_eq_0_iff uint_0_iff zero_neq_numeral)
qed



end
