(* ===== verification/VmMeter.thy ===== *)
theory VmMeter
  imports VmAccounting
begin

text \<open>
  The accounting loop (\<open>AccountTraffic\<close> in \<open>internal/vm/traffic.go\<close>) over any number of rounds: what it
  has added to a VM's usage, whatever the guests and the hypervisor do in between.
\<close>

section \<open>What a sequence of readings adds\<close>

fun meter_step :: "DomainStats option \<Rightarrow> 64 word \<times> netCounters option \<Rightarrow> 64 word \<times> netCounters option" where
  "meter_step None (used, prev) = (used, prev)"
| "meter_step (Some st) (used, prev) =
     (used + (case prev of None \<Rightarrow> 0
        | Some p \<Rightarrow> resetAwareDelta (nc_rx p) (ds_NetRxBytes st) + resetAwareDelta (nc_tx p) (ds_NetTxBytes st)),
      Some \<lparr>nc_rx = ds_NetRxBytes st, nc_tx = ds_NetTxBytes st\<rparr>)"

definition meter :: "string \<Rightarrow> netCounters option \<Rightarrow> DomainStats list list \<Rightarrow> 64 word \<times> netCounters option" where
  "meter n prev readings = fold (\<lambda>stats. meter_step (stats_by_name stats n)) readings (0, prev)"

lemma meter_Nil [simp]: "meter n prev [] = (0, prev)"
  by (simp add: meter_def)

lemma meter_snoc: "meter n prev (readings @ [stats]) = meter_step (stats_by_name stats n) (meter n prev readings)"
  by (simp add: meter_def)

text \<open>Without resets the deltas telescope: what is added is how far the counters have moved, whenever they
  were read.\<close>

lemma fold_meter_telescopes:
  assumes "sorted (nc_rx p # map ds_NetRxBytes sts)" "sorted (nc_tx p # map ds_NetTxBytes sts)"
  shows "fold (\<lambda>st. meter_step (Some st)) sts (t, Some p) =
    (t + (last (nc_rx p # map ds_NetRxBytes sts) - nc_rx p) + (last (nc_tx p # map ds_NetTxBytes sts) - nc_tx p),
     Some \<lparr>nc_rx = last (nc_rx p # map ds_NetRxBytes sts), nc_tx = last (nc_tx p # map ds_NetTxBytes sts)\<rparr>)"
  using assms
proof (induction sts arbitrary: t p)
  case (Cons st sts)
  have "nc_rx p \<le> ds_NetRxBytes st" "nc_tx p \<le> ds_NetTxBytes st" using Cons.prems by simp_all
  then have d: "resetAwareDelta (nc_rx p) (ds_NetRxBytes st) = ds_NetRxBytes st - nc_rx p"
    "resetAwareDelta (nc_tx p) (ds_NetTxBytes st) = ds_NetTxBytes st - nc_tx p" by (simp_all add: resetAwareDelta_def not_less [symmetric])
  show ?case
    using Cons.IH [of "\<lparr>nc_rx = ds_NetRxBytes st, nc_tx = ds_NetTxBytes st\<rparr>"] Cons.prems by (simp add: d algebra_simps)
qed (simp add: netCounters.equality)

lemma meter_telescopes:
  assumes "map (\<lambda>stats. stats_by_name stats n) readings = map Some sts"
    and "sorted (nc_rx p # map ds_NetRxBytes sts)" "sorted (nc_tx p # map ds_NetTxBytes sts)"
  shows "fst (meter n (Some p) readings) =
    (last (nc_rx p # map ds_NetRxBytes sts) - nc_rx p) + (last (nc_tx p # map ds_NetTxBytes sts) - nc_tx p)"
proof -
  have "meter n (Some p) readings = fold meter_step (map (\<lambda>stats. stats_by_name stats n) readings) (0, Some p)"
    by (simp add: meter_def fold_map comp_def)
  also have "\<dots> = fold (\<lambda>st. meter_step (Some st)) sts (0, Some p)" by (simp add: assms(1) fold_map comp_def)
  finally show ?thesis using fold_meter_telescopes [OF assms(2,3), of 0] by simp
qed

section \<open>The loop\<close>

text \<open>A row after some rounds: the usage has grown by what the readings add, and the rest of what the
  accounting depends on is as it was.\<close>

definition metered :: "(SQLiteStore, 'c, 'f) world \<Rightarrow> DomainStats list list \<Rightarrow> VM \<Rightarrow> (SQLiteStore, 'c, 'f) world \<Rightarrow> bool" where
  "metered w readings v w' \<longleftrightarrow> (\<exists>v'. sv_vms (sqlite_view (w_store w')) (vm_ID v) = Some v' \<and>
     vm_ID v' = vm_ID v \<and> vm_DomainName v' = vm_DomainName v \<and> vm_Status v' = vm_Status v \<and> vm_TrafficQuotaBytes v' = vm_TrafficQuotaBytes v \<and>
     (vm_Status v \<noteq> VMStatusTerminated \<longrightarrow>
       (vm_TrafficUsedBytes v' - vm_TrafficUsedBytes v, w_trafficLast w' (vm_DomainName v)) =
          meter (vm_DomainName v) (w_trafficLast w (vm_DomainName v)) readings \<and>
       (readings \<noteq> [] \<longrightarrow> over_quota v' \<longrightarrow> vm_NetworkBlocked v')))"

abbreviation one_name :: "(SQLiteStore, 'c, 'f) world \<Rightarrow> bool" where
  "one_name w \<equiv> \<forall>u\<in>ran (sv_vms (sqlite_view (w_store w))). \<forall>v\<in>ran (sv_vms (sqlite_view (w_store w))).
     vm_DomainName u = vm_DomainName v \<longrightarrow> vm_ID u = vm_ID v"

lemma metered_same:
  "w_store w2 = w_store w1 \<Longrightarrow> w_trafficLast w2 = w_trafficLast w1 \<Longrightarrow> metered w readings v w2 = metered w readings v w1"
  by (simp add: metered_def)

lemma tick_done_meters:
  assumes "tick_done (w_trafficLast w1) stats u w2" "sv_vms (sqlite_view (w_store w1)) (vm_ID v) = Some u"
    and "metered w readings v w1"
  shows "metered w (readings @ [stats]) v w2"
proof -
  let ?seen = "w_trafficLast w1" and ?n = "vm_DomainName v"
  obtain u' where "u' = u" and u: "vm_ID u = vm_ID v" "vm_DomainName u = ?n" "vm_Status u = vm_Status v" "vm_TrafficQuotaBytes u = vm_TrafficQuotaBytes v"
    and m: "vm_Status v \<noteq> VMStatusTerminated \<Longrightarrow> (vm_TrafficUsedBytes u - vm_TrafficUsedBytes v, ?seen ?n) = meter ?n (w_trafficLast w ?n) readings"
    using assms(2,3) by (auto simp: metered_def)
  define t where "t = tick_result ?seen stats u"
  obtain now where "sv_vms (sqlite_view (w_store w2)) (vm_ID v) = Some (if t = u then u else t\<lparr>vm_UpdatedAt := now\<rparr>)"
    and l: "vm_Status v \<noteq> VMStatusTerminated \<Longrightarrow> w_trafficLast w2 ?n = tick_counters ?seen stats u"
    using assms(1) unfolding tick_done_def t_def [symmetric] u by blast
  moreover have "\<exists>k. (if t = u then u else t\<lparr>vm_UpdatedAt := now\<rparr>) = t\<lparr>vm_UpdatedAt := k\<rparr>"
    by (cases "t = u") (auto intro: exI [of _ "vm_UpdatedAt u"])
  ultimately obtain k where x: "sv_vms (sqlite_view (w_store w2)) (vm_ID v) = Some (t\<lparr>vm_UpdatedAt := k\<rparr>)" by auto
  have f: "vm_ID t = vm_ID v" "vm_DomainName t = ?n" "vm_Status t = vm_Status v" "vm_TrafficQuotaBytes t = vm_TrafficQuotaBytes v"
    using u by (simp_all add: t_def tick_result_def)
  have live: "(vm_TrafficUsedBytes t - vm_TrafficUsedBytes v, w_trafficLast w2 ?n) = meter ?n (w_trafficLast w ?n) (readings @ [stats]) \<and>
      (over_quota (t\<lparr>vm_UpdatedAt := k\<rparr>) \<longrightarrow> vm_NetworkBlocked t)" if st: "vm_Status v \<noteq> VMStatusTerminated"
  proof
    have t: "t = quota_decision (u\<lparr>vm_TrafficUsedBytes := vm_TrafficUsedBytes u + tick_delta ?seen stats u\<rparr>)"
      using st u(3) by (simp add: t_def tick_result_def)
    show "(vm_TrafficUsedBytes t - vm_TrafficUsedBytes v, w_trafficLast w2 ?n) = meter ?n (w_trafficLast w ?n) (readings @ [stats])"
      unfolding meter_snoc m [OF st, symmetric] l [OF st] using u(2)
      by (auto simp: t tick_delta_def tick_counters_def split: option.splits)
    show "over_quota (t\<lparr>vm_UpdatedAt := k\<rparr>) \<longrightarrow> vm_NetworkBlocked t"
      using quota_decision_settled(1,2) by (simp add: t over_quota_def)
  qed
  show ?thesis unfolding metered_def by (rule exI [of _ "t\<lparr>vm_UpdatedAt := k\<rparr>"]) (use x f live in simp)
qed

lemma accountTick_missed:
  assumes "co_AllDomainStats (sv_conn S) (w_conn w) = (Inl e, c)"
  shows "accountTick S w = w\<lparr>w_conn := c\<rparr>"
  using assms by (simp add: accountTick_def on_conn_def)


lemma AccountTraffic_metered:
  fixes S :: "(SQLiteStore, 'c, 'f) Service"
  assumes S: "sv_store S = sqlite_ops" and run: "AccountTraffic S w readings w'"
    and ok: "sqlite_inv (w_store w)" "sqlite_calm (w_store w)" "one_name w"
  shows "sqlite_inv (w_store w') \<and> sqlite_calm (w_store w') \<and>
    (\<forall>i. sv_vms (sqlite_view (w_store w)) i = None \<longrightarrow> sv_vms (sqlite_view (w_store w')) i = None) \<and>
    (\<forall>i v. sv_vms (sqlite_view (w_store w)) i = Some v \<longrightarrow> vm_ID v = i \<and> metered w readings v w')"
  using run
proof (induction rule: AccountTraffic.induct)
  case waits
  have "vm_ID v = i" if "sv_vms (sqlite_view (w_store w)) i = Some v" for i v by (rule agent.st_GetVM_fine(2) [OF ok(2,1) that])
  then show ?case using ok by (auto simp: metered_def)
next
  case (ticks readings w1 c stats c')
  let ?w1 = "w1\<lparr>w_conn := c\<rparr>"
  have ok1: "sqlite_inv (w_store ?w1)" "sqlite_calm (w_store ?w1)"
    and none: "\<And>i. sv_vms (sqlite_view (w_store w)) i = None \<Longrightarrow> sv_vms (sqlite_view (w_store ?w1)) i = None"
    and some: "\<And>i v. sv_vms (sqlite_view (w_store w)) i = Some v \<Longrightarrow> vm_ID v = i \<and> metered w readings v ?w1"
    using ticks.IH metered_same [of ?w1 w1] by auto
  have old: "\<exists>v. sv_vms (sqlite_view (w_store w)) i = Some v \<and> vm_ID u = vm_ID v \<and> vm_DomainName u = vm_DomainName v"
    if "sv_vms (sqlite_view (w_store ?w1)) i = Some u" for i u
  proof (cases "sv_vms (sqlite_view (w_store w)) i")
    case None
    then show ?thesis using none that by simp
  next
    case (Some v)
    then show ?thesis using some [OF Some] that by (auto simp: metered_def)
  qed
  have one: "one_name ?w1"
  proof (intro ballI impI)
    fix u v assume "u \<in> ran (sv_vms (sqlite_view (w_store ?w1)))" "v \<in> ran (sv_vms (sqlite_view (w_store ?w1)))" and n: "vm_DomainName u = vm_DomainName v"
    then obtain i j where "sv_vms (sqlite_view (w_store ?w1)) i = Some u" "sv_vms (sqlite_view (w_store ?w1)) j = Some v" by (auto simp: ran_def)
    with old obtain u0 v0 where "sv_vms (sqlite_view (w_store w)) i = Some u0" "sv_vms (sqlite_view (w_store w)) j = Some v0"
      "vm_ID u = vm_ID u0" "vm_DomainName u = vm_DomainName u0" "vm_ID v = vm_ID v0" "vm_DomainName v = vm_DomainName v0" by meson
    with ok(3) n show "vm_ID u = vm_ID v" by (metis ranI)
  qed
  have st: "co_AllDomainStats (sv_conn S) (w_conn ?w1) = (Inr stats, c')" using ticks.hyps(2) by simp
  note law = accountTick_law [OF S ok1 st one]
  have "metered w (readings @ [stats]) v (accountTick S ?w1)" "vm_ID v = i" if v: "sv_vms (sqlite_view (w_store w)) i = Some v" for i v
  proof -
    show "vm_ID v = i" using some [OF v] by blast
    then obtain u where u: "sv_vms (sqlite_view (w_store ?w1)) (vm_ID v) = Some u" using some [OF v] by (auto simp: metered_def)
    show "metered w (readings @ [stats]) v (accountTick S ?w1)"
      by (rule tick_done_meters [OF law(5) [OF u] u]) (use some [OF v] in blast)
  qed
  then show ?case using law(1,3) none by blast
next
  case (misses readings w1 c e c')
  then show ?case using metered_same [of "w1\<lparr>w_conn := c'\<rparr>" w1] by (simp add: accountTick_missed)
qed


text \<open>(C13) Metering is exact over any number of rounds. Starting from a known counter, with a database that
  answers and one domain name per VM: after any run of the loop in which every successful reading
  shows the VM's domain and its counters were not reset, the recorded usage has grown by exactly
  the bytes received and sent between the first and the last reading, however often they were read,
  whatever happened at the hypervisor in between and however many readings failed; and a VM at or
  over its quota is blocked.\<close>

theorem AccountTraffic_exact:
  fixes S :: "(SQLiteStore, 'c, 'f) Service"
  assumes S: "sv_store S = sqlite_ops" and run: "AccountTraffic S w readings w'"
    and ok: "sqlite_inv (w_store w)" "sqlite_calm (w_store w)"
    and names: "\<forall>u\<in>ran (sv_vms (sqlite_view (w_store w))). \<forall>v\<in>ran (sv_vms (sqlite_view (w_store w))).
      vm_DomainName u = vm_DomainName v \<longrightarrow> vm_ID u = vm_ID v"
    and row: "sv_vms (sqlite_view (w_store w)) i = Some v" "vm_Status v \<noteq> VMStatusTerminated"
    and base: "w_trafficLast w (vm_DomainName v) = Some p"
    and seen: "map (\<lambda>stats. stats_by_name stats (vm_DomainName v)) readings = map Some sts"
    and up: "sorted (nc_rx p # map ds_NetRxBytes sts)" "sorted (nc_tx p # map ds_NetTxBytes sts)"
  shows "\<exists>v'. sv_vms (sqlite_view (w_store w')) i = Some v' \<and>
    vm_TrafficUsedBytes v' = vm_TrafficUsedBytes v + (last (nc_rx p # map ds_NetRxBytes sts) - nc_rx p) +
      (last (nc_tx p # map ds_NetTxBytes sts) - nc_tx p) \<and>
    (readings \<noteq> [] \<and> vm_TrafficQuotaBytes v \<noteq> 0 \<and> vm_TrafficUsedBytes v' \<ge> vm_TrafficQuotaBytes v \<longrightarrow> vm_NetworkBlocked v')"
proof -
  have "vm_ID v = i \<and> metered w readings v w'" using AccountTraffic_metered [OF S run ok names] row(1) by blast
  then obtain v' where v': "sv_vms (sqlite_view (w_store w')) i = Some v'" "vm_TrafficQuotaBytes v' = vm_TrafficQuotaBytes v"
    and m: "(vm_TrafficUsedBytes v' - vm_TrafficUsedBytes v, w_trafficLast w' (vm_DomainName v)) = meter (vm_DomainName v) (Some p) readings"
    and q: "readings \<noteq> [] \<Longrightarrow> over_quota v' \<Longrightarrow> vm_NetworkBlocked v'"
    using row(2) base by (auto simp: metered_def)
  have "vm_TrafficUsedBytes v' - vm_TrafficUsedBytes v = (last (nc_rx p # map ds_NetRxBytes sts) - nc_rx p) + (last (nc_tx p # map ds_NetTxBytes sts) - nc_tx p)"
    using meter_telescopes [OF seen up] by (simp add: m [symmetric])
  then have "vm_TrafficUsedBytes v' = vm_TrafficUsedBytes v + (last (nc_rx p # map ds_NetRxBytes sts) - nc_rx p) + (last (nc_tx p # map ds_NetTxBytes sts) - nc_tx p)"
    by (simp add: algebra_simps)
  then show ?thesis using v' q by (auto simp: over_quota_def)
qed

text \<open>Two rounds on the demonstration host.\<close>

definition demo_reading :: "64 word \<Rightarrow> DomainStats" where
  "demo_reading rx = zero_DomainStats\<lparr>ds_Name := ''kvm-v1'', ds_State := StateRunning, ds_NetRxBytes := rx, ds_NetTxBytes := 2\<rparr>"

definition demo_meter :: "64 word \<Rightarrow> Fake" where
  "demo_meter rx = SetStats ''kvm-v1'' (demo_reading rx) (NewFake\<lparr>f_domains := [(''kvm-v1'', demo_domain)]\<rparr>)"

theorem AccountTraffic_exact_witness:
  "\<exists>w' v'. AccountTraffic demo_service tick_world [[demo_reading 5], [demo_reading 9]] w' \<and>
     sv_vms (sqlite_view (w_store w')) ''v1'' = Some v' \<and> vm_TrafficUsedBytes v' = vm_TrafficUsedBytes demo_vm + 8"
proof -
  have read: "co_AllDomainStats (sv_conn demo_service) (demo_meter rx) = (Inr [demo_reading rx], demo_meter rx)" for rx
    by (simp add: demo_meter_def SetStats_def fake_AllDomainStats_def NewFake_def) (simp add: demo_reading_def zero_DomainStats_def demo_domain_def)
  obtain w' where run: "AccountTraffic demo_service tick_world [[demo_reading 5], [demo_reading 9]] w'"
    using AccountTraffic.ticks [OF AccountTraffic.ticks [OF AccountTraffic.waits [of demo_service tick_world] read [of 5]] read [of 9]] by auto
  have ok: "sqlite_inv (w_store tick_world)" "sqlite_calm (w_store tick_world)"
    and view: "sv_vms (sqlite_view (w_store tick_world)) = [''v1'' \<mapsto> demo_vm]"
    and base: "w_trafficLast tick_world (vm_DomainName demo_vm) = Some \<lparr>nc_rx = 1, nc_tx = 2\<rparr>"
    by (simp_all add: tick_world_def) (simp_all add: demo_vm_def)
  have names: "\<forall>u\<in>ran (sv_vms (sqlite_view (w_store tick_world))). \<forall>v\<in>ran (sv_vms (sqlite_view (w_store tick_world))).
      vm_DomainName u = vm_DomainName v \<longrightarrow> vm_ID u = vm_ID v" by (simp add: view)
  have seen: "map (\<lambda>stats. stats_by_name stats (vm_DomainName demo_vm)) [[demo_reading 5], [demo_reading 9]] = map Some [demo_reading 5, demo_reading 9]"
    by (simp add: stats_by_name_def demo_vm_def demo_reading_def)
  have st: "vm_Status demo_vm \<noteq> VMStatusTerminated" by (simp add: demo_vm_def)
  from AccountTraffic_exact [OF demo_store(1) run ok names _ st base seen, of "''v1''"]
  show ?thesis using run by (auto simp: view demo_reading_def)
qed

end
