(* ===== verification/VmOps.thy ===== *)
theory VmOps
  imports VmTraffic
begin

text \<open>
  The lifecycle operations on an existing VM: power (\<open>internal/vm/power.go\<close>), suspension,
  password and hostname (\<open>suspend.go\<close>), \<open>rebuild.go\<close>, \<open>resize.go\<close>, \<open>snapshot.go\<close> and
  \<open>console.go\<close>. Each has a request handler, which validates and enqueues, and a \<open>run...\<close> part,
  which a worker executes.
\<close>

section \<open>Power\<close>

definition enqueueOp :: "('s, 'c, 'f) Service \<Rightarrow> string \<Rightarrow> JobType \<Rightarrow> ('s, 'c, 'f) world \<Rightarrow> Job res \<times> ('s, 'c, 'f) world" where
  "enqueueOp S i typ w = (case loadOperable S i w of
     (Inl e, w1) \<Rightarrow> (Inl e, w1)
   | (Inr v, w1) \<Rightarrow> enqueue_new S typ (vm_ID v) w1)"

definition Start :: "('s, 'c, 'f) Service \<Rightarrow> string \<Rightarrow> ('s, 'c, 'f) world \<Rightarrow> Job res \<times> ('s, 'c, 'f) world" where
  "Start S i w = enqueueOp S i JobStart w"

definition Shutdown :: "('s, 'c, 'f) Service \<Rightarrow> string \<Rightarrow> ('s, 'c, 'f) world \<Rightarrow> Job res \<times> ('s, 'c, 'f) world" where
  "Shutdown S i w = enqueueOp S i JobShutdown w"

definition Reboot :: "('s, 'c, 'f) Service \<Rightarrow> string \<Rightarrow> ('s, 'c, 'f) world \<Rightarrow> Job res \<times> ('s, 'c, 'f) world" where
  "Reboot S i w = enqueueOp S i JobReboot w"

definition Stop :: "('s, 'c, 'f) Service \<Rightarrow> string \<Rightarrow> ('s, 'c, 'f) world \<Rightarrow> Job res \<times> ('s, 'c, 'f) world" where
  "Stop S i w = enqueueOp S i JobStop w"

text \<open>The \<open>switch\<close> of \<open>runPower\<close>: the call on the hypervisor and the status it leads to; an
  operation with no case makes no call and leaves the zero status.\<close>

definition power_call :: "('s, 'c, 'f) Service \<Rightarrow> JobType \<Rightarrow> string \<Rightarrow> ('s, 'c, 'f) world \<Rightarrow> VMStatus res \<times> ('s, 'c, 'f) world" where
  "power_call S op n w =
     (let call = (\<lambda>f st. case on_conn f w of (Inl e, w1) \<Rightarrow> (Inl e, w1) | (Inr _, w1) \<Rightarrow> (Inr st, w1))
      in case op of
           JobStart \<Rightarrow> call (co_StartDomain (sv_conn S) n) VMStatusRunning
         | JobShutdown \<Rightarrow> call (co_ShutdownDomain (sv_conn S) n) VMStatusStopped
         | JobReboot \<Rightarrow> call (co_RebootDomain (sv_conn S) n) VMStatusRunning
         | JobStop \<Rightarrow> call (co_DestroyDomain (sv_conn S) n) VMStatusStopped
         | _ \<Rightarrow> (Inr VMStatusNone, w))"

definition runPower :: "('s, 'c, 'f) Service \<Rightarrow> string \<Rightarrow> JobType \<Rightarrow> ('s, 'c, 'f) world \<Rightarrow> unit res \<times> ('s, 'c, 'f) world" where
  "runPower S vmID op w = (case st_GetVM S vmID w of
     (Inl e, w1) \<Rightarrow> (Inl e, w1)
   | (Inr v, w1) \<Rightarrow> (case power_call S op (vm_DomainName v) w1 of
       (Inl e, w2) \<Rightarrow> (Inl e, w2)
     | (Inr newStatus, w2) \<Rightarrow>
         (case conn_state S v w2 of (r, w3) \<Rightarrow>
            let v1 = v\<lparr>vm_Status := newStatus,
                   vm_PowerState := (case r of Inl _ \<Rightarrow> vm_PowerState v | Inr state \<Rightarrow> mapPowerState state)\<rparr>;
                w4 = (if op = JobStart \<and> vm_NetworkBlocked v1 then ignore_err (applyLink S v1 w3) else w3)
            in st_UpdateVM S v1 w4)))"

section \<open>Suspension, password and hostname\<close>

definition Suspend :: "('s, 'c, 'f) Service \<Rightarrow> string \<Rightarrow> ('s, 'c, 'f) world \<Rightarrow> Job res \<times> ('s, 'c, 'f) world" where
  "Suspend S i w = enqueueOp S i JobSuspend w"

definition Unsuspend :: "('s, 'c, 'f) Service \<Rightarrow> string \<Rightarrow> ('s, 'c, 'f) world \<Rightarrow> Job res \<times> ('s, 'c, 'f) world" where
  "Unsuspend S i w = enqueueOp S i JobUnsuspend w"

definition enqueueReseed :: "('s, 'c, 'f) Service \<Rightarrow> VM \<Rightarrow> JobType \<Rightarrow> ('s, 'c, 'f) world \<Rightarrow> Job res \<times> ('s, 'c, 'f) world" where
  "enqueueReseed S v typ w = enqueue_new S typ (vm_ID v) w"

definition PasswordReset :: "('s, 'c, 'f) Service \<Rightarrow> string \<Rightarrow> string \<Rightarrow> ('s, 'c, 'f) world \<Rightarrow> Job res \<times> ('s, 'c, 'f) world" where
  "PasswordReset S i password w =
     (if password = [] then (Inl (detail_err ErrInvalidRequest ''password is required''), w)
      else case validatePassword password of
        Inl e \<Rightarrow> (Inl e, w)
      | Inr _ \<Rightarrow> (case loadOperable S i w of
          (Inl e, w1) \<Rightarrow> (Inl e, w1)
        | (Inr v, w1) \<Rightarrow>
            let v1 = v\<lparr>vm_Password := password\<rparr>
            in case st_UpdateVM S v1 w1 of
                 (Inl e, w2) \<Rightarrow> (Inl e, w2)
               | (Inr _, w2) \<Rightarrow> enqueueReseed S v1 JobPassword w2))"

definition SetHostname :: "('s, 'c, 'f) Service \<Rightarrow> string \<Rightarrow> string \<Rightarrow> ('s, 'c, 'f) world \<Rightarrow> Job res \<times> ('s, 'c, 'f) world" where
  "SetHostname S i hostname0 w =
     (let hostname = TrimSpace hostname0
      in case validateHostname hostname of
           Inl e \<Rightarrow> (Inl e, w)
         | Inr _ \<Rightarrow> (case loadOperable S i w of
             (Inl e, w1) \<Rightarrow> (Inl e, w1)
           | (Inr v, w1) \<Rightarrow>
               let v1 = v\<lparr>vm_Hostname := hostname\<rparr>
               in case st_UpdateVM S v1 w1 of
                    (Inl e, w2) \<Rightarrow> (Inl e, w2)
                  | (Inr _, w2) \<Rightarrow> enqueueReseed S v1 JobHostname w2))"

definition runSuspend :: "('s, 'c, 'f) Service \<Rightarrow> string \<Rightarrow> ('s, 'c, 'f) world \<Rightarrow> unit res \<times> ('s, 'c, 'f) world" where
  "runSuspend S vmID w = (case st_GetVM S vmID w of
     (Inl e, w1) \<Rightarrow> (Inl e, w1)
   | (Inr v, w1) \<Rightarrow>
       if vm_Status v = VMStatusSuspended then (Inr (), w1)
       else case conn_state S v w1 of (r, w2) \<Rightarrow>
         let prev = (case r of Inl _ \<Rightarrow> PowerShutoff | Inr state \<Rightarrow> mapPowerState state);
             v1 = v\<lparr>vm_PrevPowerState := prev\<rparr>;
             v2 = v1\<lparr>vm_Status := VMStatusSuspended, vm_PowerState := PowerShutoff\<rparr>
         in if prev = PowerRunning \<or> prev = PowerPaused then
              (case on_conn (co_DestroyDomain (sv_conn S) (vm_DomainName v)) w2 of
                 (Inl e, w3) \<Rightarrow> (Inl (wrap_err ''stop for suspend'' e), w3)
               | (Inr _, w3) \<Rightarrow> st_UpdateVM S v2 w3)
            else st_UpdateVM S v2 w2)"

definition runUnsuspend :: "('s, 'c, 'f) Service \<Rightarrow> string \<Rightarrow> ('s, 'c, 'f) world \<Rightarrow> unit res \<times> ('s, 'c, 'f) world" where
  "runUnsuspend S vmID w = (case st_GetVM S vmID w of
     (Inl e, w1) \<Rightarrow> (Inl e, w1)
   | (Inr v, w1) \<Rightarrow>
       if vm_Status v \<noteq> VMStatusSuspended then (Inr (), w1)
       else if vm_PrevPowerState v = PowerRunning \<or> vm_PrevPowerState v = PowerPaused then
         (case on_conn (co_StartDomain (sv_conn S) (vm_DomainName v)) w1 of
            (Inl e, w2) \<Rightarrow> (Inl (wrap_err ''restore power on unsuspend'' e), w2)
          | (Inr _, w2) \<Rightarrow> st_UpdateVM S (v\<lparr>vm_Status := VMStatusRunning, vm_PowerState := PowerRunning,
              vm_PrevPowerState := PowerUnknown\<rparr>) w2)
       else st_UpdateVM S (v\<lparr>vm_Status := VMStatusStopped, vm_PowerState := PowerShutoff,
              vm_PrevPowerState := PowerUnknown\<rparr>) w1)"

definition vm_prefixFromNetmask :: "string \<Rightarrow> string" where
  "vm_prefixFromNetmask nm =
     (if nm = [] then ''32''
      else case Option.bind (ParseIP nm) To4 of
        None \<Rightarrow> ''32''
      | Some ip \<Rightarrow> dec_of_nat (mask_Size ip))"

definition networkConfigFor :: "('s, 'c, 'f) Service \<Rightarrow> VM \<Rightarrow> NetworkConfig" where
  "networkConfigFor S v =
     (if vm_NetworkMode v = NetworkBridge
      then \<lparr>nc_MAC = vm_MAC v, nc_Static = True,
            nc_AddressCIDR = vm_IP v @ ''/'' @ vm_prefixFromNetmask (vm_Netmask v),
            nc_Gateway = vm_Gateway v,
            nc_Nameservers = (case NetworkByID (sv_cfg S) (vm_NetworkID v) of None \<Rightarrow> [] | Some n \<Rightarrow> nw_DNS n)\<rparr>
      else \<lparr>nc_MAC = vm_MAC v, nc_Static = False, nc_AddressCIDR = [], nc_Gateway = [], nc_Nameservers = []\<rparr>)"

definition reseedVM :: "('s, 'c, 'f) Service \<Rightarrow> VM \<Rightarrow> ('s, 'c, 'f) world \<Rightarrow> unit res \<times> ('s, 'c, 'f) world" where
  "reseedVM S v w = (case cat_Image (sv_catalog S) (vm_ImageID v) of
     None \<Rightarrow> (Inl (image_gone v), w)
   | Some img \<Rightarrow>
       if vm_SeedPath v = [] then (Inl (errors_New (''vm '' @ vm_ID v @ '' has no seed to update'')), w)
       else case uuid_NewString w of (u, w1) \<Rightarrow>
         let ci = \<lparr>ci_InstanceID = vm_ID v @ ''-'' @ take 8 u, ci_Hostname = vm_Hostname v,
               ci_DefaultUser = img_DefaultUser img, ci_Password = vm_Password v,
               ci_SSHKeys = vm_SSHKeys v, ci_Network = networkConfigFor S v\<rparr>
         in case BuildSeedISO S (vm_SeedPath v) (ci_Files ci) w1 of
              (Inl e, w2) \<Rightarrow> (Inl (wrap_err ''rebuild seed'' e), w2)
            | (Inr _, w2) \<Rightarrow> (Inr (), w2))"

definition runReseed :: "('s, 'c, 'f) Service \<Rightarrow> string \<Rightarrow> ('s, 'c, 'f) world \<Rightarrow> unit res \<times> ('s, 'c, 'f) world" where
  "runReseed S vmID w = (case st_GetVM S vmID w of
     (Inl e, w1) \<Rightarrow> (Inl e, w1)
   | (Inr v, w1) \<Rightarrow> reseedVM S v w1)"

section \<open>Rebuild and resize\<close>

record RebuildRequest =
  rr_ImageID :: string
  rr_Password :: string
  rr_SSHKeys :: "string list option"

definition Rebuild :: "('s, 'c, 'f) Service \<Rightarrow> string \<Rightarrow> RebuildRequest \<Rightarrow> ('s, 'c, 'f) world \<Rightarrow> Job res \<times> ('s, 'c, 'f) world" where
  "Rebuild S i req w = (case validatePassword (rr_Password req) of
     Inl e \<Rightarrow> (Inl e, w)
   | Inr _ \<Rightarrow> (case validateSSHKeys (sv_ssh_ok S) (case rr_SSHKeys req of None \<Rightarrow> [] | Some ks \<Rightarrow> ks) of
       Inl e \<Rightarrow> (Inl e, w)
     | Inr _ \<Rightarrow> (case loadOperable S i w of
         (Inl e, w1) \<Rightarrow> (Inl e, w1)
       | (Inr v, w1) \<Rightarrow>
           if rr_ImageID req \<noteq> [] \<and> cat_Image (sv_catalog S) (rr_ImageID req) = None
           then (Inl (detail_err ErrImageNotFound (rr_ImageID req)), w1)
           else
             let v1 = v\<lparr>vm_ImageID := (if rr_ImageID req \<noteq> [] then rr_ImageID req else vm_ImageID v),
                   vm_Password := (if rr_Password req \<noteq> [] then rr_Password req else vm_Password v),
                   vm_SSHKeys := (case rr_SSHKeys req of None \<Rightarrow> vm_SSHKeys v | Some ks \<Rightarrow> ks),
                   vm_Status := VMStatusProvisioning\<rparr>
             in case st_UpdateVM S v1 w1 of
                  (Inl e, w2) \<Rightarrow> (Inl e, w2)
                | (Inr _, w2) \<Rightarrow> enqueue_new S JobRebuild i w2)))"

definition runRebuild :: "('s, 'c, 'f) Service \<Rightarrow> string \<Rightarrow> ('s, 'c, 'f) world \<Rightarrow> unit res \<times> ('s, 'c, 'f) world" where
  "runRebuild S vmID w = (case st_GetVM S vmID w of
     (Inl e, w1) \<Rightarrow> (Inl e, w1)
   | (Inr v, w1) \<Rightarrow> (case cat_Image (sv_catalog S) (vm_ImageID v) of
       None \<Rightarrow> failVM S v (image_gone v) w1
     | Some img \<Rightarrow>
         (let w2 = ignore_err (on_conn (co_DestroyDomain (sv_conn S) (vm_DomainName v)) w1)
          in case on_conn (co_DeleteVolume (sv_conn S) (lv_StoragePool (cfg_Libvirt (sv_cfg S))) (vm_ID v @ ''.qcow2'')) w2 of
               (Inl e, w3) \<Rightarrow> failVM S v (wrap_err ''delete old disk'' e) w3
             | (Inr _, w3) \<Rightarrow>
                 (case Prepare S \<lparr>pr_ID = vm_ID v, pr_Hostname = vm_Hostname v,
                     pr_DefaultUser = img_DefaultUser img, pr_Password = vm_Password v,
                     pr_SSHKeys = vm_SSHKeys v, pr_BackingPath = img_BasePath img,
                     pr_DiskBytes = word_of_int (vm_DiskGB v) * gib, pr_Network = networkConfigFor S v\<rparr> w3 of
                    (Inl e, w4) \<Rightarrow> failVM S v (wrap_err ''rebuild provision'' e) w4
                  | (Inr art, w4) \<Rightarrow>
                      let v1 = v\<lparr>vm_DiskPath := art_DiskPath art, vm_SeedPath := art_SeedPath art\<rparr>
                      in case Render (sv_xml S) (buildDomainSpec S v1) of
                           Inl e \<Rightarrow> failVM S v1 (wrap_err ''render domain xml'' e) w4
                         | Inr xml \<Rightarrow> (case on_conn (co_DefineDomain (sv_conn S) xml) w4 of
                             (Inl e, w5) \<Rightarrow> failVM S v1 (wrap_err ''define domain'' e) w5
                           | (Inr _, w5) \<Rightarrow> (case on_conn (co_StartDomain (sv_conn S) (vm_DomainName v1)) w5 of
                               (Inl e, w6) \<Rightarrow> failVM S v1 (wrap_err ''start domain'' e) w6
                             | (Inr _, w6) \<Rightarrow> st_UpdateVM S (v1\<lparr>vm_Status := VMStatusRunning,
                                 vm_PowerState := PowerRunning\<rparr>) w6))))))"

record ResizeRequest =
  rz_FlavorID :: string

definition Resize :: "('s, 'c, 'f) Service \<Rightarrow> string \<Rightarrow> ResizeRequest \<Rightarrow> ('s, 'c, 'f) world \<Rightarrow> Job res \<times> ('s, 'c, 'f) world" where
  "Resize S i req w = (case loadOperable S i w of
     (Inl e, w1) \<Rightarrow> (Inl e, w1)
   | (Inr v, w1) \<Rightarrow> (case cat_Flavor (sv_catalog S) (rz_FlavorID req) of
       None \<Rightarrow> (Inl (detail_err ErrFlavorNotFound (rz_FlavorID req)), w1)
     | Some flavor \<Rightarrow>
         if fl_DiskGB flavor < vm_DiskGB v then
           (Inl (detail_err ErrInvalidRequest (''disk cannot shrink (current '' @ Itoa (vm_DiskGB v) @ ''GB, target '' @
              Itoa (fl_DiskGB flavor) @ ''GB)'')), w1)
         else
           let v1 = v\<lparr>vm_FlavorID := fl_ID flavor, vm_VCPUs := fl_VCPUs flavor, vm_MemoryMB := fl_MemoryMB flavor,
                 vm_DiskGB := fl_DiskGB flavor, vm_Status := VMStatusProvisioning\<rparr>
           in case st_UpdateVM S v1 w1 of
                (Inl e, w2) \<Rightarrow> (Inl e, w2)
              | (Inr _, w2) \<Rightarrow> enqueue_new S JobResize i w2))"

text \<open>\<open>runResize\<close> from the resized disk on.\<close>

definition resize_redefine :: "('s, 'c, 'f) Service \<Rightarrow> VM \<Rightarrow> bool \<Rightarrow> ('s, 'c, 'f) world \<Rightarrow> unit res \<times> ('s, 'c, 'f) world" where
  "resize_redefine S v wasRunning w =
     (case on_conn (co_ResizeVolume (sv_conn S) (lv_StoragePool (cfg_Libvirt (sv_cfg S))) (vm_ID v @ ''.qcow2'')
             (word_of_int (vm_DiskGB v) * gib)) w of
        (Inl e, w1) \<Rightarrow> failVM S v (wrap_err ''resize disk'' e) w1
      | (Inr _, w1) \<Rightarrow> (case reseedVM S v w1 of
          (Inl e, w2) \<Rightarrow> failVM S v e w2
        | (Inr _, w2) \<Rightarrow> (case Render (sv_xml S) (buildDomainSpec S v) of
            Inl e \<Rightarrow> failVM S v (wrap_err ''render domain xml'' e) w2
          | Inr xml \<Rightarrow> (case on_conn (co_DefineDomain (sv_conn S) xml) w2 of
              (Inl e, w3) \<Rightarrow> failVM S v (wrap_err ''define domain'' e) w3
            | (Inr _, w3) \<Rightarrow>
                if wasRunning then
                  (case on_conn (co_StartDomain (sv_conn S) (vm_DomainName v)) w3 of
                     (Inl e, w4) \<Rightarrow> failVM S v (wrap_err ''start domain'' e) w4
                   | (Inr _, w4) \<Rightarrow> st_UpdateVM S (v\<lparr>vm_Status := VMStatusRunning, vm_PowerState := PowerRunning\<rparr>) w4)
                else st_UpdateVM S (v\<lparr>vm_Status := VMStatusStopped, vm_PowerState := PowerShutoff\<rparr>) w3))))"

definition runResize :: "('s, 'c, 'f) Service \<Rightarrow> string \<Rightarrow> ('s, 'c, 'f) world \<Rightarrow> unit res \<times> ('s, 'c, 'f) world" where
  "runResize S vmID w = (case st_GetVM S vmID w of
     (Inl e, w1) \<Rightarrow> (Inl e, w1)
   | (Inr v, w1) \<Rightarrow> (case conn_state S v w1 of (r, w2) \<Rightarrow>
       let wasRunning = (case r of Inl _ \<Rightarrow> False | Inr state \<Rightarrow> mapPowerState state = PowerRunning)
       in if wasRunning then
            (case on_conn (co_DestroyDomain (sv_conn S) (vm_DomainName v)) w2 of
               (Inl e, w3) \<Rightarrow> failVM S v (wrap_err ''stop for resize'' e) w3
             | (Inr _, w3) \<Rightarrow> resize_redefine S v wasRunning w3)
          else resize_redefine S v wasRunning w2))"

section \<open>Snapshots and console\<close>

definition name_char :: "char \<Rightarrow> bool" where
  "name_char c \<longleftrightarrow> alnum c \<or> c = CHR ''-'' \<or> c = CHR ''_'' \<or> c = CHR ''.''"

definition sanitizeName :: "string \<Rightarrow> string" where
  "sanitizeName s = filter name_char s"

definition SnapshotList :: "('s, 'c, 'f) Service \<Rightarrow> string \<Rightarrow> ('s, 'c, 'f) world \<Rightarrow> SnapshotInfo list res \<times> ('s, 'c, 'f) world" where
  "SnapshotList S i w = (case loadOperable S i w of
     (Inl e, w1) \<Rightarrow> (Inl e, w1)
   | (Inr v, w1) \<Rightarrow> on_conn (co_ListSnapshots (sv_conn S) (vm_DomainName v)) w1)"

definition enqueueSnapshotJob :: "('s, 'c, 'f) Service \<Rightarrow> string \<Rightarrow> JobType \<Rightarrow> payload \<Rightarrow> ('s, 'c, 'f) world \<Rightarrow> Job res \<times> ('s, 'c, 'f) world" where
  "enqueueSnapshotJob S vmID typ pl w = (case job_New typ vmID [] w of (j, w1) \<Rightarrow>
     Enqueue S (j\<lparr>job_Payload := pl\<rparr>) w1)"

definition SnapshotCreate :: "('s, 'c, 'f) Service \<Rightarrow> string \<Rightarrow> string \<Rightarrow> string \<Rightarrow> ('s, 'c, 'f) world \<Rightarrow> Job res \<times> ('s, 'c, 'f) world" where
  "SnapshotCreate S i name0 description w = (case loadOperable S i w of
     (Inl e, w1) \<Rightarrow> (Inl e, w1)
   | (Inr v, w1) \<Rightarrow>
       let name1 = sanitizeName name0;
           (name, w2) = (if name1 = [] then (case uuid_NewString w1 of (u, w2) \<Rightarrow> (''snap-'' @ take 8 u, w2))
                         else (name1, w1))
       in enqueueSnapshotJob S (vm_ID v) JobSnapshotCreate
            [(''name'', name), (''description'', description)] w2)"

definition SnapshotDelete :: "('s, 'c, 'f) Service \<Rightarrow> string \<Rightarrow> string \<Rightarrow> ('s, 'c, 'f) world \<Rightarrow> Job res \<times> ('s, 'c, 'f) world" where
  "SnapshotDelete S i name w = (case loadOperable S i w of
     (Inl e, w1) \<Rightarrow> (Inl e, w1)
   | (Inr v, w1) \<Rightarrow>
       if name = [] then (Inl (detail_err ErrInvalidRequest ''snapshot name is required''), w1)
       else enqueueSnapshotJob S (vm_ID v) JobSnapshotDelete [(''name'', name)] w1)"

definition SnapshotRevert :: "('s, 'c, 'f) Service \<Rightarrow> string \<Rightarrow> string \<Rightarrow> ('s, 'c, 'f) world \<Rightarrow> Job res \<times> ('s, 'c, 'f) world" where
  "SnapshotRevert S i name w = (case loadOperable S i w of
     (Inl e, w1) \<Rightarrow> (Inl e, w1)
   | (Inr v, w1) \<Rightarrow>
       if name = [] then (Inl (detail_err ErrInvalidRequest ''snapshot name is required''), w1)
       else enqueueSnapshotJob S (vm_ID v) JobSnapshotRevert [(''name'', name)] w1)"

definition runSnapshotCreate :: "('s, 'c, 'f) Service \<Rightarrow> Job \<Rightarrow> ('s, 'c, 'f) world \<Rightarrow> unit res \<times> ('s, 'c, 'f) world" where
  "runSnapshotCreate S j w = (case st_GetVM S (job_VMID j) w of
     (Inl e, w1) \<Rightarrow> (Inl e, w1)
   | (Inr v, w1) \<Rightarrow> (case time_Now w1 of (now, w2) \<Rightarrow>
       on_conn (co_CreateSnapshot (sv_conn S) now (vm_DomainName v) (payload_get (job_Payload j) ''name'')
         (payload_get (job_Payload j) ''description'')) w2))"

definition runSnapshotDelete :: "('s, 'c, 'f) Service \<Rightarrow> Job \<Rightarrow> ('s, 'c, 'f) world \<Rightarrow> unit res \<times> ('s, 'c, 'f) world" where
  "runSnapshotDelete S j w = (case st_GetVM S (job_VMID j) w of
     (Inl e, w1) \<Rightarrow> (Inl e, w1)
   | (Inr v, w1) \<Rightarrow>
       on_conn (co_DeleteSnapshot (sv_conn S) (vm_DomainName v) (payload_get (job_Payload j) ''name'')) w1)"

definition runSnapshotRevert :: "('s, 'c, 'f) Service \<Rightarrow> Job \<Rightarrow> ('s, 'c, 'f) world \<Rightarrow> unit res \<times> ('s, 'c, 'f) world" where
  "runSnapshotRevert S j w = (case st_GetVM S (job_VMID j) w of
     (Inl e, w1) \<Rightarrow> (Inl e, w1)
   | (Inr v, w1) \<Rightarrow>
       (case on_conn (co_RevertSnapshot (sv_conn S) (vm_DomainName v) (payload_get (job_Payload j) ''name'')) w1 of
          (Inl e, w2) \<Rightarrow> (Inl e, w2)
        | (Inr _, w2) \<Rightarrow> (case conn_state S v w2 of
            (Inl _, w3) \<Rightarrow> (Inr (), w3)
          | (Inr state, w3) \<Rightarrow>
              let power = mapPowerState state;
                  v1 = v\<lparr>vm_PowerState := power, vm_Status := (case power of
                     PowerRunning \<Rightarrow> VMStatusRunning | PowerShutoff \<Rightarrow> VMStatusStopped | _ \<Rightarrow> vm_Status v)\<rparr>
              in st_UpdateVM S v1 w3)))"

definition ConsoleEndpoint :: "('s, 'c, 'f) Service \<Rightarrow> string \<Rightarrow> ('s, 'c, 'f) world \<Rightarrow> (string \<times> int) res \<times> ('s, 'c, 'f) world" where
  "ConsoleEndpoint S i w = (case loadOperable S i w of
     (Inl e, w1) \<Rightarrow> (Inl e, w1)
   | (Inr v, w1) \<Rightarrow> (case conn_state S v w1 of
       (Inl e, w2) \<Rightarrow> (Inl e, w2)
     | (Inr state, w2) \<Rightarrow>
         if mapPowerState state \<noteq> PowerRunning then (Inl (sentinel_err ErrVMNotRunning), w2)
         else on_conn (co_DomainVNCAddress (sv_conn S) (vm_DomainName v)) w2))"

section \<open>What the operations touch\<close>

context job_env
begin

lemma safe_power_call: "jf i w w1 \<Longrightarrow> safe i w (power_call S op n w1)"
  unfolding power_call_def Let_def
  by (cases op) (simp_all only: JobType.case, (assumption | rule vm_rules)+)

lemma safe_runPower: "jf i w w1 \<Longrightarrow> safe i w (runPower S i op w1)"
  unfolding runPower_def Let_def
  by (assumption | rule vm_rules safe_power_call safe_applyLink | simp)+

lemma safe_runSuspend: "jf i w w1 \<Longrightarrow> safe i w (runSuspend S i w1)"
  unfolding runSuspend_def Let_def by (assumption | rule vm_rules | simp)+

lemma safe_runUnsuspend: "jf i w w1 \<Longrightarrow> safe i w (runUnsuspend S i w1)"
  unfolding runUnsuspend_def by (assumption | rule vm_rules | simp)+

lemma safe_reseedVM: "jf i w w1 \<Longrightarrow> safe i w (reseedVM S v w1)"
  unfolding reseedVM_def Let_def
  by (assumption | rule vm_rules safe_BuildSeedISO | erule (1) frame_uuid)+

lemma safe_runReseed: "jf i w w1 \<Longrightarrow> safe i w (runReseed S i w1)"
  unfolding runReseed_def by (assumption | rule vm_rules safe_reseedVM)+

lemma safe_runRebuild: "jf i w w1 \<Longrightarrow> safe i w (runRebuild S i w1)"
  unfolding runRebuild_def Let_def
  by (assumption | rule vm_rules safe_Prepare | erule Render_err | simp)+

lemma safe_resize_redefine: "jf i w w1 \<Longrightarrow> vm_ID v = i \<Longrightarrow> safe i w (resize_redefine S v b w1)"
  unfolding resize_redefine_def
  by (assumption | rule vm_rules safe_reseedVM | erule Render_err | simp)+

lemma safe_runResize: "jf i w w1 \<Longrightarrow> safe i w (runResize S i w1)"
  unfolding runResize_def Let_def
  by (assumption | rule vm_rules safe_resize_redefine | simp)+

lemma safe_runSnapshotCreate: "jf (job_VMID j) w w1 \<Longrightarrow> safe (job_VMID j) w (runSnapshotCreate S j w1)"
  unfolding runSnapshotCreate_def by (assumption | rule vm_rules | erule (1) frame_time)+

lemma safe_runSnapshotDelete: "jf (job_VMID j) w w1 \<Longrightarrow> safe (job_VMID j) w (runSnapshotDelete S j w1)"
  unfolding runSnapshotDelete_def by (assumption | rule vm_rules)+

lemma safe_runSnapshotRevert: "jf (job_VMID j) w w1 \<Longrightarrow> safe (job_VMID j) w (runSnapshotRevert S j w1)"
  unfolding runSnapshotRevert_def Let_def by (assumption | rule vm_rules | simp)+

end

end
