(* ===== verification/VmOutcome.thy ===== *)
theory VmOutcome
  imports VmOps VmLifecycle
begin

text \<open>
  What the power, rebuild and resize jobs (\<open>internal/vm/power.go\<close>, \<open>rebuild.go\<close>, \<open>resize.go\<close>) leave
  behind on each of their branches: the judgement \<open>job_ends\<close> with one rule per construct of a job, and
  the outcome of each job.
\<close>

section \<open>How a job on a VM ends\<close>

text \<open>The job leaves the store \<open>s\<close> with the row of \<open>v\<close> rewritten and nothing else changed; \<open>Q\<close> relates its
  result, the record it wrote and the hypervisor it leaves behind.\<close>

definition job_ends :: "SQLiteStore \<Rightarrow> VM \<Rightarrow> (unit res \<Rightarrow> VM \<Rightarrow> 'c \<Rightarrow> bool) \<Rightarrow> unit res \<times> (SQLiteStore, 'c, 'f) world \<Rightarrow> bool" where
  "job_ends s v Q out \<longleftrightarrow> (\<exists>u now. Q (fst out) u (w_conn (snd out)) \<and>
     sqlite_view (w_store (snd out)) = (sqlite_view s)\<lparr>sv_vms := (sv_vms (sqlite_view s))(vm_ID v \<mapsto> u\<lparr>vm_UpdatedAt := now\<rparr>)\<rparr>)"

lemma job_endsI:
  assumes "Q r u (w_conn w')"
    and "sqlite_view (w_store w') = (sqlite_view s)\<lparr>sv_vms := (sv_vms (sqlite_view s))(vm_ID v \<mapsto> u\<lparr>vm_UpdatedAt := now\<rparr>)\<rparr>"
  shows "job_ends s v Q (r, w')"
  unfolding job_ends_def using assms by (intro exI [of _ u] exI [of _ now]) simp

lemma job_ends_case:
  assumes "\<And>e w1. m = (Inl e, w1) \<Longrightarrow> job_ends s v Q (F e w1)" "\<And>x w1. m = (Inr x, w1) \<Longrightarrow> job_ends s v Q (G x w1)"
  shows "job_ends s v Q (case m of (Inl e, w1) \<Rightarrow> F e w1 | (Inr x, w1) \<Rightarrow> G x w1)"
  using assms by (auto split: prod.split sum.split)

lemma job_ends_sum:
  assumes "\<And>e. m = Inl e \<Longrightarrow> job_ends s v Q (F e)" "\<And>x. m = Inr x \<Longrightarrow> job_ends s v Q (G x)"
  shows "job_ends s v Q (case m of Inl e \<Rightarrow> F e | Inr x \<Rightarrow> G x)"
  using assms by (auto split: sum.split)

lemma job_ends_if:
  assumes "b \<Longrightarrow> job_ends s v Q m" "\<not> b \<Longrightarrow> job_ends s v Q n"
  shows "job_ends s v Q (if b then m else n)"
  using assms by simp

lemmas job_rules = job_ends_case job_ends_sum job_ends_if

lemma job_ends_mono: "job_ends s v Q out \<Longrightarrow> (\<And>r u c. Q r u c \<Longrightarrow> Q' r u c) \<Longrightarrow> job_ends s v Q' out"
  by (auto simp: job_ends_def)

text \<open>The two ways a job writes the row, on a database that answers.\<close>

lemma job_writes:
  fixes S :: "(SQLiteStore, 'c, 'f) Service"
  assumes "sv_store S = sqlite_ops" "sqlite_inv s" "sqlite_calm s" "sv_vms (sqlite_view s) (vm_ID v) = Some v"
    and "w_store w1 = s" "vm_ID u = vm_ID v" "vm_CreatedAt u = vm_CreatedAt v"
  shows job_updates: "Q (Inr ()) u (w_conn w1) \<Longrightarrow> job_ends s v Q (st_UpdateVM S u w1)"
    and job_fails: "Q (Inl e) (u\<lparr>vm_Status := VMStatusError\<rparr>) (w_conn w1) \<Longrightarrow> job_ends s v Q (failVM S u e w1)"
proof -
  have upd: "\<exists>w2 now. st_UpdateVM S u w1 = (Inr (), w2) \<and> w_conn w2 = w_conn w1 \<and>
      sqlite_view (w_store w2) = (sqlite_view s)\<lparr>sv_vms := (sv_vms (sqlite_view s))(vm_ID v \<mapsto> u\<lparr>vm_UpdatedAt := now\<rparr>)\<rparr>"
    if h: "vm_ID u = vm_ID v" "vm_CreatedAt u = vm_CreatedAt v" for u
  proof -
    obtain w2 now where u: "st_UpdateVM S u w1 = (Inr (), w2)" "store_frame w1 w2"
      "sqlite_view (w_store w2) = (sqlite_view (w_store w1))\<lparr>sv_vms := (sv_vms (sqlite_view (w_store w1)))(vm_ID u \<mapsto> vm_written now v u)\<rparr>"
      by (rule agent.st_UpdateVM_effect [where S = S and w = w1 and old = v and v = u, unfolded with_sqlite [OF assms(1)]])
        (use assms(2-5) h in simp_all)
    have "vm_written now v u = u\<lparr>vm_UpdatedAt := now\<rparr>" using h(2) by (cases u) (simp add: vm_written_def)
    then show ?thesis using u h(1) assms(5) store_frameD(1) [OF u(2)] by auto
  qed
  show "Q (Inr ()) u (w_conn w1) \<Longrightarrow> job_ends s v Q (st_UpdateVM S u w1)"
    using upd [OF assms(6,7)] by (elim exE conjE) (simp add: job_endsI)
  show "Q (Inl e) (u\<lparr>vm_Status := VMStatusError\<rparr>) (w_conn w1) \<Longrightarrow> job_ends s v Q (failVM S u e w1)"
    unfolding failVM_def by (rule exE [OF upd [of "u\<lparr>vm_Status := VMStatusError\<rparr>"]])
      (use assms(6,7) in \<open>simp_all, elim exE conjE, simp add: job_endsI\<close>)
qed

lemma started_runs:
  assumes "conn_api (sv_conn S) cview dn" "on_conn (co_StartDomain (sv_conn S) n) w1 = (Inr u, w2)"
  shows "\<exists>d. cv_doms (cview (w_conn w2)) n = Some d \<and> dv_State d = StateRunning"
  using conn_api.Start_law [OF assms(1), of n "w_conn w1" "Inr u" "w_conn w2"] assms(2)
  by (auto simp: on_conn_def acted_def dom_set_def dom_started_def split: prod.splits)

lemma store_kept:
  "w_store (ignore_err (on_conn f w)) = w_store w" "reseedVM S v w = (r, w') \<Longrightarrow> w_store w' = w_store w"
proof -
  show "w_store (ignore_err (on_conn f w)) = w_store w" by (simp add: on_conn_def ignore_err_def split: prod.splits)
  show "reseedVM S v w = (r, w') \<Longrightarrow> w_store w' = w_store w"
    by (auto simp: reseedVM_def uuid_NewString_def Let_def dest!: BuildSeedISO_store split: option.splits prod.splits sum.splits if_splits)
qed

lemma conn_state_answers:
  assumes "responsive_conn (sv_conn S) cview dn"
  obtains c1 where "conn_state S v w = ((case cv_doms (cview (w_conn w)) (vm_DomainName v) of
      None \<Rightarrow> Inl (sentinel_err ErrDomainNotFound) | Some d \<Rightarrow> Inr (dv_State d)), w\<lparr>w_conn := c1\<rparr>)"
    "cview c1 = cview (w_conn w)"
proof -
  obtain c1 where c1: "co_DomainState (sv_conn S) (vm_DomainName v) (w_conn w) =
      ((case cv_doms (cview (w_conn w)) (vm_DomainName v) of None \<Rightarrow> Inl (sentinel_err ErrDomainNotFound) | Some d \<Rightarrow> Inr (dv_State d)), c1)"
    using responsive_conn.State_answers [OF assms, of "vm_DomainName v" "w_conn w"] by blast
  then show thesis
    using conn_api.State_law [OF responsive_conn.axioms(1) [OF assms] c1] by (intro that [of c1]) (simp_all add: conn_state_def on_conn_def)
qed

section \<open>Rebuild\<close>

text \<open>(C16) What a rebuild leaves behind. On a database that answers, whatever the hypervisor and the file
  system do: a rebuild that succeeds leaves the domain running and the VM recorded as running, one
  that fails at any stage leaves the VM recorded as failed; of the record only the status, the power
  state and the paths of disk and seed change, so the guest keeps its size, address and MAC, and no
  other VM, no job and no address allocation is touched. In particular the address is used as
  recorded, whether or not it is still allocated.\<close>

theorem rebuild_outcome:
  fixes S :: "(SQLiteStore, 'c, 'f) Service"
  assumes S: "sv_store S = sqlite_ops" and api: "conn_api (sv_conn S) cview dn"
    and ok: "sqlite_inv (w_store w)" "sqlite_calm (w_store w)"
    and row: "sv_vms (sqlite_view (w_store w)) i = Some v" and run: "runRebuild S i w = (r, w')"
  shows "(\<exists>disk seed now. sqlite_view (w_store w') = (sqlite_view (w_store w))\<lparr>sv_vms := (sv_vms (sqlite_view (w_store w)))(i \<mapsto>
        v\<lparr>vm_DiskPath := disk, vm_SeedPath := seed,
          vm_Status := if isl r then VMStatusError else VMStatusRunning,
          vm_PowerState := if isl r then vm_PowerState v else PowerRunning, vm_UpdatedAt := now\<rparr>)\<rparr>) \<and>
     (r = Inr () \<longrightarrow> (\<exists>d. cv_doms (cview (w_conn w')) (vm_DomainName v) = Some d \<and> dv_State d = StateRunning))"
proof -
  have i: "vm_ID v = i" by (rule agent.st_GetVM_fine(2) [OF ok(2,1) row])
  have g: "st_GetVM S i w = (Inr v, w)"
    by (rule agent.st_GetVM_calm [where S = S, unfolded with_sqlite [OF S], OF ok(2) row])
  define Q where "Q = (\<lambda>(r :: unit res) u c. (\<exists>disk seed. u = v\<lparr>vm_DiskPath := disk, vm_SeedPath := seed,
          vm_Status := if isl r then VMStatusError else VMStatusRunning,
          vm_PowerState := if isl r then vm_PowerState v else PowerRunning\<rparr>) \<and>
     (r = Inr () \<longrightarrow> (\<exists>d. cv_doms (cview c) (vm_DomainName v) = Some d \<and> dv_State d = StateRunning)))"
  note writes = job_writes [OF S ok row [folded i], where Q = Q]
  have fails: "job_ends (w_store w) v Q (failVM S (v\<lparr>vm_DiskPath := disk, vm_SeedPath := seed\<rparr>) e w1)"
    if "w_store w1 = w_store w" for disk seed e w1
    by (rule writes(2) [OF that]) (simp_all add: Q_def, intro exI, rule refl)
  note same = fails [where disk = "vm_DiskPath v" and seed = "vm_SeedPath v", simplified]
  have wins: "job_ends (w_store w) v Q (st_UpdateVM S
      (v\<lparr>vm_DiskPath := disk, vm_SeedPath := seed, vm_Status := VMStatusRunning, vm_PowerState := PowerRunning\<rparr>) w2)"
    if "on_conn (co_StartDomain (sv_conn S) (vm_DomainName v)) w1 = (Inr u, w2)" "w_store w2 = w_store w" for u w1 w2 disk seed
    by (rule writes(1) [OF that(2)]) (simp, simp, unfold Q_def, intro conjI impI exI started_runs [OF api that(1)], simp)
  have "job_ends (w_store w) v Q (runRebuild S i w)"
  proof (cases "cat_Image (sv_catalog S) (vm_ImageID v)")
    case None
    then show ?thesis using same [of w] by (simp add: runRebuild_def g)
  next
    case (Some img)
    show ?thesis
      unfolding runRebuild_def g Some prod.case sum.case option.case Let_def
      by (rule job_rules same fails wins | simp add: on_conn_store store_kept Prepare_store)+
  qed
  then show ?thesis unfolding run job_ends_def Q_def fst_conv snd_conv i by blast
qed

section \<open>Resize\<close>


section \<open>Power\<close>

definition power_status :: "JobType \<Rightarrow> VMStatus" where
  "power_status op = (if op \<in> {JobStart, JobReboot} then VMStatusRunning else VMStatusStopped)"

lemma applyLink_same:
  fixes S :: "(SQLiteStore, 'c, 'f) Service"
  assumes "conn_api (sv_conn S) cview dn"
  shows "w_store (ignore_err (applyLink S v w)) = w_store w" "cview (w_conn (ignore_err (applyLink S v w))) = cview (w_conn w)"
  using conn_api.State_law [OF assms] conn_api.Update_law [OF assms]
  by (auto simp: applyLink_def conn_state_def on_conn_def ignore_err_def split: prod.splits sum.splits)

lemma power_call_cases:
  fixes S :: "(SQLiteStore, 'c, 'f) Service"
  assumes rc: "responsive_conn (sv_conn S) cview dn" and op: "op \<in> {JobStart, JobShutdown, JobReboot, JobStop}"
    and call: "power_call S op n w = (r, w1)"
  shows "w_store w1 = w_store w" "\<And>x. r = Inr x \<Longrightarrow> x = power_status op"
    "\<And>x. r = Inr x \<Longrightarrow> op = JobStart \<Longrightarrow> \<exists>d. cv_doms (cview (w_conn w1)) n = Some d \<and> dv_State d = StateRunning"
    "\<And>x d. r = Inr x \<Longrightarrow> op = JobStop \<Longrightarrow> cv_doms (cview (w_conn w1)) n = Some d \<Longrightarrow> dv_State d = StateShutoff"
    "\<And>d. cv_doms (cview (w_conn w)) n = Some d \<Longrightarrow> op = JobStart \<and> \<not> dv_Active d \<or> op = JobStop \<and> dv_Active d \<Longrightarrow> \<not> isl r"
proof -
  note api = responsive_conn.axioms(1) [OF rc]
  show "w_store w1 = w_store w"
    using call op by (auto simp: power_call_def on_conn_def split: prod.splits sum.splits)
  show "\<And>x. r = Inr x \<Longrightarrow> x = power_status op"
    using call op by (auto simp: power_call_def power_status_def split: prod.splits sum.splits)
  show "\<exists>d. cv_doms (cview (w_conn w1)) n = Some d \<and> dv_State d = StateRunning" if "r = Inr x" "op = JobStart" for x
    using call that started_runs [OF api, of n w] by (auto simp: power_call_def split: prod.splits sum.splits)
  show "dv_State d = StateShutoff" if "r = Inr x" "op = JobStop" "cv_doms (cview (w_conn w1)) n = Some d" for x d
    using call that conn_api.Destroy_law [OF api, of n "w_conn w"]
    by (fastforce simp: power_call_def on_conn_def acted_def dom_set_def dom_destroyed_def bind_eq_Some_conv split: prod.splits sum.splits if_splits)
  show "\<not> isl r" if "cv_doms (cview (w_conn w)) n = Some d" "op = JobStart \<and> \<not> dv_Active d \<or> op = JobStop \<and> dv_Active d" for d
    using call that responsive_conn.Start_answers [OF rc, of "w_conn w" n d] responsive_conn.Destroy_answers [OF rc, of "w_conn w" n d]
    by (auto simp: power_call_def on_conn_def)
qed

text \<open>(C18) What a power job leaves behind, on a host that answers. A job that fails has not touched the
  database. One that succeeds records the status the operation leads to and the power state the
  domain really has; after a start the domain runs, after a stop it does not; the rest of the record
  and of the database is as before. Starting a domain that does not run and stopping one that runs
  succeed. The status is not consulted: a suspended VM is started like any other.\<close>

theorem power_outcome:
  fixes S :: "(SQLiteStore, 'c, 'f) Service"
  assumes S: "sv_store S = sqlite_ops" and rc: "responsive_conn (sv_conn S) cview dn"
    and ok: "sqlite_inv (w_store w)" "sqlite_calm (w_store w)"
    and row: "sv_vms (sqlite_view (w_store w)) i = Some v" and op: "op \<in> {JobStart, JobShutdown, JobReboot, JobStop}"
    and run: "runPower S i op w = (r, w')"
  defines "dom_of \<equiv> \<lambda>w. cv_doms (cview (w_conn w)) (vm_DomainName v)"
  shows "(case r of
      Inl e \<Rightarrow> sqlite_view (w_store w') = sqlite_view (w_store w)
    | Inr _ \<Rightarrow> (\<exists>now. sqlite_view (w_store w') = (sqlite_view (w_store w))\<lparr>sv_vms := (sv_vms (sqlite_view (w_store w)))(i \<mapsto>
          v\<lparr>vm_Status := if op \<in> {JobStart, JobReboot} then VMStatusRunning else VMStatusStopped,
            vm_PowerState := case dom_of w' of None \<Rightarrow> vm_PowerState v | Some d \<Rightarrow> mapPowerState (dv_State d), vm_UpdatedAt := now\<rparr>)\<rparr>) \<and>
        (op = JobStart \<longrightarrow> (\<exists>d. dom_of w' = Some d \<and> dv_State d = StateRunning)) \<and>
        (op = JobStop \<longrightarrow> (\<forall>d. dom_of w' = Some d \<longrightarrow> dv_State d = StateShutoff))) \<and>
    (\<forall>d. dom_of w = Some d \<and> (op = JobStart \<and> \<not> dv_Active d \<or> op = JobStop \<and> dv_Active d) \<longrightarrow> r = Inr ())"
proof -
  note api = responsive_conn.axioms(1) [OF rc]
  have i: "vm_ID v = i" by (rule agent.st_GetVM_fine(2) [OF ok(2,1) row])
  have g: "st_GetVM S i w = (Inr v, w)"
    by (rule agent.st_GetVM_calm [where S = S, unfolded with_sqlite [OF S], OF ok(2) row])
  obtain q w1 where q: "power_call S op (vm_DomainName v) w = (q, w1)" by fastforce
  note call = power_call_cases [OF rc op q]
  show ?thesis
  proof (cases q)
    case (Inl e)
    then have "r = Inl e" "w' = w1" using run by (simp_all add: runPower_def g q)
    then show ?thesis using call(1,5) Inl by (auto simp: dom_of_def)
  next
    case (Inr st)
    obtain c1 where c1: "conn_state S v w1 = ((case dom_of w1 of None \<Rightarrow> Inl (sentinel_err ErrDomainNotFound) | Some d \<Rightarrow> Inr (dv_State d)),
        w1\<lparr>w_conn := c1\<rparr>)" "cview c1 = cview (w_conn w1)"
      unfolding dom_of_def by (rule conn_state_answers [OF rc])
    define u where "u = v\<lparr>vm_Status := power_status op,
      vm_PowerState := case dom_of w1 of None \<Rightarrow> vm_PowerState v | Some d \<Rightarrow> mapPowerState (dv_State d)\<rparr>"
    define w4 where "w4 = (if op = JobStart \<and> vm_NetworkBlocked u then ignore_err (applyLink S u (w1\<lparr>w_conn := c1\<rparr>)) else w1\<lparr>w_conn := c1\<rparr>)"
    have w4: "w_store w4 = w_store w" "cview (w_conn w4) = cview (w_conn w1)"
      using call(1) c1(2) by (simp_all add: w4_def applyLink_same [OF api])
    have pw: "(case (case dom_of w1 of None \<Rightarrow> Inl (sentinel_err ErrDomainNotFound) | Some d \<Rightarrow> Inr (dv_State d)) of
        Inl (_ :: goerr) \<Rightarrow> vm_PowerState v | Inr state \<Rightarrow> mapPowerState state) =
      (case dom_of w1 of None \<Rightarrow> vm_PowerState v | Some d \<Rightarrow> mapPowerState (dv_State d))" by (simp split: option.split)
    have "runPower S i op w = st_UpdateVM S u w4"
      unfolding runPower_def g q Inr c1(1) prod.case sum.case Let_def pw call(2) [OF Inr] u_def [symmetric] w4_def by simp
    then have "st_UpdateVM S u w4 = (r, w')" using run by simp
    moreover have "job_ends (w_store w) v (\<lambda>r x c. r = Inr () \<and> x = u \<and> cview c = cview (w_conn w1)) (st_UpdateVM S u w4)"
      by (rule job_updates [OF S ok row [folded i] w4(1)]) (simp_all add: u_def w4(2))
    ultimately obtain now where e: "r = Inr ()" "cview (w_conn w') = cview (w_conn w1)"
      "sqlite_view (w_store w') = (sqlite_view (w_store w))\<lparr>sv_vms := (sv_vms (sqlite_view (w_store w)))(i \<mapsto> u\<lparr>vm_UpdatedAt := now\<rparr>)\<rparr>"
      by (auto simp: job_ends_def i)
    have d: "dom_of w' = dom_of w1" by (simp add: dom_of_def e(2))
    show ?thesis
      unfolding d e(1) sum.case using e(3) call(3,4) Inr unfolding u_def power_status_def dom_of_def by blast
  qed
qed

section \<open>On the demonstration host\<close>

text \<open>On the demonstration host the seed is always written.\<close>

lemma demo_fs: "on_fs f w = (fst (f ()), w)" for w :: "(SQLiteStore, Fake, unit) world"
  by (cases w, cases "f ()") (simp add: on_fs_def)

lemma demo_seed: "BuildSeedISO demo_service path files w = (Inr (), w)"
proof -
  have os: "sv_os demo_service = demo_os" by (simp add: demo_service_def)
  have "write_seed_files demo_service path files w = (Inr (), w)" for w
    by (induction files arbitrary: w) (simp_all add: demo_fs os demo_os_def)
  then show ?thesis by (simp add: BuildSeedISO_def fill_seed_def demo_fs os demo_os_def)
qed


lemma demo_render:
  assumes "vm_DomainName v = ''kvm-v1''" "0 < vm_VCPUs v" "0 < vm_MemoryMB v" "vm_NetworkID v = ''pub''" "vm_NetworkMode v = NetworkBridge"
    "vm_MAC v \<noteq> []" "vm_DiskPath v \<noteq> []"
  shows "Render (sv_xml demo_service) (buildDomainSpec demo_service v) = Inr ''<domain><name>kvm-v1</name></domain>''"
proof -
  have sv: "sv_cfg demo_service = demo_config" "sv_xml demo_service = demo_xml" by (simp_all add: demo_service_def)
  have net: "NetworkByID demo_config ''pub'' = Some demo_bridge"
    by (simp add: NetworkByID_def demo_config_def demo_bridge_def dev_config_def)
  show ?thesis using assms
    by (simp add: Render_def validate_spec_def validateInterface_def buildDomainSpec_def build_domain_def Let_def sv net
        networkAttachmentFor_def demo_bridge_def demo_xml_def ModeBridge_def ModeNAT_def)
qed

lemma demo_name: "domainNameFromXML ''<domain><name>kvm-v1</name></domain>'' = Inr ''kvm-v1''" by code_simp

lemma demo_image: "cat_Image (sv_catalog demo_service) ''ubuntu-22.04'' = Some (hd (cfg_Images dev_config))"
  by (simp add: demo_service_def catalog_New_def cat_Image_def demo_config_def dev_config_def)

lemma demo_get:
  assumes "w_store w = w_store (vm_world v)" "vm_ID v = ''v1''"
  shows "st_GetVM demo_service ''v1'' w = (Inr v, w)"
  by (rule agent.st_GetVM_calm [where S = demo_service, unfolded with_sqlite [OF demo_store(1)]]) (simp_all add: assms)

lemma demo_update:
  assumes "w_store w = w_store (vm_world v)" "vm_ID u = vm_ID v"
  shows "fst (st_UpdateVM demo_service u w) = Inr ()"
  by (rule agent.st_UpdateVM_effect [where S = demo_service and w = w and v = u and old = v, unfolded with_sqlite [OF demo_store(1)]])
    (use assms in simp_all)

text \<open>A VM whose creation failed.\<close>

definition failed_vm :: VM where
  "failed_vm = demo_vm\<lparr>vm_Status := VMStatusError\<rparr>"

lemmas demo_jobs = Let_def on_conn_def ignore_err_def fake_state_defs fake_store_defs NewFake_def demo_seed demo_name demo_image demo_render

lemma demo_rebuild: "fst (runRebuild demo_service ''v1'' (vm_world failed_vm)) = Inr ()"
proof -
  have vm: "vm_ID failed_vm = ''v1''" "vm_DomainName failed_vm = ''kvm-v1''" "vm_VCPUs failed_vm = 1" "vm_MemoryMB failed_vm = 1024"
    "vm_NetworkID failed_vm = ''pub''" "vm_NetworkMode failed_vm = NetworkBridge" "vm_MAC failed_vm \<noteq> []" "vm_ImageID failed_vm = ''ubuntu-22.04''"
    by (simp_all add: failed_vm_def demo_vm_def)
  have path: "filepath_Join ''/var/lib/libvirt/images'' ''v1.qcow2'' = ''/var/lib/libvirt/images/v1.qcow2''" by code_simp
  have conn: "w_conn (vm_world failed_vm) = NewFake\<lparr>f_domains := [(''kvm-v1'', demo_domain)]\<rparr>" by (simp add: vm_world_def)
  show ?thesis
    by (simp add: runRebuild_def demo_get [of _ failed_vm] Prepare_def CreateOverlay_def conn vm path demo_jobs demo_update [of _ failed_vm])
qed

theorem rebuild_outcome_witness:
  "\<exists>w' v'. runRebuild demo_service ''v1'' (vm_world failed_vm) = (Inr (), w') \<and> sv_vms (sqlite_view (w_store w')) ''v1'' = Some v' \<and>
     vm_Status v' = VMStatusRunning \<and> vm_IP v' = ''203.0.113.10'' \<and> sv_ips (sqlite_view (w_store w')) (''pub'', ''203.0.113.10'') = None"
proof -
  obtain w' where run: "runRebuild demo_service ''v1'' (vm_world failed_vm) = (Inr (), w')"
    using demo_rebuild by (cases "runRebuild demo_service ''v1'' (vm_world failed_vm)") simp
  have row: "sv_vms (sqlite_view (w_store (vm_world failed_vm))) ''v1'' = Some failed_vm" by (simp add: failed_vm_def demo_vm_def)
  have ip: "vm_IP failed_vm = ''203.0.113.10''" by (simp add: failed_vm_def demo_vm_def)
  from rebuild_outcome [OF demo_store(1) fake.conn_api_axioms [folded demo_store(2)] vm_world_ok row run]
  show ?thesis using run by (auto simp: ip)
qed

text \<open>A running VM with a disk and a seed.\<close>

definition seeded_vm :: VM where
  "seeded_vm = demo_vm\<lparr>vm_DiskPath := ''/v1.qcow2'', vm_SeedPath := ''/v1-seed.iso'', vm_Status := VMStatusProvisioning\<rparr>"

definition seeded_world :: "(SQLiteStore, Fake, unit) world" where
  "seeded_world = (vm_world seeded_vm)\<lparr>w_conn := NewFake\<lparr>f_domains := [(''kvm-v1'', demo_domain)],
     f_volumes := (\<lambda>_. Some ''/v1.qcow2'')\<rparr>\<rparr>"

lemma seeded_facts:
  "w_store seeded_world = w_store (vm_world seeded_vm)" "sqlite_inv (w_store seeded_world)" "sqlite_calm (w_store seeded_world)"
  "sv_vms (sqlite_view (w_store seeded_world)) ''v1'' = Some seeded_vm" "vm_DomainName seeded_vm = ''kvm-v1''"
  "cv_doms (fake_view (w_conn seeded_world)) ''kvm-v1'' = Some \<lparr>dv_State = StateRunning, dv_Active = True, dv_Persistent = True, dv_Held = False\<rparr>"
  by (simp_all add: seeded_world_def) (simp_all add: seeded_vm_def demo_vm_def fake_view_def demo_domain_def)

lemma demo_resize: "fst (runResize demo_service ''v1'' seeded_world) = Inr ()"
proof -
  have vm: "vm_ID seeded_vm = ''v1''" "vm_DomainName seeded_vm = ''kvm-v1''" "vm_VCPUs seeded_vm = 1" "vm_MemoryMB seeded_vm = 1024"
    "vm_NetworkID seeded_vm = ''pub''" "vm_NetworkMode seeded_vm = NetworkBridge" "vm_MAC seeded_vm \<noteq> []" "vm_ImageID seeded_vm = ''ubuntu-22.04''"
    "vm_DiskPath seeded_vm \<noteq> []" "vm_SeedPath seeded_vm \<noteq> []"
    by (simp_all add: seeded_vm_def demo_vm_def)
  have conn: "w_conn seeded_world = NewFake\<lparr>f_domains := [(''kvm-v1'', demo_domain)], f_volumes := (\<lambda>_. Some ''/v1.qcow2'')\<rparr>"
    by (simp add: seeded_world_def)
  have on: "fd_state demo_domain = StateRunning" by (simp add: demo_domain_def)
  show ?thesis
    by (simp add: runResize_def resize_redefine_def reseedVM_def uuid_NewString_def conn_state_def demo_get [of _ seeded_vm] conn vm on
        seeded_facts(1) demo_jobs fake_ResizeVolume_def demo_update [of _ seeded_vm])
qed


text \<open>A VM that was suspended while it ran.\<close>

definition suspended_vm :: VM where
  "suspended_vm = demo_vm\<lparr>vm_Status := VMStatusSuspended, vm_PowerState := PowerShutoff, vm_PrevPowerState := PowerRunning\<rparr>"

definition suspended_world :: "(SQLiteStore, Fake, unit) world" where
  "suspended_world = (vm_world suspended_vm)\<lparr>w_conn := NewFake\<lparr>f_domains := [(''kvm-v1'', demo_domain\<lparr>fd_state := StateShutoff\<rparr>)]\<rparr>\<rparr>"

theorem power_outcome_witness:
  "\<exists>w' v'. runPower demo_service ''v1'' JobStart suspended_world = (Inr (), w') \<and> sv_vms (sqlite_view (w_store w')) ''v1'' = Some v' \<and>
     vm_Status v' = VMStatusRunning \<and> vm_PowerState v' = PowerRunning"
proof -
  have ok: "sqlite_inv (w_store suspended_world)" "sqlite_calm (w_store suspended_world)" by (simp_all add: suspended_world_def)
  have row: "sv_vms (sqlite_view (w_store suspended_world)) ''v1'' = Some suspended_vm"
    by (simp add: suspended_world_def) (simp add: suspended_vm_def demo_vm_def)
  have d: "cv_doms (fake_view (w_conn suspended_world)) (vm_DomainName suspended_vm) =
      Some \<lparr>dv_State = StateShutoff, dv_Active = False, dv_Persistent = True, dv_Held = False\<rparr>"
    by (simp add: suspended_world_def fake_view_def suspended_vm_def demo_vm_def)
  obtain r w' where run: "runPower demo_service ''v1'' JobStart suspended_world = (r, w')" by fastforce
  note p = power_outcome [OF demo_store(1) fake.responsive_conn_axioms [folded demo_store(2)] ok row _ run]
  have "r = Inr ()" using p d by simp
  then show ?thesis using p run by auto
qed
end
