(* ===== verification/VmLink.thy ===== *)
theory VmLink
  imports VmOutcome
begin

text \<open>
  The network link of a domain and the block of its VM (\<open>applyLink\<close>, the block and unblock jobs of
  \<open>internal/vm/traffic.go\<close>, the start of \<open>power.go\<close>): what a connection promises of links, as the
  locale \<open>link_conn\<close>, that the in-memory connection keeps it, and where the link follows the block.
\<close>

section \<open>A hypervisor's links\<close>

text \<open>What a connection promises of the links of its domains: the last description of an interface that was
  accepted decides, for the running domain and for its later starts.\<close>

locale link_conn = responsive_conn co cview domname
  for co :: "'c conn_ops" and cview :: "'c \<Rightarrow> conn_view" and domname :: "string \<Rightarrow> string option" +
  fixes down :: "'c \<Rightarrow> string \<Rightarrow> bool" and says_down :: "string \<Rightarrow> bool"
  assumes State_link: "co_DomainState co n c = (rs, c') \<Longrightarrow> down c' = down c"
    and Start_link: "co_StartDomain co n c = (r, c') \<Longrightarrow> down c' = down c"
    and Update_link: "co_UpdateInterface co n xml c = (r, c') \<Longrightarrow> down c' = (if isl r then down c else (down c)(n := says_down xml))"
    and Update_answers: "cv_doms (cview c) n = Some d \<Longrightarrow> \<exists>c'. co_UpdateInterface co n xml c = (Inr (), c')"

interpretation fake: link_conn fake_ops fake_view fake_domname IsLinkDown "\<lambda>xml. Contains xml state_down"
  by unfold_locales (auto simp: IsLinkDown_def fake_state_defs fake_view_def fun_eq_iff split: option.splits)

text \<open>What the code relies on of the XML marshaller: the description of an interface is down exactly when
  its link state is \<open>down\<close>.\<close>

definition marshals_link :: "xml_marshal \<Rightarrow> (string \<Rightarrow> bool) \<Rightarrow> bool" where
  "marshals_link xm says_down \<longleftrightarrow> (\<forall>i. \<exists>x. xm_Interface xm i = Inr x \<and> (says_down x \<longleftrightarrow> if_LinkState i = Some ''down''))"

text \<open>A VM whose interface can be described.\<close>

definition wired :: "('s, 'c, 'f) Service \<Rightarrow> VM \<Rightarrow> bool" where
  "wired S v \<longleftrightarrow> vm_MAC v \<noteq> [] \<and> na_Source (networkAttachmentFor S v) \<noteq> []"

context link_conn
begin

lemma applyLink_link:
  fixes S :: "('s, 'c, 'f) Service" and w
  assumes "sv_conn S = co" "marshals_link (sv_xml S) says_down" "wired S v"
  defines "w' \<equiv> ignore_err (applyLink S v w)"
  shows "down (w_conn w') (vm_DomainName v) = (if map_option dv_State (cv_doms (cview (w_conn w)) (vm_DomainName v)) = Some StateRunning
      then vm_NetworkBlocked v else down (w_conn w) (vm_DomainName v))"
    and "w_store w' = w_store w" "cview (w_conn w') = cview (w_conn w)"
proof -
  let ?n = "vm_DomainName v"
  note rc = responsive_conn_axioms [folded assms(1)]
  obtain c1 where c1: "conn_state S v w = ((case cv_doms (cview (w_conn w)) ?n of
      None \<Rightarrow> Inl (sentinel_err ErrDomainNotFound) | Some d \<Rightarrow> Inr (dv_State d)), w\<lparr>w_conn := c1\<rparr>)" "cview c1 = cview (w_conn w)"
    by (rule conn_state_answers [OF rc])
  have l1: "down c1 = down (w_conn w)"
    using c1(1) State_link [of ?n "w_conn w"] assms(1) by (auto simp: conn_state_def on_conn_def dest!: arg_cong [where f = w_conn] split: prod.splits)
  obtain x where x: "RenderInterface (sv_xml S) \<lparr>sp_Name = [], sp_UUID = [], sp_VCPUs = 0, sp_MemoryMB = 0,
              sp_DiskPath = [], sp_SeedPath = [], sp_MAC = vm_MAC v, sp_Network = networkAttachmentFor S v,
              sp_BandwidthMbps = flavorBandwidth S (vm_FlavorID v), sp_LinkDown = vm_NetworkBlocked v,
              sp_VNCListen = []\<rparr> = Inr x" "says_down x = vm_NetworkBlocked v"
  proof -
    let ?spec = "\<lparr>sp_Name = [], sp_UUID = [], sp_VCPUs = 0, sp_MemoryMB = 0, sp_DiskPath = [], sp_SeedPath = [], sp_MAC = vm_MAC v,
        sp_Network = networkAttachmentFor S v, sp_BandwidthMbps = flavorBandwidth S (vm_FlavorID v), sp_LinkDown = vm_NetworkBlocked v,
        sp_VNCListen = []\<rparr>"
    have "validateInterface ?spec = Inr ()"
      using assms(3) by (simp add: validateInterface_Inr wired_def networkAttachmentFor_def Let_def)
    moreover obtain x where "xm_Interface (sv_xml S) (buildInterface ?spec) = Inr x" "says_down x \<longleftrightarrow> if_LinkState (buildInterface ?spec) = Some ''down''"
      using assms(2) unfolding marshals_link_def by blast
    ultimately show thesis by (intro that [of x]) (simp_all add: RenderInterface_def buildInterface_def Let_def)
  qed
  note link = Update_link [where n = ?n and xml = x] and same = conn_api.Update_law [OF conn_api_axioms, where n = ?n and xml = x]
  have "down (w_conn w') ?n = (if map_option dv_State (cv_doms (cview (w_conn w)) ?n) = Some StateRunning
      then vm_NetworkBlocked v else down (w_conn w) ?n) \<and> w_store w' = w_store w \<and> cview (w_conn w') = cview (w_conn w)"
  proof (cases "map_option dv_State (cv_doms (cview (w_conn w)) ?n) = Some StateRunning")
    case True
    then obtain d where d: "cv_doms (cview (w_conn w)) ?n = Some d" "dv_State d = StateRunning" by auto
    obtain c2 where c2: "co_UpdateInterface co ?n x c1 = (Inr (), c2)" using Update_answers [of c1 ?n d x] d(1) c1(2) by auto
    have "w' = w\<lparr>w_conn := c2\<rparr>" by (simp add: w'_def applyLink_def c1(1) d x(1) on_conn_def assms(1) c2)
    then show ?thesis using link [OF c2] same [OF c2] x(2) c1(2) True by simp
  next
    case False
    then have "w' = w\<lparr>w_conn := c1\<rparr>"
      by (auto simp: w'_def applyLink_def c1(1) split: option.splits elim: mapPowerState.elims)
    then show ?thesis using False l1 c1(2) by auto
  qed
  then show "down (w_conn w') ?n = (if map_option dv_State (cv_doms (cview (w_conn w)) ?n) = Some StateRunning
      then vm_NetworkBlocked v else down (w_conn w) ?n)" "w_store w' = w_store w" "cview (w_conn w') = cview (w_conn w)" by blast+
qed

lemma block_jobs_link:
  fixes S :: "(SQLiteStore, 'c, 'f) Service"
  assumes S: "sv_store S = sqlite_ops" "sv_conn S = co" and x: "marshals_link (sv_xml S) says_down" "wired S v"
    and ok: "sqlite_inv (w_store w)" "sqlite_calm (w_store w)" and row: "sv_vms (sqlite_view (w_store w)) i = Some v"
    and u: "vm_ID u = vm_ID v" "vm_DomainName u = vm_DomainName v" "vm_CreatedAt u = vm_CreatedAt v" "wired S u"
  shows "job_ends (w_store w) v (\<lambda>r u' c. r = Inr () \<and> u' = u \<and> down c (vm_DomainName v) =
      (if map_option dv_State (cv_doms (cview (w_conn w)) (vm_DomainName v)) = Some StateRunning
       then vm_NetworkBlocked u else down (w_conn w) (vm_DomainName v)))
    (st_UpdateVM S u (ignore_err (applyLink S u w)))"
proof -
  have i: "vm_ID v = i" by (rule agent.st_GetVM_fine(2) [OF ok(2,1) row])
  note link = applyLink_link [OF S(2) x(1) u(4), of w]
  show ?thesis
    by (rule job_updates [OF S(1) ok row [folded i] link(2) u(1,3)]) (use link(1) u(2) in auto)
qed

lemma start_link:
  fixes S :: "(SQLiteStore, 'c, 'f) Service"
  assumes S: "sv_store S = sqlite_ops" "sv_conn S = co" and x: "marshals_link (sv_xml S) says_down" "wired S v"
    and ok: "sqlite_inv (w_store w)" "sqlite_calm (w_store w)" and row: "sv_vms (sqlite_view (w_store w)) i = Some v"
    and d: "cv_doms (cview (w_conn w)) (vm_DomainName v) = Some d" "\<not> dv_Active d"
  shows "job_ends (w_store w) v (\<lambda>r u c. r = Inr () \<and> vm_NetworkBlocked u = vm_NetworkBlocked v \<and>
      map_option dv_State (cv_doms (cview c) (vm_DomainName v)) = Some StateRunning \<and>
      down c (vm_DomainName v) = (vm_NetworkBlocked v \<or> down (w_conn w) (vm_DomainName v))) (runPower S i JobStart w)"
proof -
  let ?n = "vm_DomainName v"
  note rc = responsive_conn_axioms [folded S(2)]
  have i: "vm_ID v = i" by (rule agent.st_GetVM_fine(2) [OF ok(2,1) row])
  have g: "st_GetVM S i w = (Inr v, w)"
    by (rule agent.st_GetVM_calm [where S = S, unfolded with_sqlite [OF S(1)], OF ok(2) row])
  obtain c where c: "co_StartDomain co ?n (w_conn w) = (Inr (), c)" using Start_answers [OF d] by blast
  define w1 where "w1 = w\<lparr>w_conn := c\<rparr>"
  have "on_conn (co_StartDomain (sv_conn S) ?n) w = (Inr (), w1)" by (simp add: on_conn_def S(2) c w1_def)
  from started_runs [OF conn_api_axioms [folded S(2)] this]
  obtain d1 where d1: "cv_doms (cview (w_conn w1)) ?n = Some d1" "dv_State d1 = StateRunning" by blast
  obtain c1 where c1: "conn_state S v w1 = ((case cv_doms (cview (w_conn w1)) ?n of
      None \<Rightarrow> Inl (sentinel_err ErrDomainNotFound) | Some d \<Rightarrow> Inr (dv_State d)), w1\<lparr>w_conn := c1\<rparr>)" "cview c1 = cview (w_conn w1)"
    by (rule conn_state_answers [OF rc])
  have l1: "down c1 = down (w_conn w)"
    using c1(1) State_link [of ?n "w_conn w1"] Start_link [OF c]
    by (auto simp: conn_state_def on_conn_def S(2) w1_def dest!: arg_cong [where f = w_conn] split: prod.splits)
  define u where "u = v\<lparr>vm_Status := VMStatusRunning, vm_PowerState := PowerRunning\<rparr>"
  define w3 where "w3 = w1\<lparr>w_conn := c1\<rparr>"
  have w3: "w_store w3 = w_store w" "cview (w_conn w3) = cview (w_conn w1)" "down (w_conn w3) = down (w_conn w)"
    using c1(2) l1 by (simp_all add: w3_def w1_def)
  have u: "vm_DomainName u = ?n" "vm_NetworkBlocked u = vm_NetworkBlocked v" "wired S u"
    using x(2) by (simp_all add: u_def wired_def networkAttachmentFor_def)
  define w4 where "w4 = (if vm_NetworkBlocked v then ignore_err (applyLink S u w3) else w3)"
  note link = applyLink_link [OF S(2) x(1) u(3), of w3]
  have w4: "w_store w4 = w_store w" "cview (w_conn w4) = cview (w_conn w1)"
    "down (w_conn w4) ?n = (vm_NetworkBlocked v \<or> down (w_conn w) ?n)"
    using link w3 u d1 by (auto simp: w4_def)
  have "runPower S i JobStart w = st_UpdateVM S u w4"
    by (simp add: runPower_def g power_call_def on_conn_def S(2) c w1_def [symmetric] c1(1) d1 w3_def [symmetric] Let_def
        u_def [symmetric] u(2) w4_def)
  then show ?thesis
    by (simp only:) (rule job_updates [OF S(1) ok row [folded i] w4(1)], simp_all add: u_def w4(2,3) d1)
qed

end


text \<open>A blocked VM that has been stopped, on the demonstration host with a marshaller that writes the link.\<close>

definition link_service :: "(SQLiteStore, Fake, unit) Service" where
  "link_service = demo_service\<lparr>sv_xml := demo_xml\<lparr>xm_Interface := (\<lambda>i. Inr (if if_LinkState i = Some ''down'' then state_down else ''<interface/>''))\<rparr>\<rparr>"

definition off_world :: "(SQLiteStore, Fake, unit) world" where
  "off_world = (vm_world (demo_vm\<lparr>vm_Status := VMStatusStopped, vm_PowerState := PowerShutoff, vm_NetworkBlocked := True\<rparr>))\<lparr>
     w_conn := NewFake\<lparr>f_domains := [(''kvm-v1'', demo_domain\<lparr>fd_state := StateShutoff\<rparr>)], f_linkDown := (\<lambda>_. True)\<rparr>\<rparr>"

end
