(* ===== verification/GoJson.thy ===== *)
theory GoJson
  imports Prelude Complex_Main
begin

text \<open>
  The part of Go's \<open>encoding/json\<close> the HTTP layer uses: the text the encoder writes for a value,
  and what the decoder reads from a request body into the fields of a struct.

  How a \<open>float64\<close> and a \<open>time.Time\<close> are printed is left to two functions the encoder takes
  (\<open>json_fmt\<close>); nothing else about the text is. Strings are valid UTF-8.
\<close>

datatype json =
    JNull
  | JBool bool
  | JInt int
  | JNum string \<comment> \<open>a number with a fraction or an exponent, as written\<close>
  | JFloat rat
  | JTime time
  | JStr string
  | JArr "json list"
  | JObj "(string \<times> json) list"

section \<open>Encoding\<close>

record json_fmt =
  jf_float :: "rat \<Rightarrow> string"
  jf_time :: "time \<Rightarrow> string"

text \<open>A byte of a string, with HTML escaping on; the two line separators of Unicode are escaped
  as well.\<close>

definition json_char :: "char \<Rightarrow> string" where
  "json_char c = (let n = (of_char c :: nat) in
     if n = 34 \<or> n = 92 then [CHR 0x5C, c]
     else if n = 8 then CHR 0x5C # ''b'' else if n = 12 then CHR 0x5C # ''f''
     else if n = 10 then CHR 0x5C # ''n'' else if n = 13 then CHR 0x5C # ''r''
     else if n = 9 then CHR 0x5C # ''t''
     else if n < 32 \<or> n = 38 \<or> n = 60 \<or> n = 62 then CHR 0x5C # ''u00'' @ hex2 (of_nat n)
     else [c])"

definition line_sep :: "nat \<Rightarrow> string" where
  "line_sep n = [char_of (0xE2 :: nat), char_of (0x80 :: nat), char_of n]"

function json_escape :: "string \<Rightarrow> string" where
  "json_escape s =
     (case s of
        [] \<Rightarrow> []
      | c # cs \<Rightarrow>
          if take 3 s = line_sep 0xA8 then CHR 0x5C # ''u2028'' @ json_escape (drop 2 cs)
          else if take 3 s = line_sep 0xA9 then CHR 0x5C # ''u2029'' @ json_escape (drop 2 cs)
          else json_char c @ json_escape cs)"
  by pat_completeness auto
termination
  by (relation "measure length") auto

declare json_escape.simps [simp del]

definition json_string :: "string \<Rightarrow> string" where
  "json_string s = CHR 0x22 # json_escape s @ [CHR 0x22]"

fun json_text :: "json_fmt \<Rightarrow> json \<Rightarrow> string" where
  "json_text fm JNull = ''null''"
| "json_text fm (JBool b) = (if b then ''true'' else ''false'')"
| "json_text fm (JInt i) = Itoa i"
| "json_text fm (JNum t) = t"
| "json_text fm (JFloat r) = jf_float fm r"
| "json_text fm (JTime t) = CHR 0x22 # jf_time fm t @ [CHR 0x22]"
| "json_text fm (JStr s) = json_string s"
| "json_text fm (JArr js) = ''['' @ join_with '','' (map (json_text fm) js) @ '']''"
| "json_text fm (JObj kvs) =
     CHR 0x7B # join_with '','' (map (\<lambda>kv. json_string (fst kv) @ '':'' @ json_text fm (snd kv)) kvs) @ [CHR 0x7D]"

text \<open>\<open>json.NewEncoder(w).Encode(v)\<close> ends with a newline.\<close>

definition Encode :: "json_fmt \<Rightarrow> json \<Rightarrow> string" where
  "Encode fm j = json_text fm j @ [CHR 0x0A]"

lemma Encode_ne [simp]: "Encode fm j \<noteq> []"
  by (simp add: Encode_def)

text \<open>A field with the option \<open>omitempty\<close>.\<close>

definition omit_str :: "string \<Rightarrow> string \<Rightarrow> (string \<times> json) list" where
  "omit_str k s = (if s = [] then [] else [(k, JStr s)])"

definition omit_int :: "string \<Rightarrow> int \<Rightarrow> (string \<times> json) list" where
  "omit_int k i = (if i = 0 then [] else [(k, JInt i)])"

definition omit_time :: "string \<Rightarrow> time option \<Rightarrow> (string \<times> json) list" where
  "omit_time k t = (case t of None \<Rightarrow> [] | Some x \<Rightarrow> [(k, JTime x)])"

definition JUint :: "64 word \<Rightarrow> json" where
  "JUint n = JInt (uint n)"

section \<open>Reading a value\<close>

definition json_space :: "char \<Rightarrow> bool" where
  "json_space c \<longleftrightarrow> c = CHR '' '' \<or> c = CHR 0x09 \<or> c = CHR 0x0D \<or> c = CHR 0x0A"

definition skip_ws :: "string \<Rightarrow> string" where
  "skip_ws s = dropWhile json_space s"

definition utf8 :: "nat \<Rightarrow> string" where
  "utf8 n =
     (if n < 0x80 then [char_of n]
      else if n < 0x800 then [char_of (0xC0 + n div 64), char_of (0x80 + n mod 64)]
      else if n < 0x10000 then
        [char_of (0xE0 + n div 4096), char_of (0x80 + n div 64 mod 64), char_of (0x80 + n mod 64)]
      else [char_of (0xF0 + n div 262144), char_of (0x80 + n div 4096 mod 64),
            char_of (0x80 + n div 64 mod 64), char_of (0x80 + n mod 64)])"

definition hex_digit :: "char \<Rightarrow> nat option" where
  "hex_digit c = (let n = (of_char c :: nat) in
     if 48 \<le> n \<and> n \<le> 57 then Some (n - 48)
     else if 97 \<le> n \<and> n \<le> 102 then Some (n - 87)
     else if 65 \<le> n \<and> n \<le> 70 then Some (n - 55)
     else None)"

text \<open>Four hexadecimal digits.\<close>

definition hex4 :: "string \<Rightarrow> nat option" where
  "hex4 s = (if length s < 4 then None
     else foldl (\<lambda>v c. case (v, hex_digit c) of (Some v, Some d) \<Rightarrow> Some (v * 16 + d) | _ \<Rightarrow> None) (Some 0) (take 4 s))"

text \<open>What follows \<open>\u\<close>: the code point, a surrogate pair joined, a lone surrogate replaced by
  U+FFFD; and the rest.\<close>

definition read_u :: "string \<Rightarrow> (string \<times> string) option" where
  "read_u s = (case hex4 s of
     None \<Rightarrow> None
   | Some r \<Rightarrow>
       let rest = drop 4 s
       in if 0xD800 \<le> r \<and> r < 0xE000 then
            (if r < 0xDC00 \<and> take 2 rest = [CHR 0x5C, CHR ''u''] then
               (case hex4 (drop 2 rest) of
                  Some r2 \<Rightarrow> if 0xDC00 \<le> r2 \<and> r2 < 0xE000
                     then Some (utf8 (0x10000 + (r - 0xD800) * 1024 + (r2 - 0xDC00)), drop 6 rest)
                     else Some (utf8 0xFFFD, rest)
                | None \<Rightarrow> Some (utf8 0xFFFD, rest))
             else Some (utf8 0xFFFD, rest))
          else Some (utf8 r, rest))"

definition simple_escape :: "char \<Rightarrow> char option" where
  "simple_escape c =
     (if c = CHR 0x22 \<or> c = CHR 0x5C \<or> c = CHR ''/'' then Some c
      else if c = CHR ''b'' then Some (CHR 0x08) else if c = CHR ''f'' then Some (CHR 0x0C)
      else if c = CHR ''n'' then Some (CHR 0x0A) else if c = CHR ''r'' then Some (CHR 0x0D)
      else if c = CHR ''t'' then Some (CHR 0x09) else None)"

text \<open>A string after its opening quote. The fuel is its length.\<close>

fun read_string :: "nat \<Rightarrow> string \<Rightarrow> (string \<times> string) option" where
  "read_string 0 s = None"
| "read_string (Suc n) [] = None"
| "read_string (Suc n) (c # cs) =
     (if c = CHR 0x22 then Some ([], cs)
      else if (of_char c :: nat) < 32 then None
      else if c = CHR 0x5C then
        (case cs of
           [] \<Rightarrow> None
         | d # ds \<Rightarrow>
             (case (if d = CHR ''u'' then read_u ds else map_option (\<lambda>e. ([e], ds)) (simple_escape d)) of
                None \<Rightarrow> None
              | Some (t, rest) \<Rightarrow> map_option (apfst (append t)) (read_string n rest)))
      else map_option (apfst (Cons c)) (read_string n cs))"

text \<open>A number: an integer literal, or one with a fraction or exponent, which is kept as text.\<close>

definition read_number :: "string \<Rightarrow> (json \<times> string) option" where
  "read_number s =
     (let neg = (take 1 s = ''-''); s1 = (if neg then drop 1 s else s);
          ds = takeWhile is_digit s1; s2 = dropWhile is_digit s1
      in if ds = [] then None
         else
           let (ds, s2) = (if hd ds = CHR ''0'' then ([CHR ''0''], drop 1 s1) else (ds, s2));
               fr = (take 1 s2 = ''.''); fds = takeWhile is_digit (drop 1 s2);
               s3 = (if fr then dropWhile is_digit (drop 1 s2) else s2);
               ex = (take 1 s3 = ''e'' \<or> take 1 s3 = ''E'');
               s4 = (if ex then (if take 1 (drop 1 s3) = ''+'' \<or> take 1 (drop 1 s3) = ''-'' then drop 2 s3 else drop 1 s3) else s3);
               eds = takeWhile is_digit s4; s5 = (if ex then dropWhile is_digit s4 else s3)
           in if fr \<and> fds = [] \<or> ex \<and> eds = [] then None
              else if fr \<or> ex then Some (JNum (take (length s - length s5) s), s5)
              else Some (JInt (if neg then - int (dec_val ds) else int (dec_val ds)), s5))"

definition read_literal :: "string \<Rightarrow> json \<Rightarrow> string \<Rightarrow> (json \<times> string) option" where
  "read_literal lit j s = (if HasPrefix s lit then Some (j, drop (length lit) s) else None)"

definition maxNestingDepth :: nat where "maxNestingDepth = 10000"

text \<open>Values, the elements of an array up to its bracket, the members of an object up to its brace.
  \<open>d\<close> counts the open brackets. Every second call consumes a character, so that fuel twice the
  length is enough.\<close>

fun read_value :: "nat \<Rightarrow> nat \<Rightarrow> string \<Rightarrow> (json \<times> string) option"
  and read_elems :: "nat \<Rightarrow> nat \<Rightarrow> string \<Rightarrow> (json list \<times> string) option"
  and read_members :: "nat \<Rightarrow> nat \<Rightarrow> string \<Rightarrow> ((string \<times> json) list \<times> string) option" where
  "read_value 0 d s = None"
| "read_value (Suc n) d s =
     (case skip_ws s of
        [] \<Rightarrow> None
      | c # cs \<Rightarrow>
          if c = CHR 0x22 then map_option (apfst JStr) (read_string (length cs) cs)
          else if c = CHR ''['' then
            (if d \<ge> maxNestingDepth then None
             else if take 1 (skip_ws cs) = '']'' then Some (JArr [], drop 1 (skip_ws cs))
             else map_option (apfst JArr) (read_elems n (Suc d) cs))
          else if c = CHR 0x7B then
            (if d \<ge> maxNestingDepth then None
             else if take 1 (skip_ws cs) = [CHR 0x7D] then Some (JObj [], drop 1 (skip_ws cs))
             else map_option (apfst JObj) (read_members n (Suc d) cs))
          else if c = CHR ''t'' then read_literal ''true'' (JBool True) (c # cs)
          else if c = CHR ''f'' then read_literal ''false'' (JBool False) (c # cs)
          else if c = CHR ''n'' then read_literal ''null'' JNull (c # cs)
          else read_number (c # cs))"
| "read_elems 0 d s = None"
| "read_elems (Suc n) d s =
     (case read_value n d s of
        None \<Rightarrow> None
      | Some (j, rest) \<Rightarrow>
          (case skip_ws rest of
             [] \<Rightarrow> None
           | c # cs \<Rightarrow>
               if c = CHR '']'' then Some ([j], cs)
               else if c = CHR '','' then map_option (apfst (Cons j)) (read_elems n d cs)
               else None))"
| "read_members 0 d s = None"
| "read_members (Suc n) d s =
     (case skip_ws s of
        [] \<Rightarrow> None
      | q # ks \<Rightarrow>
          if q \<noteq> CHR 0x22 then None
          else case read_string (length ks) ks of
            None \<Rightarrow> None
          | Some (k, r1) \<Rightarrow>
              (case skip_ws r1 of
                 [] \<Rightarrow> None
               | col # r2 \<Rightarrow>
                   if col \<noteq> CHR '':'' then None
                   else case read_value n d r2 of
                     None \<Rightarrow> None
                   | Some (j, r3) \<Rightarrow>
                       (case skip_ws r3 of
                          [] \<Rightarrow> None
                        | c # cs \<Rightarrow>
                            if c = CHR 0x7D then Some ([(k, j)], cs)
                            else if c = CHR '','' then map_option (apfst (Cons (k, j))) (read_members n d cs)
                            else None)))"

text \<open>\<open>Decoder.Decode\<close> on a body, up to the mapping to a struct: \<open>io.EOF\<close> when there is nothing but
  blanks, otherwise the first value or an error. What follows the value is not read.\<close>

datatype decoded = DecEOF | DecError | DecValue json

definition Decode :: "string \<Rightarrow> decoded" where
  "Decode s = (if skip_ws s = [] then DecEOF
     else case read_value (2 * length s + 2) 0 s of None \<Rightarrow> DecError | Some (j, _) \<Rightarrow> DecValue j)"

section \<open>Struct fields\<close>

text \<open>A key selects the field whose name it equals up to case; the two characters outside ASCII
  that fold to a letter are the Kelvin sign and the long s.\<close>

fun fold_key :: "string \<Rightarrow> string" where
  "fold_key [] = []"
| "fold_key (c # cs) =
     (let n = (of_char c :: nat)
      in if take 3 (c # cs) = [char_of (0xE2 :: nat), char_of (0x84 :: nat), char_of (0xAA :: nat)]
         then CHR ''K'' # fold_key (drop 2 cs)
         else if take 2 (c # cs) = [char_of (0xC5 :: nat), char_of (0xBF :: nat)] then CHR ''S'' # fold_key (drop 1 cs)
         else if 97 \<le> n \<and> n \<le> 122 then char_of (n - 32) # fold_key cs
         else c # fold_key cs)"

definition key_is :: "string \<Rightarrow> string \<Rightarrow> bool" where
  "key_is name k \<longleftrightarrow> fold_key k = fold_key name"

text \<open>The members with a field's name in order; \<open>None\<close> when one has the wrong type, \<open>null\<close> leaves
  what was there.\<close>

fun field :: "('a \<Rightarrow> json \<Rightarrow> 'a option) \<Rightarrow> string \<Rightarrow> 'a \<Rightarrow> (string \<times> json) list \<Rightarrow> 'a option" where
  "field dec name acc [] = Some acc"
| "field dec name acc ((k, j) # kvs) =
     (if key_is name k then (case dec acc j of None \<Rightarrow> None | Some a \<Rightarrow> field dec name a kvs)
      else field dec name acc kvs)"

fun dec_str :: "string \<Rightarrow> json \<Rightarrow> string option" where
  "dec_str acc JNull = Some acc"
| "dec_str acc (JStr s) = Some s"
| "dec_str acc _ = None"

fun dec_int :: "int \<Rightarrow> json \<Rightarrow> int option" where
  "dec_int acc JNull = Some acc"
| "dec_int acc (JInt n) = (if int_range n then Some n else None)"
| "dec_int acc _ = None"

fun dec_int_ptr :: "int option \<Rightarrow> json \<Rightarrow> int option option" where
  "dec_int_ptr acc JNull = Some None"
| "dec_int_ptr acc (JInt n) = (if int_range n then Some (Some n) else None)"
| "dec_int_ptr acc _ = None"

fun dec_strs :: "string list option \<Rightarrow> json \<Rightarrow> string list option option" where
  "dec_strs acc JNull = Some None"
| "dec_strs acc (JArr js) = map_option Some (those (map (dec_str []) js))"
| "dec_strs acc _ = None"

text \<open>The members a struct is filled from: none for \<open>null\<close>, an error for anything but an object.\<close>

fun members :: "json \<Rightarrow> (string \<times> json) list option" where
  "members (JObj kvs) = Some kvs"
| "members JNull = Some []"
| "members _ = None"

end
