(* ===== verification/VmRun.thy ===== *)
theory VmRun
  imports VmOps VmLifecycle
begin

text \<open>
  The runner the queue executes (\<open>RunJob\<close>), the wiring of the service (\<open>NewService\<close>) and the
  reconciliation at start-up (\<open>internal/vm/reconcile.go\<close>).
\<close>

definition RunJob :: "('s, 'c, 'f) Service \<Rightarrow> Job \<Rightarrow> ('s, 'c, 'f) world \<Rightarrow> (unit res \<times> ('s, 'c, 'f) world) option" where
  "RunJob S j w = (case job_Type j of
     JobCreate \<Rightarrow> runCreate S (job_VMID j) w
   | JobStart \<Rightarrow> Some (runPower S (job_VMID j) (job_Type j) w)
   | JobShutdown \<Rightarrow> Some (runPower S (job_VMID j) (job_Type j) w)
   | JobReboot \<Rightarrow> Some (runPower S (job_VMID j) (job_Type j) w)
   | JobStop \<Rightarrow> Some (runPower S (job_VMID j) (job_Type j) w)
   | JobTerminate \<Rightarrow> Some (runTerminate S (job_VMID j) w)
   | JobSuspend \<Rightarrow> Some (runSuspend S (job_VMID j) w)
   | JobUnsuspend \<Rightarrow> Some (runUnsuspend S (job_VMID j) w)
   | JobPassword \<Rightarrow> Some (runReseed S (job_VMID j) w)
   | JobHostname \<Rightarrow> Some (runReseed S (job_VMID j) w)
   | JobRebuild \<Rightarrow> Some (runRebuild S (job_VMID j) w)
   | JobResize \<Rightarrow> Some (runResize S (job_VMID j) w)
   | JobSnapshotCreate \<Rightarrow> Some (runSnapshotCreate S j w)
   | JobSnapshotDelete \<Rightarrow> Some (runSnapshotDelete S j w)
   | JobSnapshotRevert \<Rightarrow> Some (runSnapshotRevert S j w)
   | JobNetBlock \<Rightarrow> Some (runNetBlock S (job_VMID j) w)
   | JobNetUnblock \<Rightarrow> Some (runNetUnblock S (job_VMID j) w)
   | JobTrafficReset \<Rightarrow> Some (runTrafficReset S (job_VMID j) w)
   | JobTypeOther t \<Rightarrow> Some (Inl (errors_New (''unsupported job type '' @ Quote t)), w))"

text \<open>\<open>NewService\<close> empties the two in-memory maps and installs the runner on the queue.\<close>

definition NewService :: "('s, 'c, 'f) Service \<Rightarrow> ('s, 'c, 'f) Queue \<Rightarrow> ('s, 'c, 'f) world
    \<Rightarrow> ('s, 'c, 'f) Queue \<times> ('s, 'c, 'f) world" where
  "NewService S q w = (SetRunner (RunJob S) q, w\<lparr>w_lastStats := Map.empty, w_trafficLast := Map.empty\<rparr>)"

fun settled_status :: "PowerState \<Rightarrow> VMStatus" where
  "settled_status PowerRunning = VMStatusRunning"
| "settled_status PowerPaused = VMStatusSuspended"
| "settled_status _ = VMStatusStopped"

definition reconcile_vm :: "('s, 'c, 'f) Service \<Rightarrow> VM \<Rightarrow> ('s, 'c, 'f) world \<Rightarrow> ('s, 'c, 'f) world" where
  "reconcile_vm S v w =
     (if vm_Status v \<noteq> VMStatusProvisioning then w
      else case conn_state S v w of
        (Inl _, w1) \<Rightarrow> ignore_err (st_UpdateVM S (v\<lparr>vm_Status := VMStatusError, vm_PowerState := PowerShutoff\<rparr>)
                        (teardownPartial S v (vm_MAC v) w1))
      | (Inr state, w1) \<Rightarrow>
          let power = mapPowerState state
          in ignore_err (st_UpdateVM S (v\<lparr>vm_Status := settled_status power, vm_PowerState := power\<rparr>) w1))"

definition ReconcileOnStart :: "('s, 'c, 'f) Service \<Rightarrow> ('s, 'c, 'f) world \<Rightarrow> ('s, 'c, 'f) world" where
  "ReconcileOnStart S w = (case st_ListVMs S w of
     (Inl _, w1) \<Rightarrow> w1
   | (Inr vms, w1) \<Rightarrow> fold (reconcile_vm S) vms w1)"

section \<open>What a job touches\<close>

context job_env
begin

lemma safe_RunJob:
  assumes "sinv (w_store w)" "RunJob S j w = Some p"
  shows "safe (job_VMID j) w p"
proof -
  have f: "jf (job_VMID j) w w" by (rule job_frame_refl [where sinv = sinv, OF assms(1)])
  show ?thesis
    using assms(2) safe_runCreate [OF f, of p]
      safe_runPower [OF f] safe_runTerminate [OF f] safe_runSuspend [OF f] safe_runUnsuspend [OF f]
      safe_runReseed [OF f] safe_runRebuild [OF f] safe_runResize [OF f] safe_runSnapshotCreate [OF f]
      safe_runSnapshotDelete [OF f] safe_runSnapshotRevert [OF f] safe_runNetBlock [OF f]
      safe_runNetUnblock [OF f] safe_runTrafficReset [OF f] safe_error [where E = E, OF f E_plain]
    by (cases "job_Type j") (auto simp: RunJob_def)
qed

end

section \<open>Runs return\<close>

lemma RunJob_returns:
  assumes "pools_finite S"
  shows "RunJob S j w \<noteq> None"
  using runCreate_returns [OF assms] by (cases "job_Type j") (auto simp: RunJob_def)

lemma RunJob_honest:
  assumes "sv_store S = sqlite_ops" "quiet_deps S" "pools_finite S"
  shows "honest_runner sqlite_view (\<lambda>s. sqlite_inv s \<and> sqlite_calm s) (RunJob S)"
proof (unfold honest_runner_def, intro allI impI)
  fix j and w :: "(SQLiteStore, 'a, 'b) world"
  assume ok: "sqlite_inv (w_store w) \<and> sqlite_calm (w_store w)"
  obtain res w' where r: "RunJob S j w = Some (res, w')"
    using RunJob_returns [OF assms(3), of j w] by (cases "RunJob S j w") auto
  from calmrun.safe_RunJob [where S = S, unfolded with_sqlite [OF assms(1)], OF ok r]
  show "\<exists>res w'. RunJob S j w = Some (res, w') \<and> (sqlite_inv (w_store w') \<and> sqlite_calm (w_store w')) \<and>
      sv_jobs (sqlite_view (w_store w')) = sv_jobs (sqlite_view (w_store w)) \<and>
      (\<forall>e. res = Inl e \<longrightarrow> \<not> errors_Is e ContextCanceled)"
    using r assms(2) by (auto simp: run_safe_def job_frame_def uncancelled_def)
qed

section \<open>Properties\<close>

text \<open>(C4) A job touches nothing but its own VM: whatever its type and whatever fails on the way,
  running it leaves the records and the addresses of all other VMs, the jobs table, the
  idempotency keys, the queue's channel and its timers as they were, and keeps the store's
  invariant. So a run is one of the steps under which the queue's own guarantees hold.\<close>

theorem job_touches_only_its_vm:
  assumes "sv_store S = sqlite_ops" "sqlite_inv (w_store w)" "RunJob S j w = Some (r, w')"
  shows "job_frame sqlite_view sqlite_inv (job_VMID j) w w' \<and>
    qstep S sqlite_view sqlite_inv q \<lparr>qs_world = w, qs_running = js\<rparr> \<lparr>qs_world = w', qs_running = js\<rparr>"
proof -
  have f: "job_frame sqlite_view sqlite_inv (job_VMID j) w w'"
    using anyrun.safe_RunJob [where S = S, unfolded with_sqlite [OF assms(1)], OF assms(2,3)]
    by (simp add: run_safe_def)
  then have "qstep S sqlite_view sqlite_inv q \<lparr>qs_world = w, qs_running = js\<rparr>
      (\<lparr>qs_world = w, qs_running = js\<rparr>\<lparr>qs_world := w'\<rparr>)"
    by (intro qstep.works) (simp_all add: job_frame_def)
  with f show ?thesis by simp
qed


lemma fake_uncancelled: "conn_errors fake_ops uncancelled"
  unfolding conn_errors_def
  by (auto simp: fake_state_defs fake_store_defs fake_ResizeVolume_def fake_CreateSnapshot_def
      fake_DeleteSnapshot_def fake_RevertSnapshot_def domainNameFromXML_def uncancelled_def Let_def
      split: option.splits sum.splits if_splits)

lemma demo_quiet: "quiet_deps demo_service"
  unfolding quiet_deps_def
  by (simp add: fake_uncancelled) (simp add: demo_service_def demo_os_def demo_xml_def os_errors_def xml_errors_def)

definition demo_create_job :: Job where
  "demo_create_job = \<lparr>job_ID = ''j1'', job_Type = JobCreate, job_VMID = ''v1'', job_State = JobQueued, job_Error = [],
     job_IdempotencyKey = [], job_Payload = [], job_Attempts = 0, job_CreatedAt = 0, job_StartedAt = None,
     job_FinishedAt = None\<rparr>"

theorem job_touches_only_its_vm_witness:
  "\<exists>r w'. RunJob demo_service demo_create_job (vm_world demo_vm) = Some (r, w') \<and>
    sv_vms (sqlite_view (w_store w')) ''v2'' = None"
proof -
  obtain r w' where r: "RunJob demo_service demo_create_job (vm_world demo_vm) = Some (r, w')"
    using RunJob_returns [OF demo_pools_finite, of demo_create_job "vm_world demo_vm"]
    by (cases "RunJob demo_service demo_create_job (vm_world demo_vm)") auto
  from job_touches_only_its_vm [OF demo_store(1) vm_world_ok(1) r] show ?thesis
    using r by (auto simp: job_frame_def demo_create_job_def demo_vm_def)
qed


section \<open>Reconciliation at start-up\<close>

lemma reconcile_vm_settles:
  fixes S :: "(SQLiteStore, 'c, 'f) Service"
  assumes S: "sv_store S = sqlite_ops" and fine: "sqlite_inv (w_store w) \<and> sqlite_calm (w_store w)"
    and v: "sv_vms (sqlite_view (w_store w)) (vm_ID v) = Some v"
  shows "job_frame sqlite_view (\<lambda>s. sqlite_inv s \<and> sqlite_calm s) (vm_ID v) w (reconcile_vm S v w) \<and>
    (\<exists>v'. sv_vms (sqlite_view (w_store (reconcile_vm S v w))) (vm_ID v) = Some v' \<and>
      vm_Status v' \<noteq> VMStatusProvisioning \<and> (vm_Status v \<noteq> VMStatusProvisioning \<longrightarrow> v' = v))"
proof (cases "vm_Status v = VMStatusProvisioning")
  case False
  then show ?thesis using fine v by (simp add: reconcile_vm_def job_frame_def)
next
  case True
  let ?jf = "job_frame sqlite_view (\<lambda>s. sqlite_inv s \<and> sqlite_calm s) (vm_ID v) w"
  have f: "?jf w" using fine by (simp add: job_frame_def)
  obtain r w1 where c: "conn_state S v w = (r, w1)" by fastforce
  have f1: "?jf w1"
    using calmrun.safe_conn_state [where S = S, unfolded with_sqlite [OF S], OF f, of v] by (simp add: run_safe_def c)
  have step: "?jf (ignore_err (st_UpdateVM S u w2)) \<and>
      (\<exists>v'. sv_vms (sqlite_view (w_store (ignore_err (st_UpdateVM S u w2)))) (vm_ID v) = Some v' \<and>
        vm_Status v' \<noteq> VMStatusProvisioning)"
    if "?jf w2" "vm_ID u = vm_ID v" "vm_Status u \<noteq> VMStatusProvisioning" for u w2
  proof -
    note h = that
    have ok: "sqlite_inv (w_store w2)" "sqlite_calm (w_store w2)" and ex: "sv_vms (sqlite_view (w_store w2)) (vm_ID u) \<noteq> None"
      using h(1,2) v by (auto simp: job_frame_def)
    then obtain old where old: "sv_vms (sqlite_view (w_store w2)) (vm_ID u) = Some old" by blast
    obtain w3 now where u: "st_UpdateVM S u w2 = (Inr (), w3)"
      "sqlite_view (w_store w3) = (sqlite_view (w_store w2))\<lparr>sv_vms := (sv_vms (sqlite_view (w_store w2)))(vm_ID u \<mapsto> vm_written now old u)\<rparr>"
      by (rule agent.st_UpdateVM_effect [where S = S, unfolded with_sqlite [OF S], OF ok old])
    have "?jf w3"
      using calmrun.safe_UpdateVM [where S = S, unfolded with_sqlite [OF S], OF h(1,2)] by (simp add: run_safe_def u)
    then show ?thesis using u h(2,3) by (simp add: vm_written_def)
  qed
  show ?thesis
  proof (cases r)
    case (Inl e)
    have "?jf (teardownPartial S v (vm_MAC v) w1)"
      by (rule calmrun.frame_teardown [where S = S, unfolded with_sqlite [OF S], OF f1]) simp
    from step [OF this, of "v\<lparr>vm_Status := VMStatusError, vm_PowerState := PowerShutoff\<rparr>"]
    show ?thesis using True Inl by (simp add: reconcile_vm_def c)
  next
    case (Inr state)
    have "settled_status p \<noteq> VMStatusProvisioning" for p by (cases p) simp_all
    with step [OF f1, of "v\<lparr>vm_Status := settled_status (mapPowerState state), vm_PowerState := mapPowerState state\<rparr>"]
    show ?thesis using True Inr by (simp add: reconcile_vm_def c Let_def)
  qed
qed

lemma reconcile_fold:
  fixes S :: "(SQLiteStore, 'c, 'f) Service"
  assumes S: "sv_store S = sqlite_ops" and ok: "sqlite_inv (w_store w) \<and> sqlite_calm (w_store w)"
    and vs: "\<forall>v\<in>set vs. sv_vms (sqlite_view (w_store w)) (vm_ID v) = Some v" "distinct (map vm_ID vs)"
  defines "w' \<equiv> fold (reconcile_vm S) vs w"
  shows "w_sched w' = w_sched w \<and> sv_jobs (sqlite_view (w_store w')) = sv_jobs (sqlite_view (w_store w)) \<and>
    (\<forall>k. k \<notin> vm_ID ` set vs \<longrightarrow> sv_vms (sqlite_view (w_store w')) k = sv_vms (sqlite_view (w_store w)) k) \<and>
    (\<forall>v\<in>set vs. \<exists>v'. sv_vms (sqlite_view (w_store w')) (vm_ID v) = Some v' \<and>
      vm_Status v' \<noteq> VMStatusProvisioning \<and> (vm_Status v \<noteq> VMStatusProvisioning \<longrightarrow> v' = v))"
  unfolding w'_def
  using fold_vms [where sinv = "\<lambda>s. sqlite_inv s \<and> sqlite_calm s" and view = sqlite_view and f = "reconcile_vm S" and
      todo = "\<lambda>v w. sv_vms (sqlite_view (w_store w)) (vm_ID v) = Some v" and
      don = "\<lambda>v w. \<exists>v'. sv_vms (sqlite_view (w_store w)) (vm_ID v) = Some v' \<and>
        vm_Status v' \<noteq> VMStatusProvisioning \<and> (vm_Status v \<noteq> VMStatusProvisioning \<longrightarrow> v' = v)",
      OF reconcile_vm_settles [OF S] _ ok vs(2,1)]
  by (simp add: job_frame_def)

text \<open>Start-up reconciliation resolves every interrupted VM: with a database that answers and whatever
  the hypervisor says, afterwards no VM is left in the provisioning state, a VM that was not
  provisioning is exactly as it was, and the jobs table is untouched.\<close>

lemma reconcile_settles_vms:
  assumes "sv_store S = sqlite_ops" "sqlite_inv (w_store w)" "sqlite_calm (w_store w)"
  shows "w_sched (ReconcileOnStart S w) = w_sched w \<and>
    sv_jobs (sqlite_view (w_store (ReconcileOnStart S w))) = sv_jobs (sqlite_view (w_store w)) \<and>
    (\<forall>i. case sv_vms (sqlite_view (w_store w)) i of
       None \<Rightarrow> sv_vms (sqlite_view (w_store (ReconcileOnStart S w))) i = None
     | Some v \<Rightarrow> (\<exists>v'. sv_vms (sqlite_view (w_store (ReconcileOnStart S w))) i = Some v' \<and>
         vm_Status v' \<noteq> VMStatusProvisioning \<and> (vm_Status v \<noteq> VMStatusProvisioning \<longrightarrow> v' = v)))"
proof -
  obtain vs where l: "st_ListVMs S w = (Inr vs, w)"
    using agent.st_ListVMs_calm [where S = S, unfolded with_sqlite [OF assms(1)], OF assms(3)] by blast
  note law = agent.st_ListVMs_law [where S = S, unfolded with_sqlite [OF assms(1)], OF l assms(2)]
  have w': "ReconcileOnStart S w = fold (reconcile_vm S) vs w" by (simp add: ReconcileOnStart_def l)
  have vs: "\<forall>v\<in>set vs. sv_vms (sqlite_view (w_store w)) (vm_ID v) = Some v" "distinct (map vm_ID vs)"
    using law by auto
  note all = reconcile_fold [OF assms(1) conjI [OF assms(2,3)] vs, folded w']
  show ?thesis
  proof (intro conjI allI)
    show "w_sched (ReconcileOnStart S w) = w_sched w"
      "sv_jobs (sqlite_view (w_store (ReconcileOnStart S w))) = sv_jobs (sqlite_view (w_store w))"
      using all by blast+
    fix i
    show "case sv_vms (sqlite_view (w_store w)) i of
       None \<Rightarrow> sv_vms (sqlite_view (w_store (ReconcileOnStart S w))) i = None
     | Some v \<Rightarrow> (\<exists>v'. sv_vms (sqlite_view (w_store (ReconcileOnStart S w))) i = Some v' \<and>
         vm_Status v' \<noteq> VMStatusProvisioning \<and> (vm_Status v \<noteq> VMStatusProvisioning \<longrightarrow> v' = v))"
    proof (cases "sv_vms (sqlite_view (w_store w)) i")
      case None
      with vs(1) have "i \<notin> vm_ID ` set vs" by auto
      with all have "sv_vms (sqlite_view (w_store (ReconcileOnStart S w))) i = sv_vms (sqlite_view (w_store w)) i" by blast
      with None show ?thesis by simp
    next
      case (Some v)
      have "vm_ID v = i" by (rule agent.st_GetVM_fine(2) [OF assms(3,2) Some])
      moreover have "v \<in> set vs" using Some law by (auto simp: ran_def)
      ultimately show ?thesis using all Some by auto
    qed
  qed
qed

end
