(* ===== verification/Console.thy ===== *)
theory Console
  imports Demo
begin

text \<open>
  Console tokens (\<open>internal/console\<close>): minting, redeeming and sweeping the tickets that let a
  browser reach a VM's VNC port. The clock and the random source are the world's. The mutex makes
  each operation atomic, so a history is a sequence of operations.
\<close>

record Ticket =
  tk_VMID :: string
  tk_Host :: string
  tk_Port :: int
  tk_ExpiresAt :: time
  tk_used :: bool

record TokenStore =
  ts_ttl :: duration
  ts_tickets :: "string \<rightharpoonup> Ticket"

definition NewTokenStore :: "duration \<Rightarrow> TokenStore" where
  "NewTokenStore ttl = \<lparr>ts_ttl = (if ttl \<le> 0 then 60 * second else ttl), ts_tickets = Map.empty\<rparr>"

text \<open>\<open>base64.RawURLEncoding\<close>.\<close>

definition base64_char :: "nat \<Rightarrow> char" where
  "base64_char n = (if n < 26 then char_of (65 + n) else if n < 52 then char_of (71 + n)
     else if n < 62 then char_of (n - 4) else if n = 62 then CHR ''-'' else CHR ''_'')"

fun base64_raw :: "byte list \<Rightarrow> string" where
  "base64_raw [] = []"
| "base64_raw [a] = [base64_char (unat a div 4), base64_char (unat a mod 4 * 16)]"
| "base64_raw [a, b] = [base64_char (unat a div 4), base64_char (unat a mod 4 * 16 + unat b div 16),
     base64_char (unat b mod 16 * 4)]"
| "base64_raw (a # b # c # rest) = [base64_char (unat a div 4),
     base64_char (unat a mod 4 * 16 + unat b div 16), base64_char (unat b mod 16 * 4 + unat c div 64),
     base64_char (unat c mod 64)] @ base64_raw rest"

definition randomToken :: "('s, 'c, 'f) world \<Rightarrow> string res \<times> ('s, 'c, 'f) world" where
  "randomToken w = (case rand_Read 32 w of
     (Inl e, w1) \<Rightarrow> (Inl e, w1)
   | (Inr b, w1) \<Rightarrow> (Inr (base64_raw b), w1))"

definition sweep :: "TokenStore \<Rightarrow> ('s, 'c, 'f) world \<Rightarrow> TokenStore \<times> ('s, 'c, 'f) world" where
  "sweep ts w = (case time_Now w of (now, w1) \<Rightarrow>
     (ts\<lparr>ts_tickets := (\<lambda>k. case ts_tickets ts k of
        None \<Rightarrow> None
      | Some t \<Rightarrow> if now > tk_ExpiresAt t then None else Some t)\<rparr>, w1))"

definition Mint :: "string \<Rightarrow> string \<Rightarrow> int \<Rightarrow> TokenStore \<Rightarrow> ('s, 'c, 'f) world
    \<Rightarrow> (string \<times> Ticket) res \<times> TokenStore \<times> ('s, 'c, 'f) world" where
  "Mint vmID host port ts w = (case randomToken w of
     (Inl e, w1) \<Rightarrow> (Inl e, ts, w1)
   | (Inr tok, w1) \<Rightarrow> (case time_Now w1 of (now, w2) \<Rightarrow>
       let t = \<lparr>tk_VMID = vmID, tk_Host = host, tk_Port = port, tk_ExpiresAt = now + ts_ttl ts, tk_used = False\<rparr>
       in case sweep ts w2 of (ts1, w3) \<Rightarrow>
            (Inr (tok, t), ts1\<lparr>ts_tickets := (ts_tickets ts1)(tok \<mapsto> t)\<rparr>, w3)))"

definition Redeem :: "string \<Rightarrow> TokenStore \<Rightarrow> ('s, 'c, 'f) world
    \<Rightarrow> Ticket option \<times> TokenStore \<times> ('s, 'c, 'f) world" where
  "Redeem token ts w = (case ts_tickets ts token of
     None \<Rightarrow> (None, ts, w)
   | Some t \<Rightarrow>
       let ts1 = ts\<lparr>ts_tickets := (ts_tickets ts)(token := None)\<rparr>
       in if tk_used t then (None, ts1, w)
          else case time_Now w of (now, w1) \<Rightarrow>
            if now > tk_ExpiresAt t then (None, ts1, w1) else (Some (t\<lparr>tk_used := True\<rparr>), ts1, w1))"

section \<open>Histories\<close>

text \<open>One operation of any client, minting the token \<open>tok\<close> again excepted.\<close>

inductive ts_step :: "string \<Rightarrow> TokenStore \<times> ('s, 'c, 'f) world \<Rightarrow> TokenStore \<times> ('s, 'c, 'f) world \<Rightarrow> bool"
  for tok where
  mint: "Mint vmID host port ts w = (Inr (k, t), ts', w') \<Longrightarrow> k \<noteq> tok \<Longrightarrow> ts_step tok (ts, w) (ts', w')"
| mint_fails: "Mint vmID host port ts w = (Inl e, ts', w') \<Longrightarrow> ts_step tok (ts, w) (ts', w')"
| redeem: "Redeem k ts w = (r, ts', w') \<Longrightarrow> ts_step tok (ts, w) (ts', w')"
| clock: "ts_step tok (ts, w) (ts, snd (time_Now w))"

lemma ts_step_ticket:
  assumes "ts_step tok (ts, w) (ts', w')"
  shows "ts_tickets ts' tok = None \<or> ts_tickets ts' tok = ts_tickets ts tok"
  using assms
proof cases
  case (mint vmID host port k t)
  then show ?thesis
    by (auto simp: Mint_def sweep_def time_Now_def Let_def split: sum.splits prod.splits option.splits)
next
  case (mint_fails vmID host port e)
  then show ?thesis by (auto simp: Mint_def sweep_def time_Now_def Let_def split: sum.splits prod.splits)
next
  case (redeem k r)
  then show ?thesis
    by (auto simp: Redeem_def time_Now_def Let_def split: option.splits if_splits)
qed simp

lemma ts_steps_ticket:
  assumes "(ts_step tok)\<^sup>*\<^sup>* (ts, w) (ts', w')"
  shows "ts_tickets ts' tok = None \<or> ts_tickets ts' tok = ts_tickets ts tok"
  using assms
proof (induction rule: rtranclp_induct2)
  case (step a b c d)
  then show ?case using ts_step_ticket [OF step.hyps(2)] by auto
qed simp

section \<open>Properties\<close>

text \<open>(C31) Tokens are single-use: once a token has been redeemed, no later attempt to redeem it
  succeeds, whatever tokens are minted or redeemed in between.\<close>

theorem token_single_use:
  assumes "Redeem tok ts w = (Some t, ts1, w1)" "(ts_step tok)\<^sup>*\<^sup>* (ts1, w1) (ts2, w2)"
  shows "fst (Redeem tok ts2 w2) = None"
proof -
  have "ts_tickets ts1 tok = None"
    using assms(1) by (auto simp: Redeem_def time_Now_def Let_def split: option.splits if_splits)
  then show ?thesis using ts_steps_ticket [OF assms(2)] by (auto simp: Redeem_def)
qed

text \<open>A token opens only the console it was minted for and only in time: a successful
  redemption returns the minted VM, host and port, and the clock then reads no later than the
  minting time plus the store's lifetime for tokens.\<close>

lemma token_redeems_minted:
  assumes "Mint vmID host port ts w = (Inr (tok, t), ts1, w1)" "(ts_step tok)\<^sup>*\<^sup>* (ts1, w1) (ts2, w2)"
    and "Redeem tok ts2 w2 = (Some t', ts3, w3)"
  shows "tk_VMID t' = vmID \<and> tk_Host t' = host \<and> tk_Port t' = port \<and> w_clock w2 0 \<le> w_clock w 0 + ts_ttl ts"
proof -
  have t: "ts_tickets ts1 tok = Some t" "tk_VMID t = vmID" "tk_Host t = host" "tk_Port t = port"
    "tk_ExpiresAt t = w_clock w 0 + ts_ttl ts"
    using assms(1) by (auto simp: Mint_def randomToken_def rand_Read_def sweep_def time_Now_def Let_def
        split: sum.splits prod.splits)
  moreover have "ts_tickets ts2 tok = Some t"
    using ts_steps_ticket [OF assms(2)] assms(3) t(1) by (auto simp: Redeem_def)
  ultimately show ?thesis
    using assms(3) by (auto simp: Redeem_def time_Now_def Let_def split: if_splits)
qed

definition demo_tokens :: TokenStore where
  "demo_tokens = NewTokenStore 0"

lemma demo_mint:
  "\<exists>tok t ts1 w1. Mint ''vm-1'' ''127.0.0.1'' 5900 demo_tokens demo_world = (Inr (tok, t), ts1, w1) \<and>
     (\<exists>t' ts2 w2. Redeem tok ts1 w1 = (Some t', ts2, w2))"
  by (simp add: Mint_def randomToken_def rand_Read_def sweep_def time_Now_def Redeem_def Let_def
      demo_tokens_def NewTokenStore_def demo_world_def second_def)

theorem token_single_use_witness:
  "\<exists>tok ts1 w1 t ts2 w2. Redeem tok ts1 (w1 :: (SQLiteStore, Fake, unit) world) = (Some t, ts2, w2) \<and>
     fst (Redeem tok ts2 w2) = None"
  using demo_mint token_single_use [OF _ rtranclp.rtrancl_refl] by blast

end
