(* ===== verification/Api.thy ===== *)
theory Api
  imports GoJson VmRun Console
begin

text \<open>
  The HTTP layer (\<open>internal/api\<close>): errors and their rendering, the middlewares (bearer tokens,
  source allowlist, idempotency keys), every handler and the routing table.

  A handler takes a request and the state and gives a response and the state it leaves. The
  state is the service's world with the console token store. The response of a handler is what
  the \<open>http.ResponseWriter\<close> has received when it returns, which is also what
  \<open>responseCapture\<close> records. Not modelled: TLS and the listening socket (\<open>server.go\<close>), access
  logging, the recovery of panics, and the byte stream of a console once it is connected.
  Parameters: SHA-256, the pattern matching of the router library (\<open>chi\<close>), and the two print
  functions of \<open>GoJson\<close>.
\<close>

section \<open>Requests, responses, errors\<close>

record Request =
  rq_Method :: string
  rq_Path :: string
  rq_Header :: "string \<Rightarrow> string"
  rq_Query :: "string \<Rightarrow> string"
  rq_Param :: "string \<Rightarrow> string"
  rq_RemoteAddr :: string
  rq_Body :: string
  rq_BodyErr :: bool \<comment> \<open>the connection fails after these bytes\<close>

record Response =
  rs_Status :: int
  rs_Header :: "(string \<times> string) list"
  rs_Body :: string

record APIError =
  ae_Status :: int
  ae_Code :: string
  ae_Message :: string

definition newAPIError :: "int \<Rightarrow> string \<Rightarrow> string \<Rightarrow> APIError" where
  "newAPIError status code msg = \<lparr>ae_Status = status, ae_Code = code, ae_Message = msg\<rparr>"

definition errBadRequest :: "string \<Rightarrow> APIError" where "errBadRequest msg = newAPIError 400 ''bad_request'' msg"
definition errUnauthorized :: "string \<Rightarrow> APIError" where "errUnauthorized msg = newAPIError 401 ''unauthorized'' msg"
definition errForbidden :: "string \<Rightarrow> APIError" where "errForbidden msg = newAPIError 403 ''forbidden'' msg"
definition errNotFound :: "string \<Rightarrow> APIError" where "errNotFound msg = newAPIError 404 ''not_found'' msg"
definition errConflict :: "string \<Rightarrow> APIError" where "errConflict msg = newAPIError 409 ''conflict'' msg"
definition errUnprocessable :: "string \<Rightarrow> APIError" where
  "errUnprocessable msg = newAPIError 422 ''unprocessable'' msg"
definition errNotImplemented :: "string \<Rightarrow> APIError" where
  "errNotImplemented msg = newAPIError 501 ''not_implemented'' msg"
definition errInternal :: "string \<Rightarrow> APIError" where "errInternal msg = newAPIError 500 ''internal'' msg"

definition APIError_Error :: "APIError \<Rightarrow> string" where
  "APIError_Error e = ae_Code e @ '': '' @ ae_Message e"

text \<open>The \<open>error\<close> values \<open>writeError\<close> is called with: an \<open>*APIError\<close> or any other error.\<close>

datatype any_error = IsAPIError APIError | OtherError goerr

definition writeJSON :: "json_fmt \<Rightarrow> (string \<times> string) list \<Rightarrow> int \<Rightarrow> json \<Rightarrow> Response" where
  "writeJSON fm hs status v = \<lparr>rs_Status = status,
     rs_Header = hs @ [(''Content-Type'', ''application/json; charset=utf-8'')], rs_Body = Encode fm v\<rparr>"

definition errorEnvelope :: "APIError \<Rightarrow> json" where
  "errorEnvelope e = JObj [(''error'', JObj [(''code'', JStr (ae_Code e)), (''message'', JStr (ae_Message e))])]"

definition writeError :: "json_fmt \<Rightarrow> any_error \<Rightarrow> Response" where
  "writeError fm err =
     (let apiErr = (case err of IsAPIError a \<Rightarrow> a | OtherError _ \<Rightarrow> errInternal ''internal server error'')
      in writeJSON fm [] (ae_Status apiErr) (errorEnvelope apiErr))"

definition mapVMError :: "goerr \<Rightarrow> APIError" where
  "mapVMError err =
     (if errors_Is err ErrFlavorNotFound \<or> errors_Is err ErrImageNotFound \<or> errors_Is err ErrNetworkNotFound
      then errUnprocessable (err_text err)
      else if errors_Is err ErrInvalidRequest then errBadRequest (err_text err)
      else if errors_Is err ErrVMNotFound then errNotFound (err_text err)
      else if errors_Is err ErrVMTerminated then errConflict (err_text err)
      else if errors_Is err ErrVMNotRunning then errConflict (err_text err)
      else if errors_Is err ErrInsufficientCapacity then errConflict (err_text err)
      else if errors_Is err ErrNoIPAvailable then errConflict (err_text err)
      else errInternal ''internal server error'')"

section \<open>Dependencies and state\<close>

record ('s, 'c, 'f) Options =
  op_Ready :: "(('s, 'c, 'f) world \<Rightarrow> unit res \<times> ('s, 'c, 'f) world) option"
  op_Auth :: Auth
  op_Catalog :: Catalog
  op_VMService :: "('s, 'c, 'f) Service"
  op_Version :: string
  op_fmt :: json_fmt
  op_sha256 :: "string \<Rightarrow> byte list"

record ('s, 'c, 'f) hstate =
  hs_world :: "('s, 'c, 'f) world"
  hs_tokens :: TokenStore

type_synonym ('s, 'c, 'f) handler =
  "('s, 'c, 'f) Options \<Rightarrow> Request \<Rightarrow> ('s, 'c, 'f) hstate \<Rightarrow> Response \<times> ('s, 'c, 'f) hstate"

text \<open>A computation on the world inside a handler.\<close>

definition on_world :: "(('s, 'c, 'f) world \<Rightarrow> 'a \<times> ('s, 'c, 'f) world)
    \<Rightarrow> ('s, 'c, 'f) hstate \<Rightarrow> 'a \<times> ('s, 'c, 'f) hstate" where
  "on_world f h = (case f (hs_world h) of (r, w) \<Rightarrow> (r, h\<lparr>hs_world := w\<rparr>))"

definition fail :: "('s, 'c, 'f) Options \<Rightarrow> APIError \<Rightarrow> Response" where
  "fail A e = writeError (op_fmt A) (IsAPIError e)"

text \<open>The store behind the API is the service's; the idempotency calls read the clock as the others
  do.\<close>

definition st_GetIdempotency :: "('s, 'c, 'f) Service \<Rightarrow> string \<Rightarrow> ('s, 'c, 'f) world
    \<Rightarrow> IdempotencyRecord res \<times> ('s, 'c, 'f) world" where
  "st_GetIdempotency S key w = (case time_Now w of (now, w1) \<Rightarrow> on_store (so_GetIdempotency (sv_store S) now key) w1)"

definition st_PutIdempotency :: "('s, 'c, 'f) Service \<Rightarrow> IdempotencyRecord \<Rightarrow> ('s, 'c, 'f) world
    \<Rightarrow> IdempotencyRecord res \<times> ('s, 'c, 'f) world" where
  "st_PutIdempotency S rec w = (case time_Now w of (now, w1) \<Rightarrow> on_store (so_PutIdempotency (sv_store S) now rec) w1)"

definition st_UpdateIdempotency :: "('s, 'c, 'f) Service \<Rightarrow> IdempotencyRecord \<Rightarrow> ('s, 'c, 'f) world
    \<Rightarrow> unit res \<times> ('s, 'c, 'f) world" where
  "st_UpdateIdempotency S rec w = on_store (so_UpdateIdempotency (sv_store S) rec) w"

definition st_DeleteIdempotency :: "('s, 'c, 'f) Service \<Rightarrow> string \<Rightarrow> ('s, 'c, 'f) world
    \<Rightarrow> unit res \<times> ('s, 'c, 'f) world" where
  "st_DeleteIdempotency S key w = on_store (so_DeleteIdempotency (sv_store S) key) w"

section \<open>Bearer tokens\<close>

definition lower :: "char \<Rightarrow> char" where
  "lower c = (let n = (of_char c :: nat) in if 65 \<le> n \<and> n \<le> 90 then char_of (n + 32) else c)"

text \<open>\<open>strings.EqualFold(h[:7], "Bearer ")\<close>: no character outside ASCII folds to one of these.\<close>

definition bearerToken :: "Request \<Rightarrow> string option" where
  "bearerToken r =
     (let prefix = ''Bearer ''; h = rq_Header r ''Authorization''
      in if length h \<le> length prefix \<or> map lower (take (length prefix) h) \<noteq> map lower prefix then None
         else Some (TrimSpace (drop (length prefix) h)))"

definition tokenAllowed :: "string list \<Rightarrow> string \<Rightarrow> bool" where
  "tokenAllowed tokens provided =
     (foldl (\<lambda>m t. or m (if t = provided then 1 else 0 :: int)) 0 tokens = 1)"

definition bearerAuth :: "('s, 'c, 'f) handler \<Rightarrow> ('s, 'c, 'f) handler" where
  "bearerAuth next A r h = (case bearerToken r of
     None \<Rightarrow> (fail A (errUnauthorized ''missing or invalid bearer token''), h)
   | Some tok \<Rightarrow>
       if \<not> tokenAllowed (auth_Tokens (op_Auth A)) tok
       then (fail A (errUnauthorized ''missing or invalid bearer token''), h)
       else next A r h)"

section \<open>Source allowlist\<close>

definition parseAllowlist :: "string list \<Rightarrow> IPNet list \<times> IP list" where
  "parseAllowlist entries =
     (List.map_filter (\<lambda>e. if Contains e ''/'' then ParseCIDR e else None) entries,
      List.map_filter (\<lambda>e. if Contains e ''/'' then None else ParseIP e) entries)"

definition ipMatches :: "IP \<Rightarrow> IPNet list \<Rightarrow> IP list \<Rightarrow> bool" where
  "ipMatches ip nets ips \<longleftrightarrow> (\<exists>n\<in>set nets. net_Contains n ip) \<or> (\<exists>a\<in>set ips. ip_Equal a ip)"

text \<open>The host part of \<open>net.SplitHostPort\<close>; \<open>None\<close> is an error.\<close>

definition last_index :: "char \<Rightarrow> string \<Rightarrow> nat option" where
  "last_index c s = (if c \<in> set s then Some (length s - 1 - length (takeWhile (\<lambda>x. x \<noteq> c) (rev s))) else None)"

definition first_index :: "char \<Rightarrow> string \<Rightarrow> nat option" where
  "first_index c s = (if c \<in> set s then Some (length (takeWhile (\<lambda>x. x \<noteq> c) s)) else None)"

definition SplitHost :: "string \<Rightarrow> string option" where
  "SplitHost hp = (case last_index (CHR '':'') hp of
     None \<Rightarrow> None
   | Some i \<Rightarrow>
       if hd hp = CHR ''['' then
         (case first_index (CHR '']'') hp of
            None \<Rightarrow> None
          | Some e \<Rightarrow>
              if Suc e \<noteq> i then None
              else if CHR ''['' \<in> set (drop 1 hp) \<or> CHR '']'' \<in> set (drop (Suc e) hp) then None
              else Some (drop 1 (take e hp)))
       else if CHR '':'' \<in> set (take i hp) \<or> CHR ''['' \<in> set hp \<or> CHR '']'' \<in> set hp then None
       else Some (take i hp))"

definition clientIP :: "Request \<Rightarrow> IP option" where
  "clientIP r = ParseIP (case SplitHost (rq_RemoteAddr r) of None \<Rightarrow> rq_RemoteAddr r | Some host \<Rightarrow> host)"

definition ipAllowlist :: "('s, 'c, 'f) handler \<Rightarrow> ('s, 'c, 'f) handler" where
  "ipAllowlist next A r h =
     (let entries = auth_IPAllowlist (op_Auth A); (nets, ips) = parseAllowlist entries
      in if entries = [] then next A r h
         else case clientIP r of
           None \<Rightarrow> (fail A (errForbidden ''source address not allowed''), h)
         | Some ip \<Rightarrow>
             if \<not> ipMatches ip nets ips then (fail A (errForbidden ''source address not allowed''), h)
             else next A r h)"

section \<open>Idempotency keys\<close>

definition idempotencyTTL :: duration where "idempotencyTTL = 24 * hour"
definition maxIdempotentBody :: nat where "maxIdempotentBody = 1048576"
definition staleClaimWindow :: duration where "staleClaimWindow = 15 * minute"

definition hash_input :: "string \<Rightarrow> string \<Rightarrow> string \<Rightarrow> string" where
  "hash_input method path body = method @ [CHR 0x0A] @ path @ [CHR 0x0A] @ body"

definition hashRequest :: "(string \<Rightarrow> byte list) \<Rightarrow> string \<Rightarrow> string \<Rightarrow> string \<Rightarrow> string" where
  "hashRequest sha method path body = concat (map hex2 (sha (hash_input method path body)))"

text \<open>\<open>io.ReadAll(io.LimitReader(r.Body, maxIdempotentBody))\<close>.\<close>

definition read_body :: "Request \<Rightarrow> string option" where
  "read_body r = (if length (rq_Body r) < maxIdempotentBody \<and> rq_BodyErr r then None
     else Some (take maxIdempotentBody (rq_Body r)))"

definition replay :: "IdempotencyRecord \<Rightarrow> Response" where
  "replay rec = \<lparr>rs_Status = idr_StatusCode rec,
     rs_Header = [(''Content-Type'', ''application/json; charset=utf-8''), (''Idempotent-Replayed'', ''true'')],
     rs_Body = idr_Response rec\<rparr>"

definition in_progress :: APIError where
  "in_progress = errConflict ''a request with this Idempotency-Key is already in progress''"

text \<open>The middleware in its parts: what the looked-up record means for the request (an answer, a free
  key, or a claim that was abandoned), the lookup with the removal of an abandoned claim
  (\<open>None\<close> goes on to the claim), the claim, and the recording of the response.\<close>

datatype verdict = Answer Response | FreeKey | Abandoned

definition idem_verdict :: "('s, 'c, 'f) Options \<Rightarrow> string \<Rightarrow> IdempotencyRecord res \<Rightarrow> ('s, 'c, 'f) world
    \<Rightarrow> verdict \<times> ('s, 'c, 'f) world" where
  "idem_verdict A hash got w = (case got of
     Inl e \<Rightarrow> (if errors_Is e ErrNotFound then FreeKey else Answer (writeError (op_fmt A) (OtherError e)), w)
   | Inr existing \<Rightarrow>
       if idr_RequestHash existing \<noteq> hash
       then (Answer (fail A (errConflict ''Idempotency-Key already used with a different request'')), w)
       else if idr_Response existing \<noteq> [] then (Answer (replay existing), w)
       else case time_Now w of (now, w1) \<Rightarrow>
         (if now - idr_CreatedAt existing \<le> staleClaimWindow then Answer (fail A in_progress) else Abandoned, w1))"

definition idem_check :: "('s, 'c, 'f) Options \<Rightarrow> string \<Rightarrow> string \<Rightarrow> ('s, 'c, 'f) world
    \<Rightarrow> Response option \<times> ('s, 'c, 'f) world" where
  "idem_check A key hash w = (case st_GetIdempotency (op_VMService A) key w of (got, w1) \<Rightarrow>
     (case idem_verdict A hash got w1 of
        (Answer resp, w2) \<Rightarrow> (Some resp, w2)
      | (FreeKey, w2) \<Rightarrow> (None, w2)
      | (Abandoned, w2) \<Rightarrow> (None, ignore_err (st_DeleteIdempotency (op_VMService A) key w2))))"

definition claim_record :: "string \<Rightarrow> string \<Rightarrow> time \<Rightarrow> IdempotencyRecord" where
  "claim_record key hash now = \<lparr>idr_Key = key, idr_JobID = [], idr_RequestHash = hash, idr_Response = [],
     idr_StatusCode = 0, idr_CreatedAt = time_zero, idr_ExpiresAt = now + idempotencyTTL\<rparr>"

definition idem_claim :: "('s, 'c, 'f) Options \<Rightarrow> string \<Rightarrow> string \<Rightarrow> ('s, 'c, 'f) world
    \<Rightarrow> (Response + IdempotencyRecord) \<times> ('s, 'c, 'f) world" where
  "idem_claim A key hash w = (case time_Now w of (now, w1) \<Rightarrow>
     (case st_PutIdempotency (op_VMService A) (claim_record key hash now) w1 of
        (Inl e, w2) \<Rightarrow> (Inl (if errors_Is e ErrConflict then fail A in_progress
                          else writeError (op_fmt A) (OtherError e)), w2)
      | (Inr rec, w2) \<Rightarrow> (Inr rec, w2)))"

text \<open>The writer a handler is given below the middleware: it keeps what it passes on. Of \<open>net/http\<close>'s own
  writer, the status of the first \<open>WriteHeader\<close> counts, and a \<open>Write\<close> without one sends 200.\<close>

record http_writer =
  hw_status :: "int option"
  hw_body :: string

definition http_WriteHeader :: "int \<Rightarrow> http_writer \<Rightarrow> http_writer" where
  "http_WriteHeader code c = (if hw_status c = None then c\<lparr>hw_status := Some code\<rparr> else c)"

definition http_Write :: "string \<Rightarrow> http_writer \<Rightarrow> http_writer" where
  "http_Write b c = (let c1 = http_WriteHeader 200 c in c1\<lparr>hw_body := hw_body c1 @ b\<rparr>)"

record responseCapture =
  rc_ResponseWriter :: http_writer
  rc_status :: int
  rc_body :: string
  rc_wroteHeader :: bool

definition new_capture :: responseCapture where
  "new_capture = \<lparr>rc_ResponseWriter = \<lparr>hw_status = None, hw_body = []\<rparr>, rc_status = 200, rc_body = [], rc_wroteHeader = False\<rparr>"

definition capture_WriteHeader :: "int \<Rightarrow> responseCapture \<Rightarrow> responseCapture" where
  "capture_WriteHeader code c = (if rc_wroteHeader c then c
     else c\<lparr>rc_status := code, rc_wroteHeader := True, rc_ResponseWriter := http_WriteHeader code (rc_ResponseWriter c)\<rparr>)"

definition capture_Write :: "string \<Rightarrow> responseCapture \<Rightarrow> responseCapture" where
  "capture_Write b c = (let c1 = (if rc_wroteHeader c then c else capture_WriteHeader 200 c)
     in c1\<lparr>rc_body := rc_body c1 @ b, rc_ResponseWriter := http_Write b (rc_ResponseWriter c1)\<rparr>)"

text \<open>A response is written with one call of each.\<close>

definition captured :: "Response \<Rightarrow> responseCapture" where
  "captured resp = capture_Write (rs_Body resp) (capture_WriteHeader (rs_Status resp) new_capture)"

lemma captured_simps [simp]: "rc_body (captured resp) = rs_Body resp" "rc_status (captured resp) = rs_Status resp"
  by (simp_all add: captured_def capture_Write_def capture_WriteHeader_def new_capture_def Let_def)

definition idem_finish :: "('s, 'c, 'f) Options \<Rightarrow> IdempotencyRecord \<Rightarrow> Response \<Rightarrow> ('s, 'c, 'f) world
    \<Rightarrow> ('s, 'c, 'f) world" where
  "idem_finish A rec resp w = ignore_err (st_UpdateIdempotency (op_VMService A)
     (rec\<lparr>idr_Response := rc_body (captured resp), idr_StatusCode := rc_status (captured resp)\<rparr>) w)"

definition idempotency :: "('s, 'c, 'f) handler \<Rightarrow> ('s, 'c, 'f) handler" where
  "idempotency next A r h =
     (let key = rq_Header r ''Idempotency-Key''
      in if key = [] then (fail A (errBadRequest ''Idempotency-Key header is required''), h)
         else case read_body r of
           None \<Rightarrow> (fail A (errBadRequest ''could not read request body''), h)
         | Some body \<Rightarrow>
             let hash = hashRequest (op_sha256 A) (rq_Method r) (rq_Path r) body
             in case on_world (idem_check A key hash) h of
                  (Some resp, h1) \<Rightarrow> (resp, h1)
                | (None, h1) \<Rightarrow> (case on_world (idem_claim A key hash) h1 of
                    (Inl resp, h2) \<Rightarrow> (resp, h2)
                  | (Inr rec, h2) \<Rightarrow> (case next A (r\<lparr>rq_Body := body, rq_BodyErr := False\<rparr>) h2 of
                      (resp, h3) \<Rightarrow> (resp, h3\<lparr>hs_world := idem_finish A rec resp (hs_world h3)\<rparr>))))"

section \<open>What is sent\<close>

fun JobType_text :: "JobType \<Rightarrow> string" where
  "JobType_text JobCreate = ''create''"
| "JobType_text JobStart = ''start''"
| "JobType_text JobShutdown = ''shutdown''"
| "JobType_text JobReboot = ''reboot''"
| "JobType_text JobStop = ''stop''"
| "JobType_text JobSuspend = ''suspend''"
| "JobType_text JobUnsuspend = ''unsuspend''"
| "JobType_text JobPassword = ''password''"
| "JobType_text JobHostname = ''hostname''"
| "JobType_text JobRebuild = ''rebuild''"
| "JobType_text JobResize = ''resize''"
| "JobType_text JobSnapshotCreate = ''snapshot_create''"
| "JobType_text JobSnapshotDelete = ''snapshot_delete''"
| "JobType_text JobSnapshotRevert = ''snapshot_revert''"
| "JobType_text JobNetBlock = ''net_block''"
| "JobType_text JobNetUnblock = ''net_unblock''"
| "JobType_text JobTrafficReset = ''traffic_reset''"
| "JobType_text JobTerminate = ''terminate''"
| "JobType_text (JobTypeOther t) = t"

fun JobState_text :: "JobState \<Rightarrow> string" where
  "JobState_text JobQueued = ''queued''"
| "JobState_text JobRunning = ''running''"
| "JobState_text JobSucceeded = ''succeeded''"
| "JobState_text JobFailed = ''failed''"

text \<open>The JSON of the structs, by their tags: a field tagged \<open>-\<close> is left out. Keys of a map are
  sorted.\<close>

definition vm_json :: "VM \<Rightarrow> json" where
  "vm_json v = JObj ([
     (''id'', JStr (vm_ID v)), (''domain_name'', JStr (vm_DomainName v)), (''domain_uuid'', JStr (vm_DomainUUID v)),
     (''hostname'', JStr (vm_Hostname v)), (''flavor_id'', JStr (vm_FlavorID v)), (''image_id'', JStr (vm_ImageID v)),
     (''vcpus'', JInt (vm_VCPUs v)), (''memory_mb'', JInt (vm_MemoryMB v)), (''disk_gb'', JInt (vm_DiskGB v)),
     (''network_id'', JStr (vm_NetworkID v)), (''network_mode'', JStr (vm_NetworkMode v)),
     (''mac'', JStr (vm_MAC v)), (''ip'', JStr (vm_IP v))] @
     omit_str ''gateway'' (vm_Gateway v) @ omit_str ''netmask'' (vm_Netmask v) @ [
     (''status'', JStr (VMStatus_text (vm_Status v))), (''power_state'', JStr (PowerState_text (vm_PowerState v)))] @
     (if vm_SSHKeys v = [] then [] else [(''ssh_keys'', JArr (map JStr (vm_SSHKeys v)))]) @ [
     (''traffic_quota_bytes'', JUint (vm_TrafficQuotaBytes v)), (''traffic_used_bytes'', JUint (vm_TrafficUsedBytes v)),
     (''traffic_period_start'', JTime (vm_TrafficPeriodStart v)), (''network_blocked'', JBool (vm_NetworkBlocked v))] @
     omit_str ''network_block_reason'' (vm_NetworkBlockReason v) @ [
     (''created_at'', JTime (vm_CreatedAt v)), (''updated_at'', JTime (vm_UpdatedAt v))])"

definition job_json :: "Job \<Rightarrow> json" where
  "job_json j = JObj ([(''id'', JStr (job_ID j)), (''type'', JStr (JobType_text (job_Type j)))] @
     omit_str ''vm_id'' (job_VMID j) @ [(''state'', JStr (JobState_text (job_State j)))] @
     omit_str ''error'' (job_Error j) @ [(''attempts'', JInt (job_Attempts j)), (''created_at'', JTime (job_CreatedAt j))] @
     omit_time ''started_at'' (job_StartedAt j) @ omit_time ''finished_at'' (job_FinishedAt j))"

definition acceptedJob :: "Job \<Rightarrow> json" where
  "acceptedJob j = JObj [(''job_id'', JStr (job_ID j)), (''status'', JStr (JobState_text (job_State j))),
     (''vm_id'', JStr (job_VMID j))]"

definition status_json :: "StatusInfo \<Rightarrow> json" where
  "status_json s = JObj [(''id'', JStr (si_ID s)), (''status'', JStr (VMStatus_text (si_Status s))),
     (''power_state'', JStr (PowerState_text (si_PowerState s)))]"

definition stats_json :: "StatsInfo \<Rightarrow> json" where
  "stats_json s = JObj [(''id'', JStr (sti_ID s)), (''power_state'', JStr (PowerState_text (sti_PowerState s))),
     (''cpu_time_ns'', JUint (sti_CPUTimeNs s)), (''cpu_percent'', JFloat (sti_CPUPercent s)),
     (''mem_balloon_kib'', JUint (sti_MemBalloonKiB s)), (''mem_rss_kib'', JUint (sti_MemRSSKiB s)),
     (''net_rx_bytes'', JUint (sti_NetRxBytes s)), (''net_tx_bytes'', JUint (sti_NetTxBytes s)),
     (''net_rx_bps'', JFloat (sti_NetRxBps s)), (''net_tx_bps'', JFloat (sti_NetTxBps s)),
     (''block_rd_bytes'', JUint (sti_BlockRdBytes s)), (''block_wr_bytes'', JUint (sti_BlockWrBytes s)),
     (''block_rd_bps'', JFloat (sti_BlockRdBps s)), (''block_wr_bps'', JFloat (sti_BlockWrBps s)),
     (''block_allocation_bytes'', JUint (sti_BlockAllocationBytes s)),
     (''block_capacity_bytes'', JUint (sti_BlockCapacityBytes s)), (''interval_seconds'', JFloat (sti_IntervalSeconds s))]"

definition traffic_json :: "TrafficInfo \<Rightarrow> json" where
  "traffic_json t = JObj ([(''id'', JStr (ti_ID t)), (''quota_bytes'', JUint (ti_QuotaBytes t)),
     (''used_bytes'', JUint (ti_UsedBytes t)), (''unlimited'', JBool (ti_Unlimited t)), (''percent'', JFloat (ti_Percent t)),
     (''period_start'', JTime (ti_PeriodStart t)), (''blocked'', JBool (ti_Blocked t))] @
     omit_str ''block_reason'' (ti_BlockReason t))"

definition host_json :: "HostReport \<Rightarrow> json" where
  "host_json r = JObj [(''hostname'', JStr (hr_Hostname r)), (''libvirt_version'', JStr (hr_LibvirtVersion r)),
     (''cpu_cores'', JInt (hr_CPUCores r)), (''committed_vcpus'', JInt (hr_CommittedVCPUs r)),
     (''memory_total_mb'', JUint (hr_MemoryTotalMB r)), (''memory_free_mb'', JUint (hr_MemoryFreeMB r)),
     (''committed_memory_mb'', JUint (hr_CommittedMemMB r)), (''storage_total_gb'', JUint (hr_StorageTotalGB r)),
     (''storage_free_gb'', JUint (hr_StorageFreeGB r)), (''committed_disk_gb'', JUint (hr_CommittedDiskGB r)),
     (''vm_count'', JInt (hr_VMCount r)), (''running_count'', JInt (hr_RunningCount r))]"

definition snapshot_json :: "SnapshotInfo \<Rightarrow> json" where
  "snapshot_json s = JObj ([(''name'', JStr (sn_Name s))] @ omit_str ''state'' (sn_State s) @
     [(''creation_time'', JTime (sn_CreationTime s)), (''current'', JBool (sn_Current s))])"

definition flavor_json :: "Flavor \<Rightarrow> json" where
  "flavor_json f = JObj ([(''id'', JStr (fl_ID f)), (''name'', JStr (fl_Name f)), (''vcpus'', JInt (fl_VCPUs f)),
     (''memory_mb'', JInt (fl_MemoryMB f)), (''disk_gb'', JInt (fl_DiskGB f))] @
     omit_int ''bandwidth_mbps'' (fl_BandwidthMbps f) @ omit_int ''traffic_quota_gb'' (fl_TrafficQuotaGB f))"

definition image_json :: "Image \<Rightarrow> json" where
  "image_json i = JObj [(''id'', JStr (img_ID i)), (''name'', JStr (img_Name i)), (''os_variant'', JStr (img_OSVariant i)),
     (''default_user'', JStr (img_DefaultUser i))]"

section \<open>What is received\<close>

text \<open>\<open>json.NewDecoder(http.MaxBytesReader(w, r.Body, maxIdempotentBody))\<close>: a body that is cut off ends in
  an error, not in \<open>io.EOF\<close>.\<close>

definition body_Decode :: "Request \<Rightarrow> decoded" where
  "body_Decode r = (case Decode (take maxIdempotentBody (rq_Body r)) of
     DecEOF \<Rightarrow> if rq_BodyErr r \<or> length (rq_Body r) > maxIdempotentBody then DecError else DecEOF
   | d \<Rightarrow> d)"

definition str_of :: "string \<Rightarrow> (string \<times> json) list \<Rightarrow> string option" where
  "str_of name kvs = field dec_str name [] kvs"

definition dec_NetworkRequest :: "NetworkRequest \<Rightarrow> json \<Rightarrow> NetworkRequest option" where
  "dec_NetworkRequest acc j = (case members j of
     None \<Rightarrow> None
   | Some kvs \<Rightarrow> (case (field dec_str ''network_id'' (nr_NetworkID acc) kvs, field dec_str ''mode'' (nr_Mode acc) kvs) of
       (Some i, Some m) \<Rightarrow> Some \<lparr>nr_NetworkID = i, nr_Mode = m\<rparr>
     | _ \<Rightarrow> None))"

definition dec_CreateRequest :: "json \<Rightarrow> CreateRequest option" where
  "dec_CreateRequest j = (case members j of
     None \<Rightarrow> None
   | Some kvs \<Rightarrow>
       (case (str_of ''flavor_id'' kvs, str_of ''image_id'' kvs, str_of ''hostname'' kvs, str_of ''password'' kvs,
              field dec_strs ''ssh_keys'' None kvs,
              field dec_NetworkRequest ''network'' \<lparr>nr_NetworkID = [], nr_Mode = []\<rparr> kvs,
              field dec_int_ptr ''traffic_quota_gb'' None kvs) of
          (Some f, Some i, Some h, Some p, Some ks, Some n, Some q) \<Rightarrow>
            Some \<lparr>cr_FlavorID = f, cr_ImageID = i, cr_Hostname = h, cr_Password = p,
              cr_SSHKeys = (case ks of None \<Rightarrow> [] | Some l \<Rightarrow> l), cr_Network = n, cr_TrafficQuotaGB = q\<rparr>
        | _ \<Rightarrow> None))"

definition dec_RebuildRequest :: "json \<Rightarrow> RebuildRequest option" where
  "dec_RebuildRequest j = (case members j of
     None \<Rightarrow> None
   | Some kvs \<Rightarrow>
       (case (str_of ''image_id'' kvs, str_of ''password'' kvs, field dec_strs ''ssh_keys'' None kvs) of
          (Some i, Some p, Some ks) \<Rightarrow> Some \<lparr>rr_ImageID = i, rr_Password = p, rr_SSHKeys = ks\<rparr>
        | _ \<Rightarrow> None))"

definition dec_snapshot :: "json \<Rightarrow> (string \<times> string) option" where
  "dec_snapshot j = (case members j of
     None \<Rightarrow> None
   | Some kvs \<Rightarrow> (case (str_of ''name'' kvs, str_of ''description'' kvs) of
       (Some n, Some d) \<Rightarrow> Some (n, d) | _ \<Rightarrow> None))"

text \<open>A handler that needs a JSON body: \<open>400\<close> without one; \<open>absent\<close> is what an absent body stands for,
  where the handler lets \<open>io.EOF\<close> pass.\<close>

definition with_body :: "(json \<Rightarrow> 'a option) \<Rightarrow> 'a option \<Rightarrow> ('a \<Rightarrow> ('s, 'c, 'f) world \<Rightarrow> Response \<times> ('s, 'c, 'f) world)
    \<Rightarrow> ('s, 'c, 'f) Options \<Rightarrow> Request \<Rightarrow> ('s, 'c, 'f) world \<Rightarrow> Response \<times> ('s, 'c, 'f) world" where
  "with_body dec absent f A r w =
     (case (case body_Decode r of DecEOF \<Rightarrow> absent | DecError \<Rightarrow> None | DecValue j \<Rightarrow> dec j) of
        None \<Rightarrow> (fail A (errBadRequest ''invalid JSON body''), w)
      | Some req \<Rightarrow> f req w)"

section \<open>Handlers\<close>

text \<open>The two endings: an enqueued job is answered with 202, a value with 200; an error is mapped.\<close>

definition reply_job :: "('s, 'c, 'f) Options \<Rightarrow> Job res \<times> ('s, 'c, 'f) world \<Rightarrow> Response \<times> ('s, 'c, 'f) world" where
  "reply_job A p = (case p of
     (Inl e, w) \<Rightarrow> (fail A (mapVMError e), w)
   | (Inr j, w) \<Rightarrow> (writeJSON (op_fmt A) [(''Location'', ''/v1/jobs/'' @ job_ID j)] 202 (acceptedJob j), w))"

definition reply_value :: "('s, 'c, 'f) Options \<Rightarrow> ('a \<Rightarrow> json) \<Rightarrow> 'a res \<times> ('s, 'c, 'f) world
    \<Rightarrow> Response \<times> ('s, 'c, 'f) world" where
  "reply_value A enc p = (case p of
     (Inl e, w) \<Rightarrow> (fail A (mapVMError e), w)
   | (Inr x, w) \<Rightarrow> (writeJSON (op_fmt A) [] 200 (enc x), w))"

definition atoiOr :: "string \<Rightarrow> int \<Rightarrow> int" where
  "atoiOr s d = (if s = [] then d else case Atoi s of None \<Rightarrow> d | Some n \<Rightarrow> n)"

definition h_list :: "('s, 'c, 'f) Options \<Rightarrow> Request \<Rightarrow> ('s, 'c, 'f) world \<Rightarrow> Response \<times> ('s, 'c, 'f) world" where
  "h_list A r w = reply_value A (\<lambda>res. JObj [(''limit'', JInt (lr_Limit res)), (''offset'', JInt (lr_Offset res)),
       (''total'', JInt (lr_Total res)), (''vms'', JArr (map vm_json (lr_VMs res)))])
     (List (op_VMService A) \<lparr>lo_Limit = atoiOr (rq_Query r ''limit'') 0, lo_Offset = atoiOr (rq_Query r ''offset'') 0,
        lo_Status = rq_Query r ''status'', lo_NetworkID = rq_Query r ''network_id''\<rparr> w)"

definition h_get :: "('s, 'c, 'f) Options \<Rightarrow> Request \<Rightarrow> ('s, 'c, 'f) world \<Rightarrow> Response \<times> ('s, 'c, 'f) world" where
  "h_get A r w = reply_value A vm_json (Get (op_VMService A) (rq_Param r ''id'') w)"

definition h_status :: "('s, 'c, 'f) Options \<Rightarrow> Request \<Rightarrow> ('s, 'c, 'f) world \<Rightarrow> Response \<times> ('s, 'c, 'f) world" where
  "h_status A r w = reply_value A status_json (Status (op_VMService A) (rq_Param r ''id'') w)"

definition h_stats :: "('s, 'c, 'f) Options \<Rightarrow> Request \<Rightarrow> ('s, 'c, 'f) world \<Rightarrow> Response \<times> ('s, 'c, 'f) world" where
  "h_stats A r w = reply_value A stats_json (Stats (op_VMService A) (rq_Param r ''id'') w)"

definition h_password :: "('s, 'c, 'f) Options \<Rightarrow> Request \<Rightarrow> ('s, 'c, 'f) world \<Rightarrow> Response \<times> ('s, 'c, 'f) world" where
  "h_password A r w = with_body (\<lambda>j. Option.bind (members j) (str_of ''password'')) None
     (\<lambda>pw w. reply_job A (PasswordReset (op_VMService A) (rq_Param r ''id'') pw w)) A r w"

definition h_hostname :: "('s, 'c, 'f) Options \<Rightarrow> Request \<Rightarrow> ('s, 'c, 'f) world \<Rightarrow> Response \<times> ('s, 'c, 'f) world" where
  "h_hostname A r w = with_body (\<lambda>j. Option.bind (members j) (str_of ''hostname'')) None
     (\<lambda>hn w. reply_job A (SetHostname (op_VMService A) (rq_Param r ''id'') hn w)) A r w"

definition h_resize :: "('s, 'c, 'f) Options \<Rightarrow> Request \<Rightarrow> ('s, 'c, 'f) world \<Rightarrow> Response \<times> ('s, 'c, 'f) world" where
  "h_resize A r w = with_body (\<lambda>j. Option.bind (members j) (str_of ''flavor_id'')) None
     (\<lambda>f w. reply_job A (Resize (op_VMService A) (rq_Param r ''id'') \<lparr>rz_FlavorID = f\<rparr> w)) A r w"

definition h_host :: "('s, 'c, 'f) Options \<Rightarrow> Request \<Rightarrow> ('s, 'c, 'f) world \<Rightarrow> Response \<times> ('s, 'c, 'f) world" where
  "h_host A r w = reply_value A host_json (Service_HostReport (op_VMService A) w)"

definition h_traffic :: "('s, 'c, 'f) Options \<Rightarrow> Request \<Rightarrow> ('s, 'c, 'f) world \<Rightarrow> Response \<times> ('s, 'c, 'f) world" where
  "h_traffic A r w = reply_value A traffic_json (TrafficUsage (op_VMService A) (rq_Param r ''id'') w)"

definition h_setTrafficQuota :: "('s, 'c, 'f) Options \<Rightarrow> Request \<Rightarrow> ('s, 'c, 'f) world \<Rightarrow> Response \<times> ('s, 'c, 'f) world" where
  "h_setTrafficQuota A r w = with_body (\<lambda>j. Option.bind (members j) (field dec_int ''quota_gb'' 0)) None
     (\<lambda>q w. reply_value A traffic_json (SetTrafficQuota (op_VMService A) (rq_Param r ''id'') q w)) A r w"

definition h_listSnapshots :: "('s, 'c, 'f) Options \<Rightarrow> Request \<Rightarrow> ('s, 'c, 'f) world \<Rightarrow> Response \<times> ('s, 'c, 'f) world" where
  "h_listSnapshots A r w = reply_value A (\<lambda>ss. JObj [(''snapshots'', JArr (map snapshot_json ss))])
     (SnapshotList (op_VMService A) (rq_Param r ''id'') w)"

definition h_createSnapshot :: "('s, 'c, 'f) Options \<Rightarrow> Request \<Rightarrow> ('s, 'c, 'f) world \<Rightarrow> Response \<times> ('s, 'c, 'f) world" where
  "h_createSnapshot A r w = with_body dec_snapshot (Some ([], []))
     (\<lambda>(n, d) w. reply_job A (SnapshotCreate (op_VMService A) (rq_Param r ''id'') n d w)) A r w"

definition h_deleteSnapshot :: "('s, 'c, 'f) Options \<Rightarrow> Request \<Rightarrow> ('s, 'c, 'f) world \<Rightarrow> Response \<times> ('s, 'c, 'f) world" where
  "h_deleteSnapshot A r w = reply_job A (SnapshotDelete (op_VMService A) (rq_Param r ''id'') (rq_Param r ''snap'') w)"

definition h_revertSnapshot :: "('s, 'c, 'f) Options \<Rightarrow> Request \<Rightarrow> ('s, 'c, 'f) world \<Rightarrow> Response \<times> ('s, 'c, 'f) world" where
  "h_revertSnapshot A r w = reply_job A (SnapshotRevert (op_VMService A) (rq_Param r ''id'') (rq_Param r ''snap'') w)"

definition h_rebuild :: "('s, 'c, 'f) Options \<Rightarrow> Request \<Rightarrow> ('s, 'c, 'f) world \<Rightarrow> Response \<times> ('s, 'c, 'f) world" where
  "h_rebuild A r w = with_body dec_RebuildRequest (Some \<lparr>rr_ImageID = [], rr_Password = [], rr_SSHKeys = None\<rparr>)
     (\<lambda>req w. reply_job A (Rebuild (op_VMService A) (rq_Param r ''id'') req w)) A r w"

definition h_terminate :: "('s, 'c, 'f) Options \<Rightarrow> Request \<Rightarrow> ('s, 'c, 'f) world \<Rightarrow> Response \<times> ('s, 'c, 'f) world" where
  "h_terminate A r w = reply_job A (Terminate (op_VMService A) (rq_Param r ''id'') w)"

definition h_create :: "('s, 'c, 'f) Options \<Rightarrow> Request \<Rightarrow> ('s, 'c, 'f) world \<Rightarrow> Response \<times> ('s, 'c, 'f) world" where
  "h_create A r w = with_body dec_CreateRequest None (\<lambda>req w. reply_job A (Create (op_VMService A) req w)) A r w"

definition powerOp :: "(('s, 'c, 'f) Service \<Rightarrow> string \<Rightarrow> ('s, 'c, 'f) world \<Rightarrow> Job res \<times> ('s, 'c, 'f) world)
    \<Rightarrow> ('s, 'c, 'f) Options \<Rightarrow> Request \<Rightarrow> ('s, 'c, 'f) world \<Rightarrow> Response \<times> ('s, 'c, 'f) world" where
  "powerOp op A r w = reply_job A (op (op_VMService A) (rq_Param r ''id'') w)"

definition jobs_get :: "('s, 'c, 'f) Options \<Rightarrow> Request \<Rightarrow> ('s, 'c, 'f) world \<Rightarrow> Response \<times> ('s, 'c, 'f) world" where
  "jobs_get A r w = (case st_GetJob (op_VMService A) (rq_Param r ''id'') w of
     (Inl e, w1) \<Rightarrow> (if errors_Is e ErrNotFound then fail A (errNotFound ''job not found'')
                     else writeError (op_fmt A) (OtherError e), w1)
   | (Inr j, w1) \<Rightarrow> (writeJSON (op_fmt A) [] 200 (job_json j), w1))"

definition listFlavors :: "('s, 'c, 'f) Options \<Rightarrow> Response" where
  "listFlavors A = writeJSON (op_fmt A) [] 200 (JObj [(''flavors'', JArr (map flavor_json (cat_flavors (op_Catalog A))))])"

definition listImages :: "('s, 'c, 'f) Options \<Rightarrow> Response" where
  "listImages A = writeJSON (op_fmt A) [] 200 (JObj [(''images'', JArr (map image_json (cat_images (op_Catalog A))))])"

definition handleLive :: "('s, 'c, 'f) Options \<Rightarrow> Response" where
  "handleLive A = writeJSON (op_fmt A) [] 200 (JObj [(''status'', JStr ''ok'')])"

definition handleReady :: "('s, 'c, 'f) Options \<Rightarrow> ('s, 'c, 'f) world \<Rightarrow> Response \<times> ('s, 'c, 'f) world" where
  "handleReady A w =
     (let ready = writeJSON (op_fmt A) [] 200 (JObj [(''status'', JStr ''ready'')])
      in case op_Ready A of
           None \<Rightarrow> (ready, w)
         | Some f \<Rightarrow> (case f w of
             (Inl e, w1) \<Rightarrow> (writeJSON (op_fmt A) [] 503
                (JObj [(''error'', JStr (err_text e)), (''status'', JStr ''unavailable'')]), w1)
           | (Inr _, w1) \<Rightarrow> (ready, w1)))"

definition version_reply :: "('s, 'c, 'f) Options \<Rightarrow> Response" where
  "version_reply A = writeJSON (op_fmt A) [] 200
     (JObj [(''api_version'', JStr ''v1''), (''version'', JStr (op_Version A))])"

subsection \<open>Consoles\<close>

definition consoleTokenTTL :: duration where "consoleTokenTTL = 60 * second"

definition console_request :: "('s, 'c, 'f) handler" where
  "console_request A r h = (case ConsoleEndpoint (op_VMService A) (rq_Param r ''id'') (hs_world h) of
     (Inl e, w1) \<Rightarrow> (fail A (mapVMError e), h\<lparr>hs_world := w1\<rparr>)
   | (Inr (host, port), w1) \<Rightarrow> (case Mint (rq_Param r ''id'') host port (hs_tokens h) w1 of
       (Inl e, ts, w2) \<Rightarrow> (fail A (errInternal ''could not mint console token''), \<lparr>hs_world = w2, hs_tokens = ts\<rparr>)
     | (Inr (token, ticket), ts, w2) \<Rightarrow>
         (writeJSON (op_fmt A) [] 200 (JObj [(''expires_at'', JTime (tk_ExpiresAt ticket)), (''token'', JStr token),
            (''websocket_path'', JStr (''/console/ws/'' @ token))]), \<lparr>hs_world = w2, hs_tokens = ts\<rparr>)))"

text \<open>\<open>serveWS\<close> up to the connection: a response, or the address the browser's stream is joined to. The
  argument says whether the dial succeeds; the upgrade to a websocket and the copying of bytes
  that follow are the libraries'.\<close>

definition serveWS :: "bool \<Rightarrow> ('s, 'c, 'f) Options \<Rightarrow> Request \<Rightarrow> ('s, 'c, 'f) hstate
    \<Rightarrow> (Response + string \<times> int) \<times> ('s, 'c, 'f) hstate" where
  "serveWS reached A r h = (case Redeem (rq_Param r ''token'') (hs_tokens h) (hs_world h) of
     (None, ts, w) \<Rightarrow> (Inl (fail A (errForbidden ''invalid or expired console token'')), \<lparr>hs_world = w, hs_tokens = ts\<rparr>)
   | (Some ticket, ts, w) \<Rightarrow>
       (if \<not> reached then Inl (fail A (errInternal ''could not reach VM console''))
        else Inr (tk_Host ticket, tk_Port ticket), \<lparr>hs_world = w, hs_tokens = ts\<rparr>))"

section \<open>Routing\<close>

datatype route =
    Healthz | Readyz | Version
  | HostRoute | Flavors | Images | JobRoute
  | VMList | VMGet | VMStatusRoute | VMStats | VMSnapshots | VMTraffic | VMSetTraffic | VMConsole
  | VMCreate | VMTerminate | VMStart | VMShutdown | VMReboot | VMStop | VMSuspend | VMUnsuspend
  | VMPassword | VMHostname | VMRebuild | VMResize | VMSnapshotCreate | VMSnapshotDelete
  | VMSnapshotRevert | VMTrafficReset | VMTrafficBlock | VMTrafficUnblock

text \<open>The routes below \<open>/v1\<close>, and those of them that mutate and need an idempotency key.\<close>

definition in_v1 :: "route \<Rightarrow> bool" where
  "in_v1 x \<longleftrightarrow> x \<notin> {Healthz, Readyz, Version}"

definition needs_key :: "route \<Rightarrow> bool" where
  "needs_key x \<longleftrightarrow> x \<in> {VMCreate, VMTerminate, VMStart, VMShutdown, VMReboot, VMStop, VMSuspend, VMUnsuspend,
     VMPassword, VMHostname, VMRebuild, VMResize, VMSnapshotCreate, VMSnapshotDelete, VMSnapshotRevert,
     VMTrafficReset, VMTrafficBlock, VMTrafficUnblock}"

text \<open>A route's handler without its middlewares.\<close>

fun endpoint :: "route \<Rightarrow> ('s, 'c, 'f) handler" where
  "endpoint Healthz A r h = (handleLive A, h)"
| "endpoint Readyz A r h = on_world (handleReady A) h"
| "endpoint Version A r h = (version_reply A, h)"
| "endpoint HostRoute A r h = on_world (h_host A r) h"
| "endpoint Flavors A r h = (listFlavors A, h)"
| "endpoint Images A r h = (listImages A, h)"
| "endpoint JobRoute A r h = on_world (jobs_get A r) h"
| "endpoint VMList A r h = on_world (h_list A r) h"
| "endpoint VMGet A r h = on_world (h_get A r) h"
| "endpoint VMStatusRoute A r h = on_world (h_status A r) h"
| "endpoint VMStats A r h = on_world (h_stats A r) h"
| "endpoint VMSnapshots A r h = on_world (h_listSnapshots A r) h"
| "endpoint VMTraffic A r h = on_world (h_traffic A r) h"
| "endpoint VMSetTraffic A r h = on_world (h_setTrafficQuota A r) h"
| "endpoint VMConsole A r h = console_request A r h"
| "endpoint VMCreate A r h = on_world (h_create A r) h"
| "endpoint VMTerminate A r h = on_world (h_terminate A r) h"
| "endpoint VMStart A r h = on_world (powerOp Start A r) h"
| "endpoint VMShutdown A r h = on_world (powerOp Shutdown A r) h"
| "endpoint VMReboot A r h = on_world (powerOp Reboot A r) h"
| "endpoint VMStop A r h = on_world (powerOp Stop A r) h"
| "endpoint VMSuspend A r h = on_world (powerOp Suspend A r) h"
| "endpoint VMUnsuspend A r h = on_world (powerOp Unsuspend A r) h"
| "endpoint VMPassword A r h = on_world (h_password A r) h"
| "endpoint VMHostname A r h = on_world (h_hostname A r) h"
| "endpoint VMRebuild A r h = on_world (h_rebuild A r) h"
| "endpoint VMResize A r h = on_world (h_resize A r) h"
| "endpoint VMSnapshotCreate A r h = on_world (h_createSnapshot A r) h"
| "endpoint VMSnapshotDelete A r h = on_world (h_deleteSnapshot A r) h"
| "endpoint VMSnapshotRevert A r h = on_world (h_revertSnapshot A r) h"
| "endpoint VMTrafficReset A r h = on_world (powerOp ResetTraffic A r) h"
| "endpoint VMTrafficBlock A r h = on_world (powerOp BlockNetwork A r) h"
| "endpoint VMTrafficUnblock A r h = on_world (powerOp UnblockNetwork A r) h"

text \<open>The table of \<open>NewRouter\<close>.\<close>

definition routes :: "(string \<times> string \<times> route) list" where
  "routes = [
     (''GET'', ''/healthz'', Healthz), (''GET'', ''/readyz'', Readyz), (''GET'', ''/version'', Version),
     (''GET'', ''/v1/host'', HostRoute), (''GET'', ''/v1/flavors'', Flavors), (''GET'', ''/v1/images'', Images),
     (''GET'', ''/v1/jobs/{id}'', JobRoute),
     (''GET'', ''/v1/vms/'', VMList), (''GET'', ''/v1/vms/{id}'', VMGet),
     (''GET'', ''/v1/vms/{id}/status'', VMStatusRoute), (''GET'', ''/v1/vms/{id}/stats'', VMStats),
     (''GET'', ''/v1/vms/{id}/snapshots'', VMSnapshots), (''GET'', ''/v1/vms/{id}/traffic'', VMTraffic),
     (''PUT'', ''/v1/vms/{id}/traffic'', VMSetTraffic), (''POST'', ''/v1/vms/{id}/console'', VMConsole),
     (''POST'', ''/v1/vms/'', VMCreate), (''DELETE'', ''/v1/vms/{id}'', VMTerminate),
     (''POST'', ''/v1/vms/{id}/start'', VMStart), (''POST'', ''/v1/vms/{id}/shutdown'', VMShutdown),
     (''POST'', ''/v1/vms/{id}/reboot'', VMReboot), (''POST'', ''/v1/vms/{id}/stop'', VMStop),
     (''POST'', ''/v1/vms/{id}/suspend'', VMSuspend), (''POST'', ''/v1/vms/{id}/unsuspend'', VMUnsuspend),
     (''POST'', ''/v1/vms/{id}/password'', VMPassword), (''POST'', ''/v1/vms/{id}/hostname'', VMHostname),
     (''POST'', ''/v1/vms/{id}/rebuild'', VMRebuild), (''POST'', ''/v1/vms/{id}/resize'', VMResize),
     (''POST'', ''/v1/vms/{id}/snapshots'', VMSnapshotCreate),
     (''DELETE'', ''/v1/vms/{id}/snapshots/{snap}'', VMSnapshotDelete),
     (''POST'', ''/v1/vms/{id}/snapshots/{snap}/revert'', VMSnapshotRevert),
     (''POST'', ''/v1/vms/{id}/traffic/reset'', VMTrafficReset),
     (''POST'', ''/v1/vms/{id}/traffic/block'', VMTrafficBlock),
     (''POST'', ''/v1/vms/{id}/traffic/unblock'', VMTrafficUnblock)]"

text \<open>A route with its middlewares, outermost first: allowlist, bearer token, idempotency key.\<close>

definition serve :: "route \<Rightarrow> ('s, 'c, 'f) handler" where
  "serve x = (let inner = (if needs_key x then idempotency (endpoint x) else endpoint x)
     in if in_v1 x then ipAllowlist (bearerAuth inner) else inner)"

text \<open>The router: the library decides whether a path matches a pattern and what the parameters are. The
  console's websocket (\<open>/console/ws/{token}\<close>) has its own definition, \<open>serveWS\<close>, because it may not
  end in a response; the recovery from panics is left out.\<close>

definition NewRouter :: "(string \<Rightarrow> string \<Rightarrow> (string \<Rightarrow> string) option) \<Rightarrow> ('s, 'c, 'f) Options \<Rightarrow> Request
    \<Rightarrow> ('s, 'c, 'f) hstate \<Rightarrow> (Response \<times> ('s, 'c, 'f) hstate) option" where
  "NewRouter chi A r h =
     map_option (\<lambda>(m, p, x). serve x A (case chi p (rq_Path r) of None \<Rightarrow> r | Some ps \<Rightarrow> r\<lparr>rq_Param := ps\<rparr>) h)
       (find (\<lambda>(m, p, x). m = rq_Method r \<and> chi p (rq_Path r) \<noteq> None) routes)"

definition redactPath :: "string \<Rightarrow> string" where
  "redactPath p = (let prefix = ''/console/ws/'' in if HasPrefix p prefix then prefix @ ''<redacted>'' else p)"

text \<open>The line \<open>requestLogger\<close> writes for a request and its response; the time it took and the request id
  come from the library.\<close>

record log_line =
  lg_method :: string
  lg_path :: string
  lg_status :: int
  lg_bytes :: nat
  lg_duration_ms :: int
  lg_request_id :: string
  lg_remote :: string

definition requestLogger :: "int \<Rightarrow> string \<Rightarrow> Request \<Rightarrow> Response \<Rightarrow> log_line" where
  "requestLogger ms reqID r resp = \<lparr>lg_method = rq_Method r, lg_path = redactPath (rq_Path r), lg_status = rs_Status resp,
     lg_bytes = length (rs_Body resp), lg_duration_ms = ms, lg_request_id = reqID, lg_remote = rq_RemoteAddr r\<rparr>"

end
