(* ===== verification/RequestFrame.thy ===== *)
theory RequestFrame
  imports Api VmRun
begin

text \<open>
  What a request may do to the world. A relation \<open>R w w'\<close> between the world a request starts in and
  the world it has reached is kept by a handler when it is kept by the few steps handlers are made
  of: reading the clock, calling the hypervisor, reading and writing VM records, adding a new job.
  The locale \<open>request_env\<close> states this interface; the rules compose it along the code's own structure,
  and every endpoint is checked once. Two relations meet it: leaving the idempotency table alone,
  and moving the queue only by its own steps.
\<close>

section \<open>The judgement\<close>

definition ends :: "(('s, 'c, 'f) world \<Rightarrow> ('s, 'c, 'f) world \<Rightarrow> bool) \<Rightarrow> ('s, 'c, 'f) world \<Rightarrow> 'a \<times> ('s, 'c, 'f) world \<Rightarrow> bool" where
  "ends R w p \<longleftrightarrow> R w (snd p)"

named_theorems request_rules \<open>the rules of the judgement, applied to a definition's text\<close>

lemma ends_return [request_rules]: "R w w1 \<Longrightarrow> ends R w (r, w1)"
  by (simp add: ends_def)

lemma ends_pair [request_rules]:
  assumes "ends R w m" "\<And>a w1. m = (a, w1) \<Longrightarrow> R w w1 \<Longrightarrow> ends R w (k a w1)"
  shows "ends R w (case m of (a, w1) \<Rightarrow> k a w1)"
  using assms by (auto simp: ends_def split: prod.splits)

lemma ends_split:
  "(\<And>a b. ends R w (k a b)) \<Longrightarrow> ends R w (case p of (a, b) \<Rightarrow> k a b)"
  "(\<And>a b. ends R w (f a b w1)) \<Longrightarrow> ends R w ((case p of (a, b) \<Rightarrow> f a b) w1)"
  by (cases p, simp)+

lemma ends_branch [request_rules]:
  "(b \<Longrightarrow> ends R w p) \<Longrightarrow> (\<not> b \<Longrightarrow> ends R w q) \<Longrightarrow> ends R w (if b then p else q)"
  "(\<And>x. ends R w (f x)) \<Longrightarrow> ends R w (Let a f)"
  "ends R w p \<Longrightarrow> (\<And>x. ends R w (f x)) \<Longrightarrow> ends R w (case o' of None \<Rightarrow> p | Some x \<Rightarrow> f x)"
  "(\<And>e. ends R w (g e)) \<Longrightarrow> (\<And>x. ends R w (f x)) \<Longrightarrow> ends R w (case r of Inl e \<Rightarrow> g e | Inr x \<Rightarrow> f x)"
  by (auto split: option.splits sum.splits)

lemma ends_reply [request_rules]:
  "ends R w p \<Longrightarrow> ends R w (reply_job A p)"
  "ends R w p' \<Longrightarrow> ends R w (reply_value A enc p')"
  "(\<And>x. ends R w (f x w1)) \<Longrightarrow> R w w1 \<Longrightarrow> ends R w (with_body dec ab f A r w1)"
  by (auto simp: reply_job_def reply_value_def with_body_def ends_def split: prod.splits sum.splits option.splits)

lemma ends_ignore: "ends R w p \<Longrightarrow> R w (ignore_err p)"
  by (simp add: ends_def ignore_err_def)

text \<open>The readiness check is a call of the hypervisor, as \<open>conn.Ping\<close> is.\<close>

definition ready_on_conn :: "('s, 'c, 'f) Options \<Rightarrow> bool" where
  "ready_on_conn A \<longleftrightarrow> (\<forall>f. op_Ready A = Some f \<longrightarrow> (\<exists>g. f = on_conn g))"

section \<open>The steps of a request\<close>

locale request_env =
  fixes S :: "('s, 'c, 'f) Service" and R :: "('s, 'c, 'f) world \<Rightarrow> ('s, 'c, 'f) world \<Rightarrow> bool"
  assumes local_step: "R w w1 \<Longrightarrow> w_store w2 = w_store w1 \<Longrightarrow> w_sched w2 = w_sched w1 \<Longrightarrow> w_timers w2 = w_timers w1 \<Longrightarrow> R w w2"
    and reads: "R w w1 \<Longrightarrow> ends R w (st_GetVM S i w1)" "R w w1 \<Longrightarrow> ends R w (st_ListVMs S w1)" "R w w1 \<Longrightarrow> ends R w (st_GetJob S i w1)"
    and writes: "R w w1 \<Longrightarrow> ends R w (st_CreateVM S v w1)" "R w w1 \<Longrightarrow> ends R w (st_UpdateVM S v w1)"
    and enqueues: "R w w1 \<Longrightarrow> job_Attempts j = 0 \<Longrightarrow> ends R w (Enqueue S j w1)"
begin

lemma ends_local [request_rules]:
  assumes "R w w1"
  shows "ends R w (on_conn f w1)" "ends R w (time_Now w1)" "ends R w (uuid_NewString w1)" "ends R w (rand_Read n w1)"
    "R w (w1\<lparr>w_lastStats := m\<rparr>)" "R w (w1\<lparr>w_trafficLast := m'\<rparr>)"
  using local_step [OF assms]
  by (simp_all add: ends_def on_conn_def time_Now_def uuid_NewString_def rand_Read_def split: prod.splits)

lemma time_step: "time_Now w1 = (t, w2) \<Longrightarrow> R w w1 \<Longrightarrow> R w w2"
  using ends_local(2) by (fastforce simp: ends_def)

lemmas step_rules = request_rules reads writes

lemma ends_job_New:
  assumes "R w w1" "\<And>j w2. job_Attempts j = 0 \<Longrightarrow> R w w2 \<Longrightarrow> ends R w (k j w2)"
  shows "ends R w (case job_New typ i [] w1 of (j, w2) \<Rightarrow> k j w2)"
  using assms ends_local(3) [OF assms(1)] by (auto simp: job_New_def ends_def split: prod.splits)

lemma ends_enqueue: "R w w1 \<Longrightarrow> ends R w (enqueue_new S typ i w1)" "R w w1 \<Longrightarrow> ends R w (enqueueSnapshotJob S i typ pl w1)"
  unfolding enqueue_new_def enqueueSnapshotJob_def by (rule ends_job_New enqueues | assumption | simp)+

lemma ends_conn_state: "R w w1 \<Longrightarrow> ends R w (conn_state S v w1)"
  unfolding conn_state_def by (rule step_rules)

lemma ends_loadOperable: "R w w1 \<Longrightarrow> ends R w (loadOperable S i w1)"
  unfolding loadOperable_def by (rule step_rules | assumption)+

lemma ends_applyLink: "R w w1 \<Longrightarrow> ends R w (applyLink S v w1)"
  unfolding applyLink_def by (rule step_rules ends_conn_state | assumption)+

lemma ends_committed: "R w w1 \<Longrightarrow> ends R w (committed S w1)"
  unfolding committed_def by (rule step_rules | assumption)+

lemma ends_admit: "R w w1 \<Longrightarrow> ends R w (admit S flavor w1)"
  unfolding admit_def by (rule step_rules ends_committed | assumption)+

lemma ends_reconcilePower: "R w w1 \<Longrightarrow> ends R w (reconcilePower S v w1)"
  unfolding reconcilePower_def by (rule step_rules ends_conn_state | assumption)+

lemma ends_batch: "R w w1 \<Longrightarrow> ends R w (batchReconcilePower S vs w1)"
  unfolding batchReconcilePower_def by (rule step_rules | assumption)+

lemma ends_Get: "R w w1 \<Longrightarrow> ends R w (Get S i w1)"
  unfolding Get_def by (rule step_rules ends_reconcilePower | assumption)+

lemma reconcileQuota_ends: "reconcileQuota S v w1 = (b, v', w2) \<Longrightarrow> R w w1 \<Longrightarrow> R w w2"
  using ends_ignore [OF ends_applyLink] by (auto simp: reconcileQuota_def Let_def split: if_splits)

lemma ends_reconcileQuota:
  assumes "R w w1" "\<And>b v' w2. R w w2 \<Longrightarrow> ends R w (k b v' w2)"
  shows "ends R w (case reconcileQuota S v w1 of (b, v', w2) \<Rightarrow> k b v' w2)"
  using assms reconcileQuota_ends by (auto split: prod.splits)

lemmas op_rules = step_rules ends_enqueue ends_conn_state ends_loadOperable ends_applyLink ends_committed ends_admit
  ends_reconcilePower ends_batch ends_Get ends_reconcileQuota

section \<open>Operations\<close>

lemma ends_reading:
  assumes "R w w1"
  shows "ends R w (Status S i w1)" "ends R w (List S opts w1)" "ends R w (Service_HostReport S w1)"
    "ends R w (TrafficUsage S i w1)" "ends R w (SnapshotList S i w1)" "ends R w (ConsoleEndpoint S i w1)"
    "ends R w (Stats S i w1)"
  using assms
  unfolding Status_def List_def Service_HostReport_def TrafficUsage_def SnapshotList_def ConsoleEndpoint_def Stats_def
  by - (rule op_rules | assumption)+

lemma ends_changing:
  assumes "R w w1"
  shows "ends R w (Start S i w1)" "ends R w (Shutdown S i w1)" "ends R w (Reboot S i w1)" "ends R w (Stop S i w1)"
    "ends R w (Suspend S i w1)" "ends R w (Unsuspend S i w1)" "ends R w (ResetTraffic S i w1)"
    "ends R w (BlockNetwork S i w1)" "ends R w (UnblockNetwork S i w1)" "ends R w (Terminate S i w1)"
    "ends R w (PasswordReset S i pw w1)" "ends R w (SetHostname S i hn w1)" "ends R w (Rebuild S i rb w1)"
    "ends R w (Resize S i rz w1)" "ends R w (SnapshotDelete S i n w1)" "ends R w (SnapshotRevert S i n w1)"
    "ends R w (SetTrafficQuota S i gb w1)"
  using assms
  unfolding Start_def Shutdown_def Reboot_def Stop_def Suspend_def Unsuspend_def ResetTraffic_def BlockNetwork_def
    UnblockNetwork_def enqueueOp_def enqueueVMJob_def Terminate_def PasswordReset_def SetHostname_def Rebuild_def
    Resize_def SnapshotDelete_def SnapshotRevert_def enqueueReseed_def SetTrafficQuota_def
  by - (rule op_rules | assumption)+

lemma ends_Create: "R w w1 \<Longrightarrow> ends R w (Create S req w1)"
  unfolding Create_def
  by (rule op_rules | assumption | rule ends_split)+

lemma ends_SnapshotCreate: "R w w1 \<Longrightarrow> ends R w (SnapshotCreate S i n d w1)"
  unfolding SnapshotCreate_def Let_def by (rule op_rules | assumption)+

lemma ends_generateToken: "R w w1 \<Longrightarrow> ends R w (randomToken w1)"
  unfolding randomToken_def by (rule op_rules | assumption)+

lemma Mint_ends: "Mint i host port ts w1 = (r, ts', w2) \<Longrightarrow> R w w1 \<Longrightarrow> R w w2"
  using ends_generateToken [of w w1] time_step
  by (auto simp: Mint_def sweep_def Let_def ends_def split: prod.splits sum.splits)

lemmas handler_rules = op_rules ends_reading ends_changing ends_Create ends_SnapshotCreate

section \<open>Endpoints\<close>

lemma ends_handleReady:
  assumes "R w w1" "ready_on_conn A"
  shows "ends R w (handleReady A w1)"
proof (cases "op_Ready A")
  case None
  then show ?thesis using assms by (simp add: handleReady_def ends_def)
next
  case (Some f)
  then obtain g where "f = on_conn g" using assms(2) by (auto simp: ready_on_conn_def)
  with Some show ?thesis using ends_local(1) [OF assms(1), of g]
    by (auto simp: handleReady_def ends_def Let_def split: prod.splits sum.splits)
qed

lemma ends_endpoint:
  assumes "R w (hs_world h)" "op_VMService A = S" "x = Readyz \<longrightarrow> ready_on_conn A"
  shows "R w (hs_world (snd (endpoint x A r h)))"
proof -
  have lift: "R w (hs_world (snd (on_world f h)))" if "ends R w (f (hs_world h))" for f :: "('s, 'c, 'f) world \<Rightarrow> Response \<times> ('s, 'c, 'f) world"
    using that by (auto simp: on_world_def ends_def split: prod.splits)
  have con: "R w (hs_world (snd (console_request A r h)))"
    using ends_reading(6) [OF assms(1), of "rq_Param r ''id''"] Mint_ends [of _ _ _ _ _ _ _ _ w]
    by (auto simp: console_request_def assms(2) ends_def split: prod.splits sum.splits)
  show ?thesis
    by (cases x, simp_all add: assms(1) con)
      (rule lift, (unfold h_host_def h_list_def h_get_def h_status_def h_stats_def h_traffic_def h_setTrafficQuota_def
        h_listSnapshots_def jobs_get_def
        h_create_def h_terminate_def powerOp_def h_password_def h_hostname_def h_rebuild_def h_resize_def
        h_createSnapshot_def h_deleteSnapshot_def h_revertSnapshot_def assms(2))?,
       (rule handler_rules ends_handleReady assms(1) assms(3) [rule_format] | assumption | rule ends_split)+)+
qed

end

section \<open>Requests with their middlewares\<close>

locale serving_env = request_env S R for S :: "('s, 'c, 'f) Service" and R +
  assumes keys: "R w w1 \<Longrightarrow> ends R w (st_GetIdempotency S key w1)" "R w w1 \<Longrightarrow> ends R w (st_DeleteIdempotency S key w1)"
    "R w w1 \<Longrightarrow> ends R w (st_PutIdempotency S rec w1)" "R w w1 \<Longrightarrow> ends R w (st_UpdateIdempotency S rec w1)"
begin

lemma ends_verdict: "R w w1 \<Longrightarrow> ends R w (idem_verdict A hash got w1)"
  unfolding idem_verdict_def by (rule op_rules | assumption)+

lemma ends_check:
  assumes "R w w1" "op_VMService A = S"
  shows "ends R w (idem_check A key hash w1)"
proof -
  obtain got w2 where g: "st_GetIdempotency S key w1 = (got, w2)" by fastforce
  have "R w w2" using keys(1) [OF assms(1), of key] by (simp add: g ends_def)
  moreover obtain v w3 where v: "idem_verdict A hash got w2 = (v, w3)" by fastforce
  ultimately have "R w w3" using ends_verdict [of w w2 A hash got] by (simp add: v ends_def)
  then show ?thesis
    using ends_ignore [OF keys(2)] by (cases v) (simp_all add: idem_check_def assms(2) g v ends_def)
qed

lemma ends_claim: "R w w1 \<Longrightarrow> op_VMService A = S \<Longrightarrow> ends R w (idem_claim A key hash w1)"
  unfolding idem_claim_def by (simp only:) (rule op_rules keys | assumption)+

lemma ends_idempotency:
  assumes "R w (hs_world h)" "op_VMService A = S"
    and next_ok: "\<And>r h. R w (hs_world h) \<Longrightarrow> R w (hs_world (snd (next A r h)))"
  shows "R w (hs_world (snd (idempotency next A r h)))"
proof -
  have check: "on_world (idem_check A key hash) h1 = (a, h2) \<Longrightarrow> R w (hs_world h1) \<Longrightarrow> R w (hs_world h2)" for key hash h1 a h2
    using ends_check [OF _ assms(2), of w "hs_world h1" key hash] by (auto simp: on_world_def ends_def split: prod.splits)
  have claim: "on_world (idem_claim A key hash) h1 = (a, h2) \<Longrightarrow> R w (hs_world h1) \<Longrightarrow> R w (hs_world h2)" for key hash h1 a h2
    using ends_claim [OF _ assms(2), of w "hs_world h1" key hash] by (auto simp: on_world_def ends_def split: prod.splits)
  have nxt: "next A r h1 = (a, h2) \<Longrightarrow> R w (hs_world h1) \<Longrightarrow> R w (ignore_err (st_UpdateIdempotency S rec (hs_world h2)))" for r h1 a h2 rec
    using next_ok [of h1 r] ends_ignore [OF keys(4)] by simp
  show ?thesis
    unfolding idempotency_def Let_def
    using assms(1) check claim nxt
    by (auto simp: idem_finish_def assms(2) split: option.splits prod.splits sum.splits)
qed

lemma ends_serve:
  assumes "R w (hs_world h)" "op_VMService A = S" "ready_on_conn A"
  shows "R w (hs_world (snd (serve x A r h)))"
proof -
  define inner :: "('s, 'c, 'f) handler" where "inner = (if needs_key x then idempotency (endpoint x) else endpoint x)"
  have inner: "R w (hs_world (snd (inner A r h)))" if "R w (hs_world h)" for r h
    using that ends_endpoint [OF _ assms(2)] ends_idempotency [OF _ assms(2)] assms(3) by (simp add: inner_def)
  then have "R w (hs_world (snd (ipAllowlist (bearerAuth inner) A r h)))"
    using assms(1) by (auto simp: ipAllowlist_def bearerAuth_def Let_def split: prod.split option.splits)
  then show ?thesis using inner [OF assms(1)] by (simp add: serve_def inner_def [symmetric])
qed

end

section \<open>The idempotency table\<close>

context service_store
begin

lemma st_GetIdempotency_law:
  assumes "st_GetIdempotency S k w = (r, w')" "sinv (w_store w)"
  shows "sinv (w_store w') \<and> view (w_store w') = view (w_store w) \<and> (case r of
      Inl e \<Rightarrow> errors_Is e ErrNotFound \<longrightarrow> (\<forall>rec. sv_idem (view (w_store w)) k = Some rec \<longrightarrow> idr_ExpiresAt rec < w_clock w 0)
    | Inr rec \<Rightarrow> sv_idem (view (w_store w)) k = Some rec)"
  using assms GetIdem_ok GetIdem_err
  by (cases r) (fastforce simp: st_GetIdempotency_def on_store_def time_Now_def split: prod.splits)+

lemma st_PutIdempotency_law:
  assumes "st_PutIdempotency S rec w = (r, w')" "sinv (w_store w)"
  shows "sinv (w_store w') \<and> (case r of
      Inl e \<Rightarrow> view (w_store w') = view (w_store w)
    | Inr rec' \<Rightarrow> sv_idem (view (w_store w)) (idr_Key rec) = None \<and> (\<exists>now. rec' = idem_created now rec) \<and>
        view (w_store w') = (view (w_store w))\<lparr>sv_idem := (sv_idem (view (w_store w)))(idr_Key rec \<mapsto> rec')\<rparr>)"
  using assms PutIdem_ok PutIdem_err
  by (cases r) (fastforce simp: st_PutIdempotency_def on_store_def time_Now_def split: prod.splits)+

lemma st_UpdateIdempotency_law:
  assumes "st_UpdateIdempotency S rec w = (r, w')" "sinv (w_store w)"
  shows "sinv (w_store w') \<and> (case r of
      Inl e \<Rightarrow> view (w_store w') = view (w_store w)
    | Inr _ \<Rightarrow> (\<exists>old. sv_idem (view (w_store w)) (idr_Key rec) = Some old \<and>
        view (w_store w') = (view (w_store w))\<lparr>sv_idem := (sv_idem (view (w_store w)))(idr_Key rec \<mapsto> idem_written old rec)\<rparr>))"
  using assms UpdateIdem_ok UpdateIdem_err
  by (cases r) (fastforce simp: st_UpdateIdempotency_def on_store_def split: prod.splits)+

lemma st_DeleteIdempotency_law:
  assumes "st_DeleteIdempotency S k w = (r, w')" "sinv (w_store w)"
  shows "sinv (w_store w') \<and> (case r of
      Inl e \<Rightarrow> view (w_store w') = view (w_store w)
    | Inr _ \<Rightarrow> view (w_store w') = (view (w_store w))\<lparr>sv_idem := (sv_idem (view (w_store w)))(k := None)\<rparr>)"
  using assms DeleteIdem_ok DeleteIdem_err
  by (cases r) (fastforce simp: st_DeleteIdempotency_def on_store_def split: prod.splits)+

end

lemma key_frame:
  "st_GetIdempotency S key w = (rg, w') \<Longrightarrow> store_frame w w'"
  "st_DeleteIdempotency S key w = (r, w') \<Longrightarrow> store_frame w w'"
  "st_PutIdempotency S rec w = (rg, w') \<Longrightarrow> store_frame w w'"
  "st_UpdateIdempotency S rec w = (r, w') \<Longrightarrow> store_frame w w'"
  by (auto simp: store_frame_def st_GetIdempotency_def st_DeleteIdempotency_def st_PutIdempotency_def
      st_UpdateIdempotency_def on_store_def time_Now_def split: prod.splits)

section \<open>Two relations a request keeps\<close>

text \<open>The idempotency table is as it was.\<close>

definition idem_kept :: "('s \<Rightarrow> store_view) \<Rightarrow> ('s \<Rightarrow> bool) \<Rightarrow> ('s, 'c, 'f) world \<Rightarrow> ('s, 'c, 'f) world \<Rightarrow> bool" where
  "idem_kept view sinv w w' \<longleftrightarrow> sinv (w_store w') \<and> sv_idem (view (w_store w')) = sv_idem (view (w_store w))"

text \<open>The queue has only moved by its own steps, whatever the workers are running.\<close>

definition queue_moves :: "('s, 'c, 'f) Service \<Rightarrow> ('s \<Rightarrow> store_view) \<Rightarrow> ('s \<Rightarrow> bool) \<Rightarrow> ('s, 'c, 'f) Queue
    \<Rightarrow> ('s, 'c, 'f) world \<Rightarrow> ('s, 'c, 'f) world \<Rightarrow> bool" where
  "queue_moves S view sinv q w w' \<longleftrightarrow> sinv (w_store w') \<and>
     (\<forall>js. (qstep S view sinv q)\<^sup>*\<^sup>* \<lparr>qs_world = w, qs_running = js\<rparr> \<lparr>qs_world = w', qs_running = js\<rparr>)"

lemma moves_refl: "sinv (w_store w) \<Longrightarrow> queue_moves S view sinv q w w"
  by (simp add: queue_moves_def)

lemma moves_works:
  assumes "queue_moves S view sinv q w w1" "w_sched w2 = w_sched w1" "w_timers w2 = w_timers w1"
    and "sv_jobs (view (w_store w2)) = sv_jobs (view (w_store w1))" "sinv (w_store w2)"
  shows "queue_moves S view sinv q w w2"
proof -
  have "qstep S view sinv q \<lparr>qs_world = w1, qs_running = js\<rparr> \<lparr>qs_world = w2, qs_running = js\<rparr>" for js
    using qstep.works [of w2 "\<lparr>qs_world = w1, qs_running = js\<rparr>" view sinv S q] assms by simp
  with assms(1,5) show ?thesis by (auto simp: queue_moves_def intro: rtranclp.rtrancl_into_rtrancl)
qed

lemma moves_frame: "queue_moves S view sinv q w w1 \<Longrightarrow> job_frame view sinv i w1 w2 \<Longrightarrow> queue_moves S view sinv q w w2"
  by (erule moves_works) (simp_all add: job_frame_def)

context service_store
begin

lemma moves_store:
  assumes "queue_moves S view sinv q w w1" "p = (r, w2)" "store_frame w1 w2"
    and "sinv (w_store w2)" "sv_jobs (view (w_store w2)) = sv_jobs (view (w_store w1))"
  shows "ends (queue_moves S view sinv q) w p"
  using moves_works [OF assms(1) _ _ assms(5,4)] assms(2) store_frameD [OF assms(3)] by (simp add: ends_def)

lemma moves_Enqueue:
  assumes "queue_moves S view sinv q w w1" "job_Attempts j = 0"
  shows "ends (queue_moves S view sinv q) w (Enqueue S j w1)"
proof -
  obtain r w2 where e: "Enqueue S j w1 = (r, w2)" by fastforce
  have "qstep S view sinv q \<lparr>qs_world = w1, qs_running = js\<rparr> \<lparr>qs_world = w2, qs_running = js\<rparr>" for js
    using qstep.enqueue [OF assms(2), of S "\<lparr>qs_world = w1, qs_running = js\<rparr>"] e by simp
  moreover have "sinv (w_store w2)" using Enqueue_law [OF e] assms(1) by (simp add: queue_moves_def)
  ultimately show ?thesis
    using assms(1) by (auto simp: queue_moves_def ends_def e intro: rtranclp.rtrancl_into_rtrancl)
qed

end

sublocale service_store \<subseteq> idem: request_env S "idem_kept view sinv"
proof
  fix w w1 w2 :: "('s, 'c, 'f) world" and i v j
  assume k: "idem_kept view sinv w w1"
  then have ok: "sinv (w_store w1)" by (simp add: idem_kept_def)
  show "w_store w2 = w_store w1 \<Longrightarrow> idem_kept view sinv w w2" using k by (simp add: idem_kept_def)
  obtain r w2 where 1: "st_GetVM S i w1 = (r, w2)" by fastforce
  from st_GetVM_law [OF 1 ok] k show "ends (idem_kept view sinv) w (st_GetVM S i w1)" by (simp add: 1 ends_def idem_kept_def)
  obtain r w2 where 2: "st_ListVMs S w1 = (r, w2)" by fastforce
  from st_ListVMs_law [OF 2 ok] k show "ends (idem_kept view sinv) w (st_ListVMs S w1)" by (simp add: 2 ends_def idem_kept_def)
  obtain r w2 where 3: "st_GetJob S i w1 = (r, w2)" by fastforce
  from st_GetJob_law [OF 3 ok] k show "ends (idem_kept view sinv) w (st_GetJob S i w1)" by (simp add: 3 ends_def idem_kept_def)
  obtain r w2 where 4: "st_CreateVM S v w1 = (r, w2)" by fastforce
  from st_CreateVM_law [OF 4 ok] k show "ends (idem_kept view sinv) w (st_CreateVM S v w1)"
    by (cases r) (auto simp: 4 ends_def idem_kept_def)
  obtain r w2 where 5: "st_UpdateVM S v w1 = (r, w2)" by fastforce
  from st_UpdateVM_law [OF 5 ok] k show "ends (idem_kept view sinv) w (st_UpdateVM S v w1)"
    by (cases r) (auto simp: 5 ends_def idem_kept_def)
  obtain r w2 where 6: "Enqueue S j w1 = (r, w2)" by fastforce
  from Enqueue_law [OF 6 ok] k show "ends (idem_kept view sinv) w (Enqueue S j w1)"
    by (cases r) (auto simp: 6 ends_def idem_kept_def)
qed

sublocale service_store \<subseteq> moves: serving_env S "queue_moves S view sinv q" for q
proof
  fix w w1 w2 :: "('s, 'c, 'f) world" and i v j key rec
  assume k: "queue_moves S view sinv q w w1"
  then have ok: "sinv (w_store w1)" by (simp add: queue_moves_def)
  show "w_store w2 = w_store w1 \<Longrightarrow> w_sched w2 = w_sched w1 \<Longrightarrow> w_timers w2 = w_timers w1 \<Longrightarrow> queue_moves S view sinv q w w2"
    using ok by (intro moves_works [OF k]) simp_all
  show "job_Attempts j = 0 \<Longrightarrow> ends (queue_moves S view sinv q) w (Enqueue S j w1)" by (rule moves_Enqueue [OF k])
  obtain r w2 where 1: "st_GetVM S i w1 = (r, w2)" by fastforce
  from st_GetVM_law [OF 1 ok] show "ends (queue_moves S view sinv q) w (st_GetVM S i w1)"
    by (intro moves_store [OF k 1 st_frame(2) [OF 1]]) simp_all
  obtain r w2 where 2: "st_ListVMs S w1 = (r, w2)" by fastforce
  from st_ListVMs_law [OF 2 ok] show "ends (queue_moves S view sinv q) w (st_ListVMs S w1)"
    by (intro moves_store [OF k 2 st_frame(3) [OF 2]]) simp_all
  obtain r w2 where 3: "st_GetJob S i w1 = (r, w2)" by fastforce
  from st_GetJob_law [OF 3 ok] show "ends (queue_moves S view sinv q) w (st_GetJob S i w1)"
    by (intro moves_store [OF k 3 st_frame(7) [OF 3]]) simp_all
  obtain r w2 where 4: "st_CreateVM S v w1 = (r, w2)" by fastforce
  from st_CreateVM_law [OF 4 ok] show "ends (queue_moves S view sinv q) w (st_CreateVM S v w1)"
    by (intro moves_store [OF k 4 st_frame(1) [OF 4]]) (cases r; auto)+
  obtain r w2 where 5: "st_UpdateVM S v w1 = (r, w2)" by fastforce
  from st_UpdateVM_law [OF 5 ok] show "ends (queue_moves S view sinv q) w (st_UpdateVM S v w1)"
    by (intro moves_store [OF k 5 st_frame(4) [OF 5]]) (cases r; auto)+
  obtain r w2 where 6: "st_GetIdempotency S key w1 = (r, w2)" by fastforce
  from st_GetIdempotency_law [OF 6 ok] show "ends (queue_moves S view sinv q) w (st_GetIdempotency S key w1)"
    by (intro moves_store [OF k 6 key_frame(1) [OF 6]]) simp_all
  obtain r w2 where 7: "st_DeleteIdempotency S key w1 = (r, w2)" by fastforce
  from st_DeleteIdempotency_law [OF 7 ok] show "ends (queue_moves S view sinv q) w (st_DeleteIdempotency S key w1)"
    by (intro moves_store [OF k 7 key_frame(2) [OF 7]]) (cases r; auto)+
  obtain r w2 where 8: "st_PutIdempotency S rec w1 = (r, w2)" by fastforce
  from st_PutIdempotency_law [OF 8 ok] show "ends (queue_moves S view sinv q) w (st_PutIdempotency S rec w1)"
    by (intro moves_store [OF k 8 key_frame(3) [OF 8]]) (cases r; auto)+
  obtain r w2 where 9: "st_UpdateIdempotency S rec w1 = (r, w2)" by fastforce
  from st_UpdateIdempotency_law [OF 9 ok] show "ends (queue_moves S view sinv q) w (st_UpdateIdempotency S rec w1)"
    by (intro moves_store [OF k 9 key_frame(4) [OF 9]]) (cases r; auto)+
qed

end
