(* ===== verification/VmGuards.thy ===== *)
theory VmGuards
  imports VmOps VmLifecycle
begin

text \<open>
  What the operations on an existing VM guarantee: requests on a VM that is gone are refused,
  resizing never shrinks a disk, suspension is a round trip, and how the two netmask
  translations compare.
\<close>

section \<open>Operations on a VM that cannot be operated on\<close>

lemma validateSSHKeys_loop_error: "validateSSHKeys_loop ok n ks = Inl e \<Longrightarrow> errors_Is e ErrInvalidRequest"
  by (induction ok n ks rule: validateSSHKeys_loop.induct) (auto simp: Let_def split: if_splits)

lemma validation_errors:
  "validatePassword p = Inl e \<Longrightarrow> errors_Is e ErrInvalidRequest"
  "validateHostname h = Inl e \<Longrightarrow> errors_Is e ErrInvalidRequest"
  "validateSSHKeys ok ks = Inl e \<Longrightarrow> errors_Is e ErrInvalidRequest"
  by (auto simp: validatePassword_def validateHostname_def validateSSHKeys_def Let_def split: if_splits
      dest: validateSSHKeys_loop_error)

lemma inoperable_load:
  assumes "sv_store S = sqlite_ops" "sqlite_inv (w_store w)" "sqlite_calm (w_store w)"
    and "case sv_vms (sqlite_view (w_store w)) i of None \<Rightarrow> e = ErrVMNotFound
      | Some v \<Rightarrow> vm_Status v = VMStatusTerminated \<and> e = ErrVMTerminated"
  shows "loadOperable S i w = (Inl (sentinel_err e), w)"
proof (cases "sv_vms (sqlite_view (w_store w)) i")
  case None
  then show ?thesis
    using agent.st_GetVM_calm_None [where S = S, unfolded with_sqlite [OF assms(1)], OF assms(3) None] assms(4)
    by (simp add: loadOperable_def)
next
  case (Some v)
  then show ?thesis
    using agent.st_GetVM_calm [where S = S, unfolded with_sqlite [OF assms(1)], OF assms(3) Some] assms(4)
    by (simp add: loadOperable_def)
qed


section \<open>Resizing\<close>

context service_store
begin

lemma loadOperable_law:
  assumes "loadOperable S i w = (r, w')" "sinv (w_store w)"
  shows "sinv (w_store w') \<and> view (w_store w') = view (w_store w) \<and> w_sched w' = w_sched w \<and>
    (\<forall>v. r = Inr v \<longrightarrow> sv_vms (view (w_store w)) i = Some v \<and> vm_ID v = i \<and> vm_Status v \<noteq> VMStatusTerminated)"
proof -
  obtain r1 w1 where g: "st_GetVM S i w = (r1, w1)" by fastforce
  show ?thesis
    using assms(1) st_GetVM_law [OF g assms(2)] store_frameD(5) [OF st_frame(2) [OF g]]
    by (cases r1) (auto simp: loadOperable_def g split: if_splits)
qed

lemma Resize_law:
  assumes "Resize S i req w = (r, w')" "sinv (w_store w)"
  shows "sinv (w_store w') \<and> (case r of
      Inl e \<Rightarrow> w_sched w' = w_sched w \<and> (\<forall>k. k \<noteq> i \<longrightarrow> sv_vms (view (w_store w')) k = sv_vms (view (w_store w)) k)
    | Inr j \<Rightarrow> (\<exists>v f now. sv_vms (view (w_store w)) i = Some v \<and> vm_Status v \<noteq> VMStatusTerminated \<and>
        cat_Flavor (sv_catalog S) (rz_FlavorID req) = Some f \<and> vm_DiskGB v \<le> fl_DiskGB f \<and>
        job_VMID j = i \<and> job_Type j = JobResize \<and> job_State j = JobQueued \<and> w_sched w' = w_sched w @ [job_ID j] \<and>
        view (w_store w') = (view (w_store w))\<lparr>sv_vms := (sv_vms (view (w_store w)))(i \<mapsto> v\<lparr>vm_FlavorID := fl_ID f,
            vm_VCPUs := fl_VCPUs f, vm_MemoryMB := fl_MemoryMB f, vm_DiskGB := fl_DiskGB f,
            vm_Status := VMStatusProvisioning, vm_UpdatedAt := now\<rparr>),
          sv_jobs := (sv_jobs (view (w_store w)))(job_ID j \<mapsto> j)\<rparr>))"
proof -
  obtain r1 w1 where l: "loadOperable S i w = (r1, w1)" by fastforce
  note ll = loadOperable_law [OF l assms(2)]
  show ?thesis
  proof (cases "\<exists>v f. r1 = Inr v \<and> cat_Flavor (sv_catalog S) (rz_FlavorID req) = Some f \<and> vm_DiskGB v \<le> fl_DiskGB f")
    case False
    then have "w' = w1 \<and> (\<exists>e. r = Inl e)"
      using assms(1) by (auto simp: Resize_def l split: sum.splits option.splits if_splits)
    with ll show ?thesis by auto
  next
    case True
    then obtain v f where v: "r1 = Inr v" "cat_Flavor (sv_catalog S) (rz_FlavorID req) = Some f" "vm_DiskGB v \<le> fl_DiskGB f"
      by blast
    have v0: "sv_vms (view (w_store w)) i = Some v" "vm_ID v = i" "vm_Status v \<noteq> VMStatusTerminated" using ll v(1) by auto
    define v1 where "v1 = v\<lparr>vm_FlavorID := fl_ID f, vm_VCPUs := fl_VCPUs f, vm_MemoryMB := fl_MemoryMB f,
      vm_DiskGB := fl_DiskGB f, vm_Status := VMStatusProvisioning\<rparr>"
    obtain r2 w2 where u: "st_UpdateVM S v1 w1 = (r2, w2)" by fastforce
    have r: "(case r2 of Inl e \<Rightarrow> (Inl e, w2) | Inr _ \<Rightarrow> enqueue_new S JobResize i w2) = (r, w')"
      using assms(1) v(3) unfolding Resize_def l v(1) v1_def [symmetric]
      by (simp add: v v1_def [symmetric] u Let_def split: sum.splits)
    have ul: "sinv (w_store w2)" "case r2 of Inl e \<Rightarrow> view (w_store w2) = view (w_store w)
       | Inr _ \<Rightarrow> \<exists>now. view (w_store w2) = (view (w_store w))\<lparr>sv_vms := (sv_vms (view (w_store w)))(i \<mapsto> v1\<lparr>vm_UpdatedAt := now\<rparr>)\<rparr>"
      and sc: "w_sched w2 = w_sched w"
      using st_UpdateVM_law [OF u] ll v0 store_frameD(5) [OF st_frame(4) [OF u]]
      by (cases r2; auto simp: v1_def vm_written_def)+
    show ?thesis
    proof (cases r2)
      case (Inl e)
      then show ?thesis using r ul sc by auto
    next
      case (Inr u')
      then obtain now where vw: "view (w_store w2) = (view (w_store w))\<lparr>sv_vms := (sv_vms (view (w_store w)))(i \<mapsto> v1\<lparr>vm_UpdatedAt := now\<rparr>)\<rparr>"
        using ul by auto
      from r Inr have e: "enqueue_new S JobResize i w2 = (r, w')" by simp
      show ?thesis
        using enqueue_new_law [OF e ul(1)] vw sc v0 v(2,3) by (cases r) (auto simp: v1_def)
    qed
  qed
qed

end


text \<open>(C20) Resizing is grow-only and recorded before it is queued. Whatever statement fails, an
  accepted resize is of a VM that exists and is not terminated, to a flavor of the catalog whose
  disk is not smaller; the record then carries that flavor's size and is provisioning, and
  exactly one new resize job is stored and scheduled. A refused one schedules nothing and
  touches no other VM.\<close>

theorem Resize_grow_only:
  assumes "sv_store S = sqlite_ops" "sqlite_inv (w_store w)" "Resize S i req w = (r, w')"
  shows "case r of
      Inl e \<Rightarrow> w_sched w' = w_sched w \<and>
        (\<forall>k. k \<noteq> i \<longrightarrow> sv_vms (sqlite_view (w_store w')) k = sv_vms (sqlite_view (w_store w)) k)
    | Inr j \<Rightarrow> (\<exists>v f now. sv_vms (sqlite_view (w_store w)) i = Some v \<and> vm_Status v \<noteq> VMStatusTerminated \<and>
        cat_Flavor (sv_catalog S) (rz_FlavorID req) = Some f \<and> vm_DiskGB v \<le> fl_DiskGB f \<and>
        sv_vms (sqlite_view (w_store w')) = (sv_vms (sqlite_view (w_store w)))(i \<mapsto> v\<lparr>vm_FlavorID := fl_ID f,
          vm_VCPUs := fl_VCPUs f, vm_MemoryMB := fl_MemoryMB f, vm_DiskGB := fl_DiskGB f,
          vm_Status := VMStatusProvisioning, vm_UpdatedAt := now\<rparr>) \<and>
        sv_jobs (sqlite_view (w_store w')) = (sv_jobs (sqlite_view (w_store w)))(job_ID j \<mapsto> j) \<and>
        job_VMID j = i \<and> job_Type j = JobResize \<and> job_State j = JobQueued \<and> w_sched w' = w_sched w @ [job_ID j])"
  using agent.Resize_law [where S = S, unfolded with_sqlite [OF assms(1)], OF assms(3,2)]
  by (cases r) auto

theorem Resize_grow_only_witness:
  "w_sched (snd (Resize demo_service ''v1'' \<lparr>rz_FlavorID = ''s1.small''\<rparr> (vm_world (demo_vm\<lparr>vm_DiskGB := 900\<rparr>)))) = []"
proof -
  obtain r w' where r: "Resize demo_service ''v1'' \<lparr>rz_FlavorID = ''s1.small''\<rparr> (vm_world (demo_vm\<lparr>vm_DiskGB := 900\<rparr>)) = (r, w')"
    by fastforce
  have fl: "fl_DiskGB f < 900" if "cat_Flavor (sv_catalog demo_service) ''s1.small'' = Some f" for f
    using that by (auto simp: demo_service_def demo_config_def dev_config_def catalog_New_def cat_Flavor_def)
  have "w_sched (vm_world v) = []" for v by (simp add: vm_world_def demo_world_def)
  then show ?thesis
    using Resize_grow_only [OF demo_store(1) vm_world_ok(1) r] fl unfolding r by (cases r) (auto simp: demo_vm_def)
qed


section \<open>Suspension\<close>

definition powered :: "DomainState \<Rightarrow> bool" where
  "powered st \<longleftrightarrow> mapPowerState st = PowerRunning \<or> mapPowerState st = PowerPaused"

lemma runSuspend_calm:
  fixes S :: "(SQLiteStore, 'c, 'f) Service"
  assumes S: "sv_store S = sqlite_ops" and rc: "responsive_conn (sv_conn S) cview dn"
    and ok: "sqlite_inv (w_store w)" "sqlite_calm (w_store w)"
    and row: "sv_vms (sqlite_view (w_store w)) i = Some v" and ns: "vm_Status v \<noteq> VMStatusSuspended"
    and d: "cv_doms (cview (w_conn w)) (vm_DomainName v) = Some d" and keep: "dv_Persistent d"
  obtains w' now where "runSuspend S i w = (Inr (), w')" "sqlite_inv (w_store w')" "sqlite_calm (w_store w')"
    "sv_vms (sqlite_view (w_store w')) i = Some (v\<lparr>vm_PrevPowerState := mapPowerState (dv_State d),
       vm_Status := VMStatusSuspended, vm_PowerState := PowerShutoff, vm_UpdatedAt := now\<rparr>)"
    "cv_doms (cview (w_conn w')) (vm_DomainName v) = Some (if powered (dv_State d) then d\<lparr>dv_State := StateShutoff, dv_Active := False\<rparr> else d)"
proof -
  note api = responsive_conn.axioms(1) [OF rc]
  have i: "vm_ID v = i" by (rule agent.st_GetVM_fine(2) [OF ok(2,1) row])
  have g: "st_GetVM S i w = (Inr v, w)"
    by (rule agent.st_GetVM_calm [where S = S, unfolded with_sqlite [OF S], OF ok(2) row])
  obtain c1 where c1: "co_DomainState (sv_conn S) (vm_DomainName v) (w_conn w) = (Inr (dv_State d), c1)"
    using responsive_conn.State_answers [OF rc, of "vm_DomainName v" "w_conn w"] d by auto
  have v1: "cview c1 = cview (w_conn w)" using conn_api.State_law [OF api c1] by simp
  define v2 where "v2 = v\<lparr>vm_PrevPowerState := mapPowerState (dv_State d), vm_Status := VMStatusSuspended, vm_PowerState := PowerShutoff\<rparr>"
  have act: "dv_Active d" if "powered (dv_State d)"
    using conn_api.Active_law [OF api d] that by (cases "dv_State d") (auto simp: powered_def)
  obtain r2 c2 where c2: "co_DestroyDomain (sv_conn S) (vm_DomainName v) c1 = (r2, c2)" by fastforce
  have r2: "r2 = Inr ()" if "powered (dv_State d)"
    using responsive_conn.Destroy_answers [OF rc, of c1 "vm_DomainName v" d] d v1 act [OF that] c2 by auto
  have d2: "cv_doms (cview c2) (vm_DomainName v) = Some (d\<lparr>dv_State := StateShutoff, dv_Active := False\<rparr>)" if "powered (dv_State d)"
    using conn_api.Destroy_law [OF api c2] r2 [OF that] v1 d keep by (simp add: view_defs)
  define w2 where "w2 = (if powered (dv_State d) then w\<lparr>w_conn := c2\<rparr> else w\<lparr>w_conn := c1\<rparr>)"
  have w2: "w_store w2 = w_store w" by (simp add: w2_def)
  have dw: "cv_doms (cview (w_conn w2)) (vm_DomainName v) = Some (if powered (dv_State d) then d\<lparr>dv_State := StateShutoff, dv_Active := False\<rparr> else d)"
    using d2 v1 d by (simp add: w2_def)
  have run: "runSuspend S i w = st_UpdateVM S v2 w2"
    using ns r2 by (auto simp: runSuspend_def g conn_state_def on_conn_def c1 c2 v2_def w2_def powered_def Let_def)
  obtain w3 now where u: "st_UpdateVM S v2 w2 = (Inr (), w3)" "sqlite_inv (w_store w3)" "sqlite_calm (w_store w3)"
    "sqlite_view (w_store w3) = (sqlite_view (w_store w2))\<lparr>sv_vms := (sv_vms (sqlite_view (w_store w2)))(vm_ID v2 \<mapsto> vm_written now v v2)\<rparr>"
    "store_frame w2 w3"
    by (rule agent.st_UpdateVM_effect [where S = S and w = w2 and v = v2 and old = v, unfolded with_sqlite [OF S]])
      (use ok row i in \<open>simp_all add: w2 v2_def\<close>)
  have wr: "vm_written now v v2 = v2\<lparr>vm_UpdatedAt := now\<rparr>" by (simp add: vm_written_def v2_def)
  show thesis
  proof (rule that)
    show "runSuspend S i w = (Inr (), w3)" by (simp add: run u(1))
    show "sv_vms (sqlite_view (w_store w3)) i = Some (v\<lparr>vm_PrevPowerState := mapPowerState (dv_State d),
       vm_Status := VMStatusSuspended, vm_PowerState := PowerShutoff, vm_UpdatedAt := now\<rparr>)"
      by (simp add: u(4) wr) (simp add: v2_def i)
    show "cv_doms (cview (w_conn w3)) (vm_DomainName v) = Some (if powered (dv_State d) then d\<lparr>dv_State := StateShutoff, dv_Active := False\<rparr> else d)"
      using dw u(5) by (simp add: store_frame_def)
  qed (fact u(2,3))+
qed


lemma runUnsuspend_calm:
  fixes S :: "(SQLiteStore, 'c, 'f) Service"
  assumes S: "sv_store S = sqlite_ops" and rc: "responsive_conn (sv_conn S) cview dn"
    and ok: "sqlite_inv (w_store w)" "sqlite_calm (w_store w)"
    and row: "sv_vms (sqlite_view (w_store w)) i = Some v" and sus: "vm_Status v = VMStatusSuspended"
    and d: "cv_doms (cview (w_conn w)) (vm_DomainName v) = Some d"
    and off: "vm_PrevPowerState v = PowerRunning \<or> vm_PrevPowerState v = PowerPaused \<Longrightarrow> \<not> dv_Active d"
  defines "on \<equiv> vm_PrevPowerState v = PowerRunning \<or> vm_PrevPowerState v = PowerPaused"
  obtains w' now where "runUnsuspend S i w = (Inr (), w')"
    "sv_vms (sqlite_view (w_store w')) i = Some (v\<lparr>vm_Status := if on then VMStatusRunning else VMStatusStopped,
       vm_PowerState := if on then PowerRunning else PowerShutoff, vm_PrevPowerState := PowerUnknown, vm_UpdatedAt := now\<rparr>)"
    "cv_doms (cview (w_conn w')) (vm_DomainName v) = Some (if on then d\<lparr>dv_State := StateRunning, dv_Active := True\<rparr> else d)"
proof -
  note api = responsive_conn.axioms(1) [OF rc]
  have i: "vm_ID v = i" by (rule agent.st_GetVM_fine(2) [OF ok(2,1) row])
  have g: "st_GetVM S i w = (Inr v, w)"
    by (rule agent.st_GetVM_calm [where S = S, unfolded with_sqlite [OF S], OF ok(2) row])
  obtain r2 c2 where c2: "co_StartDomain (sv_conn S) (vm_DomainName v) (w_conn w) = (r2, c2)" by fastforce
  have r2: "r2 = Inr ()" if on
    using responsive_conn.Start_answers [OF rc d] off that c2 by (auto simp: on_def)
  have d2: "cv_doms (cview c2) (vm_DomainName v) = Some (d\<lparr>dv_State := StateRunning, dv_Active := True\<rparr>)" if on
    using conn_api.Start_law [OF api c2] r2 [OF that] d by (simp add: view_defs)
  define v2 where "v2 = v\<lparr>vm_Status := if on then VMStatusRunning else VMStatusStopped,
     vm_PowerState := if on then PowerRunning else PowerShutoff, vm_PrevPowerState := PowerUnknown\<rparr>"
  define w2 where "w2 = (if on then w\<lparr>w_conn := c2\<rparr> else w)"
  have w2: "w_store w2 = w_store w" by (simp add: w2_def)
  have dw: "cv_doms (cview (w_conn w2)) (vm_DomainName v) = Some (if on then d\<lparr>dv_State := StateRunning, dv_Active := True\<rparr> else d)"
    using d2 d by (simp add: w2_def)
  have run: "runUnsuspend S i w = st_UpdateVM S v2 w2"
    using sus r2 by (auto simp: runUnsuspend_def g on_conn_def c2 v2_def w2_def on_def)
  obtain w3 now where u: "st_UpdateVM S v2 w2 = (Inr (), w3)"
    "sqlite_view (w_store w3) = (sqlite_view (w_store w2))\<lparr>sv_vms := (sv_vms (sqlite_view (w_store w2)))(vm_ID v2 \<mapsto> vm_written now v v2)\<rparr>"
    "store_frame w2 w3"
    by (rule agent.st_UpdateVM_effect [where S = S and w = w2 and v = v2 and old = v, unfolded with_sqlite [OF S]])
      (use ok row i in \<open>simp_all add: w2 v2_def\<close>)
  have wr: "vm_written now v v2 = v2\<lparr>vm_UpdatedAt := now\<rparr>" by (simp add: vm_written_def v2_def)
  show thesis
  proof (rule that)
    show "runUnsuspend S i w = (Inr (), w3)" by (simp add: run u(1))
    show "sv_vms (sqlite_view (w_store w3)) i = Some (v\<lparr>vm_Status := if on then VMStatusRunning else VMStatusStopped,
       vm_PowerState := if on then PowerRunning else PowerShutoff, vm_PrevPowerState := PowerUnknown, vm_UpdatedAt := now\<rparr>)"
      by (simp add: u(2) wr) (simp add: v2_def i)
    show "cv_doms (cview (w_conn w3)) (vm_DomainName v) = Some (if on then d\<lparr>dv_State := StateRunning, dv_Active := True\<rparr> else d)"
      using dw u(3) by (simp add: store_frame_def)
  qed
qed

text \<open>(C15) Suspending and unsuspending is a round trip. With a database and a hypervisor that answer,
  suspending a VM whose domain is defined powers the domain off if it was on and marks the
  record suspended; suspending it again changes nothing; unsuspending starts the domain again
  exactly when it was on before, and restores the record up to status, power state and time
  stamps: running if it was on, stopped if it was not.\<close>

theorem suspend_roundtrip:
  assumes "sv_store S = sqlite_ops" "responsive_conn (sv_conn S) cview dn"
    and "sqlite_inv (w_store w)" "sqlite_calm (w_store w)"
    and "sv_vms (sqlite_view (w_store w)) i = Some v" "vm_Status v \<noteq> VMStatusSuspended"
    and "cv_doms (cview (w_conn w)) (vm_DomainName v) = Some d" "dv_Persistent d"
  defines "on \<equiv> mapPowerState (dv_State d) = PowerRunning \<or> mapPowerState (dv_State d) = PowerPaused"
  shows "\<exists>w1 v1 w2 now. runSuspend S i w = (Inr (), w1) \<and>
      sv_vms (sqlite_view (w_store w1)) i = Some v1 \<and> vm_Status v1 = VMStatusSuspended \<and>
      cv_doms (cview (w_conn w1)) (vm_DomainName v) = Some (if on then d\<lparr>dv_State := StateShutoff, dv_Active := False\<rparr> else d) \<and>
      runSuspend S i w1 = (Inr (), w1) \<and> runUnsuspend S i w1 = (Inr (), w2) \<and>
      sv_vms (sqlite_view (w_store w2)) i = Some (v\<lparr>vm_Status := if on then VMStatusRunning else VMStatusStopped,
        vm_PowerState := if on then PowerRunning else PowerShutoff, vm_PrevPowerState := PowerUnknown,
        vm_UpdatedAt := now\<rparr>) \<and>
      cv_doms (cview (w_conn w2)) (vm_DomainName v) = Some (if on then d\<lparr>dv_State := StateRunning, dv_Active := True\<rparr> else d)"
proof -
  have on: "powered (dv_State d) = on" by (simp add: powered_def on_def)
  obtain w1 now1 where s: "runSuspend S i w = (Inr (), w1)" "sqlite_inv (w_store w1)" "sqlite_calm (w_store w1)"
    "sv_vms (sqlite_view (w_store w1)) i = Some (v\<lparr>vm_PrevPowerState := mapPowerState (dv_State d),
       vm_Status := VMStatusSuspended, vm_PowerState := PowerShutoff, vm_UpdatedAt := now1\<rparr>)"
    "cv_doms (cview (w_conn w1)) (vm_DomainName v) = Some (if on then d\<lparr>dv_State := StateShutoff, dv_Active := False\<rparr> else d)"
    by (rule runSuspend_calm [OF assms(1-8), unfolded on])
  have g: "st_GetVM S i w1 = (Inr (v\<lparr>vm_PrevPowerState := mapPowerState (dv_State d),
       vm_Status := VMStatusSuspended, vm_PowerState := PowerShutoff, vm_UpdatedAt := now1\<rparr>), w1)"
    by (rule agent.st_GetVM_calm [where S = S, unfolded with_sqlite [OF assms(1)], OF s(3,4)])
  then have again: "runSuspend S i w1 = (Inr (), w1)" by (simp add: runSuspend_def)
  obtain w2 now where u: "runUnsuspend S i w1 = (Inr (), w2)"
    "sv_vms (sqlite_view (w_store w2)) i = Some (v\<lparr>vm_Status := if on then VMStatusRunning else VMStatusStopped,
        vm_PowerState := if on then PowerRunning else PowerShutoff, vm_PrevPowerState := PowerUnknown,
        vm_UpdatedAt := now\<rparr>)"
    "cv_doms (cview (w_conn w2)) (vm_DomainName v) = Some (if on then d\<lparr>dv_State := StateRunning, dv_Active := True\<rparr> else d)"
  proof -
    note h = that
    show thesis
      by (rule runUnsuspend_calm [OF assms(1,2) s(2-4), simplified, OF s(5), folded on_def])
        (simp, rule h, assumption, assumption, simp split: if_splits)
  qed
  show ?thesis using s(1,4,5) again u by (intro exI conjI) (assumption | simp)+
qed

theorem suspend_roundtrip_witness:
  "\<exists>w1 w2. runSuspend demo_service ''v1'' (vm_world demo_vm) = (Inr (), w1) \<and> runUnsuspend demo_service ''v1'' w1 = (Inr (), w2) \<and>
    cv_doms (fake_view (w_conn w2)) ''kvm-v1'' = Some \<lparr>dv_State = StateRunning, dv_Active = True, dv_Persistent = True, dv_Held = False\<rparr>"
proof -
  have row: "sv_vms (sqlite_view (w_store (vm_world demo_vm))) ''v1'' = Some demo_vm" by (simp add: demo_vm_def)
  have d: "cv_doms (fake_view (w_conn (vm_world demo_vm))) (vm_DomainName demo_vm) =
      Some \<lparr>dv_State = StateRunning, dv_Active = True, dv_Persistent = True, dv_Held = False\<rparr>"
    by (simp add: vm_world_def fake_view_def demo_vm_def demo_domain_def)
  have n: "vm_Status demo_vm \<noteq> VMStatusSuspended" "vm_DomainName demo_vm = ''kvm-v1''" by (simp_all add: demo_vm_def)
  from suspend_roundtrip [OF demo_store(1) fake.responsive_conn_axioms [folded demo_store(2)] vm_world_ok row n(1) d]
  show ?thesis by (auto simp: n)
qed


section \<open>Two renderings of a netmask\<close>

lemma ParseIP_slash: "ParseIP (CHR ''/'' # cs) = None"
proof -
  have v4: "parseIPv4Fields [] 0 0 (CHR ''/'' # cs) = None" by (simp add: is_digit_def)
  have "hex_group 0 0 (CHR ''/'' # cs) = Some (0, 0, CHR ''/'' # cs)" by (simp add: hex_val_def)
  then have "parseIPv6_loop (Suc 7) [] None (CHR ''/'' # cs) = None" by (simp only: parseIPv6_loop.simps) simp
  then have "parseIPv6 (CHR ''/'' # cs) = None" by (simp add: parseIPv6_def Let_def del: parseIPv6_loop.simps)
  with v4 show ?thesis by (simp add: ParseIP_def ParseAddr_def del: parseIPv4Fields.simps split: option.splits)
qed

text \<open>The two translations of a bridge network's netmask into a prefix length. For a netmask
  without surrounding blanks, the one used when a seed is rewritten agrees with the one used at
  allocation on every netmask except the form \<open>/n\<close>, which the configuration documents: there
  allocation uses \<open>n\<close> and the rewritten seed always gets 32.\<close>

lemma netmask_prefixes_agree:
  assumes "TrimSpace nm = nm"
  shows "vm_prefixFromNetmask nm = (if HasPrefix nm ''/'' then ''32'' else prefixFromNetmask nm) \<and>
    (HasPrefix nm ''/'' \<longrightarrow> prefixFromNetmask nm = tl nm)"
proof (cases "HasPrefix nm ''/''")
  case True
  then obtain cs where "nm = CHR ''/'' # cs" by (cases nm) (auto simp: HasPrefix_def)
  with True assms show ?thesis by (simp add: vm_prefixFromNetmask_def prefixFromNetmask_def ParseIP_slash)
next
  case False
  then show ?thesis using assms by (simp add: vm_prefixFromNetmask_def prefixFromNetmask_def Let_def)
qed

end
