(* ===== verification/ApiProps.thy ===== *)
theory ApiProps
  imports RequestFrame VmGuards
begin

text \<open>
  What the HTTP interface guarantees: who may reach the \<open>/v1\<close> endpoints, what a repeated
  request with the same idempotency key does, which errors a client is told about, and where a
  console token leads. The laws of the idempotency table are stated once for every store that
  meets its contract (\<open>service_store\<close>) and used at the SQLite store.
\<close>

section \<open>Access\<close>

lemma tokenAllowed_iff: "tokenAllowed tokens provided \<longleftrightarrow> provided \<in> set tokens"
proof -
  have "foldl (\<lambda>m t. or m (if t = provided then 1 else 0 :: int)) m tokens =
      (if provided \<in> set tokens then or m 1 else m)" for m
    by (induction tokens arbitrary: m) (auto simp: or.assoc)
  from this [of 0] show ?thesis by (simp add: tokenAllowed_def)
qed

text \<open>The allowlist read entry by entry.\<close>

definition entry_covers :: "string \<Rightarrow> IP \<Rightarrow> bool" where
  "entry_covers e ip \<longleftrightarrow>
     (if Contains e ''/'' then \<exists>n. ParseCIDR e = Some n \<and> net_Contains n ip else ParseIP e = Some ip)"

lemma ipMatches_iff: "ipMatches ip (fst (parseAllowlist es)) (snd (parseAllowlist es)) \<longleftrightarrow> (\<exists>e\<in>set es. entry_covers e ip)"
  by (induction es)
    (auto simp: ipMatches_def parseAllowlist_def entry_covers_def ip_Equal_def List.map_filter_simps split: option.splits if_splits)

text \<open>(C10) Nothing under \<open>/v1\<close> is reachable without permission. A request is passed to its handler
  exactly when the peer's address is covered by an entry of the allowlist (or there is none)
  and the bearer token is one of the configured ones; otherwise it is answered with 403 or 401
  and the state is untouched. The decision does not depend on anything else in the request.\<close>

theorem v1_requires_permission:
  fixes A :: "('s, 'c, 'f) Options" and r :: Request
  assumes "in_v1 x"
  defines "source_ok \<equiv> auth_IPAllowlist (op_Auth A) = [] \<or>
      (\<exists>ip. clientIP r = Some ip \<and> (\<exists>e\<in>set (auth_IPAllowlist (op_Auth A)). entry_covers e ip))"
    and "token_ok \<equiv> \<exists>tok\<in>set (auth_Tokens (op_Auth A)). bearerToken r = Some tok"
  shows "(source_ok \<and> token_ok \<longrightarrow>
       serve x A r h = (if needs_key x then idempotency (endpoint x) else endpoint x) A r h) \<and>
    (\<not> source_ok \<longrightarrow> rs_Status (fst (serve x A r h)) = 403 \<and> snd (serve x A r h) = h) \<and>
    (source_ok \<and> \<not> token_ok \<longrightarrow> rs_Status (fst (serve x A r h)) = 401 \<and> snd (serve x A r h) = h)"
proof -
  let ?inner = "if needs_key x then idempotency (endpoint x) else endpoint x"
  have s: "serve x A r h = ipAllowlist (bearerAuth ?inner) A r h" using assms(1) by (simp add: serve_def Let_def)
  have src: "ipAllowlist nx A r h = (if source_ok then nx A r h
      else (fail A (errForbidden ''source address not allowed''), h))" for nx
    using ipMatches_iff [of _ "auth_IPAllowlist (op_Auth A)"]
    by (cases "parseAllowlist (auth_IPAllowlist (op_Auth A))")
      (auto simp: ipAllowlist_def source_ok_def split: option.splits)
  have tok: "bearerAuth nx A r h = (if token_ok then nx A r h
      else (fail A (errUnauthorized ''missing or invalid bearer token''), h))" for nx
    by (auto simp: bearerAuth_def token_ok_def tokenAllowed_iff split: option.splits)
  show ?thesis
    by (simp add: s src tok fail_def writeError_def writeJSON_def errForbidden_def errUnauthorized_def newAPIError_def)
qed

section \<open>The mutating routes\<close>

lemma reply_ne:
  "rs_Body (fst (reply_job A p)) \<noteq> []"
  "(\<And>x. rs_Body (fst (f x w)) \<noteq> []) \<Longrightarrow> rs_Body (fst (with_body dec ab f A r w)) \<noteq> []"
  by (auto simp: reply_job_def with_body_def fail_def writeError_def writeJSON_def Let_def
      split: prod.splits sum.splits decoded.splits option.splits)

text \<open>The body of a response is never empty, and the handler touches no idempotency record.\<close>

context service_store
begin

lemma mutating_endpoint:
  assumes "needs_key x" "op_VMService A = S" "sinv (w_store (hs_world h))"
  shows "idem_kept view sinv (hs_world h) (hs_world (snd (endpoint x A r h))) \<and> rs_Body (fst (endpoint x A r h)) \<noteq> [] \<and>
    hs_tokens (snd (endpoint x A r h)) = hs_tokens h"
proof -
  have lift: "rs_Body (fst (on_world f h)) \<noteq> [] \<and> hs_tokens (snd (on_world f h)) = hs_tokens h"
    if "rs_Body (fst (f (hs_world h))) \<noteq> []" for f
    using that by (auto simp: on_world_def split: prod.splits)
  have "rs_Body (fst (endpoint x A r h)) \<noteq> [] \<and> hs_tokens (snd (endpoint x A r h)) = hs_tokens h"
    using assms(1)
    by (cases x, simp_all add: needs_key_def)
      (unfold h_create_def h_terminate_def powerOp_def h_password_def h_hostname_def h_rebuild_def h_resize_def
        h_createSnapshot_def h_deleteSnapshot_def h_revertSnapshot_def case_prod_beta, (rule lift reply_ne)+)
  moreover have "idem_kept view sinv (hs_world h) (hs_world (snd (endpoint x A r h)))"
    by (rule idem.ends_endpoint) (use assms in \<open>auto simp: idem_kept_def needs_key_def\<close>)
  ultimately show ?thesis by blast
qed

end

section \<open>Retried requests\<close>

lemma idem_calm:
  assumes "sqlite_calm s"
  shows "sv_idem (sqlite_view s) k = Some rec \<Longrightarrow> now \<le> idr_ExpiresAt rec \<Longrightarrow> GetIdempotency now k s = (Inr rec, s)"
    and "sv_idem (sqlite_view s) k = None \<Longrightarrow> GetIdempotency now k s = (Inl (sentinel_err ErrNotFound), s)"
    and "sv_idem (sqlite_view s) (idr_Key r) = None \<Longrightarrow> \<exists>s'. PutIdempotency now r s = (Inr (idem_created now r), s')"
    and "sv_idem (sqlite_view s) (idr_Key r) = Some old \<Longrightarrow> \<exists>s'. UpdateIdempotency r s = (Inr (), s')"
    and "\<exists>s'. DeleteIdempotency k s = (Inr (), s')"
proof -
  show "sv_idem (sqlite_view s) k = Some rec \<Longrightarrow> now \<le> idr_ExpiresAt rec \<Longrightarrow> GetIdempotency now k s = (Inr rec, s)"
    "sv_idem (sqlite_view s) k = None \<Longrightarrow> GetIdempotency now k s = (Inl (sentinel_err ErrNotFound), s)"
    by (auto simp: GetIdempotency_def driver_calm [OF assms] sqlite_view_def)
  show "\<exists>s'. PutIdempotency now r s = (Inr (idem_created now r), s')" if "sv_idem (sqlite_view s) (idr_Key r) = None"
    using that by (auto simp: PutIdempotency_def driver_calm [OF assms] sqlite_view_def Let_def row_of_None idem_created_def)
  show "\<exists>s'. DeleteIdempotency k s = (Inr (), s')" by (auto simp: DeleteIdempotency_def driver_calm [OF assms])
  show "\<exists>s'. UpdateIdempotency r s = (Inr (), s')" if "sv_idem (sqlite_view s) (idr_Key r) = Some old"
  proof -
    have "\<exists>q\<in>set (db_idem s). irow_key q = idr_Key r"
      using that by (auto simp: sqlite_view_def dest: row_of_SomeD)
    then have "filter (\<lambda>x. irow_key x = idr_Key r) (db_idem s) \<noteq> []" by (auto simp: filter_empty_conv)
    then show ?thesis by (simp add: UpdateIdempotency_def driver_calm [OF assms] requireAffected_def)
  qed
qed

abbreviation idem_of :: "(SQLiteStore, 'c, 'f) world \<Rightarrow> string \<rightharpoonup> IdempotencyRecord" where
  "idem_of w \<equiv> sv_idem (sqlite_view (w_store w))"

abbreviation fine_world :: "(SQLiteStore, 'c, 'f) world \<Rightarrow> bool" where
  "fine_world w \<equiv> sqlite_inv (w_store w) \<and> sqlite_calm (w_store w)"

text \<open>What a request does whose key has a complete record.\<close>

lemma check_recorded:
  assumes S: "sv_store (op_VMService A) = sqlite_ops" and "sqlite_calm (w_store w)"
    and "idem_of w key = Some rec" "w_clock w 0 \<le> idr_ExpiresAt rec" "idr_Response rec \<noteq> []"
  shows "idem_check A key hash w = (Some (if idr_RequestHash rec = hash then replay rec
      else fail A (errConflict ''Idempotency-Key already used with a different request'')),
    snd (time_Now w))"
  using idem_calm(1) [OF assms(2-4)] assms(5)
  by (auto simp: idem_check_def st_GetIdempotency_def time_Now_def on_store_def S idem_verdict_def)

text \<open>A request with a free key claims it.\<close>

lemma claim_unused:
  assumes S: "sv_store (op_VMService A) = sqlite_ops" and ok: "fine_world w" and free: "idem_of w key = None"
  obtains rec w2 where "idem_claim A key hash w = (Inr rec, w2)" "fine_world w2"
    "sqlite_view (w_store w2) = (sqlite_view (w_store w))\<lparr>sv_idem := (idem_of w)(key \<mapsto> rec)\<rparr>"
    "idr_Key rec = key" "idr_RequestHash rec = hash" "idr_ExpiresAt rec = w_clock w 0 + idempotencyTTL"
proof -
  define r0 where "r0 = claim_record key hash (w_clock w 0)"
  have r0: "idr_Key r0 = key" by (simp add: r0_def claim_record_def)
  define rec where "rec = idem_created (w_clock w 1) r0"
  obtain s' where p: "so_PutIdempotency sqlite_ops (w_clock w 1) r0 (w_store w) = (Inr rec, s')"
    using idem_calm(3) [of "w_store w" r0 "w_clock w 1"] ok free r0 by (auto simp: rec_def)
  have laws: "sqlite_inv s'" "sqlite_view s' = (sqlite_view (w_store w))\<lparr>sv_idem := (idem_of w)(key \<mapsto> rec)\<rparr>"
    using sqlite.PutIdem_ok [OF p] ok unfolding r0 rec_def by blast+
  have calm: "sqlite_calm s'" by (rule sqlite.calm_stays [OF conjunct2 [OF ok]]) (fact p)
  define w2 where "w2 = w\<lparr>w_clock := (\<lambda>n. w_clock w (Suc (Suc n))), w_store := s'\<rparr>"
  have cl: "idem_claim A key hash w = (Inr rec, w2)"
    using p by (simp add: idem_claim_def time_Now_def st_PutIdempotency_def on_store_def S r0_def w2_def)
  show thesis
    by (rule that [OF cl]) (use laws calm in \<open>simp_all add: w2_def\<close>,
      simp_all add: rec_def r0_def claim_record_def idem_created_def)
qed

lemma check_free:
  assumes S: "sv_store (op_VMService A) = sqlite_ops" and "fine_world w" "idem_of w key = None"
  shows "idem_check A key hash w = (None, snd (time_Now w))"
  using idem_calm(2) [of "w_store w" key] assms
  by (auto simp: idem_check_def st_GetIdempotency_def time_Now_def on_store_def idem_verdict_def)

lemma finish_records:
  assumes S: "sv_store (op_VMService A) = sqlite_ops" and ok: "fine_world w" and row: "idem_of w (idr_Key rec) = Some rec"
  shows "fine_world (idem_finish A rec resp w) \<and>
    sqlite_view (w_store (idem_finish A rec resp w)) = (sqlite_view (w_store w))\<lparr>sv_idem := (idem_of w)(idr_Key rec \<mapsto>
      rec\<lparr>idr_Response := rs_Body resp, idr_StatusCode := rs_Status resp\<rparr>)\<rparr>"
proof -
  define r1 where "r1 = rec\<lparr>idr_Response := rs_Body resp, idr_StatusCode := rs_Status resp\<rparr>"
  have k: "idr_Key r1 = idr_Key rec" "idem_written rec r1 = r1" by (simp_all add: r1_def idem_written_def)
  obtain s' where u: "so_UpdateIdempotency sqlite_ops r1 (w_store w) = (Inr (), s')"
    using idem_calm(4) [of "w_store w" r1 rec] ok row by (auto simp: k)
  have "sqlite_inv s'" and vw: "sqlite_view s' = (sqlite_view (w_store w))\<lparr>sv_idem := (idem_of w)(idr_Key rec \<mapsto> r1)\<rparr>"
    using sqlite.UpdateIdem_ok [OF u] ok row k by auto
  moreover have "sqlite_calm s'" by (rule sqlite.calm_stays [OF conjunct2 [OF ok]]) (fact u)
  ultimately show ?thesis
    using u by (simp add: idem_finish_def st_UpdateIdempotency_def on_store_def S r1_def [symmetric])
qed

lemma recorded_replays:
  assumes "sv_store (op_VMService A) = sqlite_ops" "sqlite_calm (w_store (hs_world h))"
    and "idem_of (hs_world h) key = Some rec" "w_clock (hs_world h) 0 \<le> idr_ExpiresAt rec" "idr_Response rec \<noteq> []"
    and "rq_Header r ''Idempotency-Key'' = key" "key \<noteq> []" "read_body r = Some body"
  shows "idempotency next A r h = ((if idr_RequestHash rec = hashRequest (op_sha256 A) (rq_Method r) (rq_Path r) body
      then replay rec else fail A (errConflict ''Idempotency-Key already used with a different request'')),
      h\<lparr>hs_world := snd (time_Now (hs_world h))\<rparr>)"
  using check_recorded [OF assms(1-4), of "hashRequest (op_sha256 A) (rq_Method r) (rq_Path r) body"] assms(5-8)
  by (simp add: idempotency_def Let_def on_world_def)



section \<open>An abandoned claim\<close>

lemma delete_claim:
  assumes "sv_store (op_VMService A) = sqlite_ops" "fine_world v"
  shows "\<exists>v'. st_DeleteIdempotency (op_VMService A) key v = (Inr (), v') \<and> fine_world v' \<and> idem_of v' key = None"
proof -
  obtain s' where d: "so_DeleteIdempotency sqlite_ops key (w_store v) = (Inr (), s')"
    using idem_calm(5) [OF conjunct2 [OF assms(2)]] by auto
  have "sqlite_inv s' \<and> sv_idem (sqlite_view s') key = None"
    using sqlite.DeleteIdem_ok [OF d] assms(2) by auto
  moreover have "sqlite_calm s'" by (rule sqlite.calm_stays [OF conjunct2 [OF assms(2)]]) (fact d)
  ultimately show ?thesis using d by (simp add: st_DeleteIdempotency_def on_store_def assms(1))
qed

text \<open>(C39) The lock that an idempotency key is meant to be does not hold when an abandoned claim is
  taken over. Two requests with the same key and body arrive after a claim has gone stale: B
  looks the key up and judges it abandoned; A does the same, removes the stale claim and claims
  the key; B then removes the claim, which is now A's, and claims the key too. Both go on to
  run their handlers.\<close>

theorem stale_claim_race:
  assumes "sv_store (op_VMService A) = sqlite_ops" "sqlite_inv (w_store w)" "sqlite_calm (w_store w)"
    and "sv_idem (sqlite_view (w_store w)) key = Some old" "idr_RequestHash old = hash" "idr_Response old = []"
    and "\<forall>n. w_clock w n \<le> idr_ExpiresAt old" "\<forall>n. w_clock w n - idr_CreatedAt old > staleClaimWindow"
  shows "\<exists>got w1 w2 w3 recA w4 w5 recB w6.
    st_GetIdempotency (op_VMService A) key w = (got, w1) \<and> idem_verdict A hash got w1 = (Abandoned, w2) \<and>
    idem_check A key hash w2 = (None, w3) \<and> idem_claim A key hash w3 = (Inr recA, w4) \<and>
    st_DeleteIdempotency (op_VMService A) key w4 = (Inr (), w5) \<and> idem_claim A key hash w5 = (Inr recB, w6)"
proof -
  note S = assms(1)
  have get: "st_GetIdempotency (op_VMService A) key v = (Inr old, snd (time_Now v))"
    if "w_store v = w_store w" "\<forall>n. w_clock v n \<le> idr_ExpiresAt old" for v
    using idem_calm(1) [OF assms(3,4), of "w_clock v 0"] that by (simp add: st_GetIdempotency_def time_Now_def on_store_def S)
  have stale: "idem_verdict A hash (Inr old) v = (Abandoned, snd (time_Now v))"
    if "\<forall>n. w_clock v n - idr_CreatedAt old > staleClaimWindow" for v
    using that assms(5,6) by (simp add: idem_verdict_def time_Now_def not_le)
  note del = delete_claim [OF S, where key = key]
  define w1 w2 where "w1 = snd (time_Now w)" and "w2 = snd (time_Now w1)"
  define w2a w2b where "w2a = snd (time_Now w2)" and "w2b = snd (time_Now w2a)"
  have st: "w_store w1 = w_store w" "w_store w2 = w_store w" "w_store w2b = w_store w"
    by (simp_all add: w1_def w2_def w2a_def w2b_def time_Now_def)
  have clk: "\<forall>n. \<exists>m. w_clock w1 n = w_clock w m" "\<forall>n. \<exists>m. w_clock w2 n = w_clock w m" "\<forall>n. \<exists>m. w_clock w2a n = w_clock w m"
    by (auto simp: w1_def w2_def w2a_def time_Now_def)
  obtain w3 where d3: "st_DeleteIdempotency (op_VMService A) key w2b = (Inr (), w3)" "fine_world w3" "idem_of w3 key = None"
    using del [of w2b] assms(2,3) by (auto simp: st)
  have "st_GetIdempotency (op_VMService A) key w2 = (Inr old, w2a)" unfolding w2a_def
    by (rule get) (use st clk(2) assms(7) in \<open>auto, metis\<close>)
  moreover have "idem_verdict A hash (Inr old) w2a = (Abandoned, w2b)" unfolding w2b_def
    by (rule stale) (use clk(3) assms(8) in metis)
  ultimately have A1: "idem_check A key hash w2 = (None, w3)" by (simp add: idem_check_def d3(1))
  have claim: "\<exists>rec v'. idem_claim A key hash v = (Inr rec, v') \<and> fine_world v'"
    if "fine_world v" "idem_of v key = None" for v
    by (rule claim_unused [OF S that]) blast
  obtain recA w4 where A2: "idem_claim A key hash w3 = (Inr recA, w4)" "fine_world w4" using claim [OF d3(2,3)] by blast
  obtain w5 where B1: "st_DeleteIdempotency (op_VMService A) key w4 = (Inr (), w5)" "fine_world w5" "idem_of w5 key = None"
    using del [OF A2(2)] by blast
  obtain recB w6 where B2: "idem_claim A key hash w5 = (Inr recB, w6)" using claim [OF B1(2,3)] by blast
  have B0: "st_GetIdempotency (op_VMService A) key w = (Inr old, w1)" unfolding w1_def by (rule get) (use assms(7) in auto)
  have "idem_verdict A hash (Inr old) w1 = (Abandoned, w2)" unfolding w2_def
    by (rule stale) (use clk(1) assms(8) in metis)
  then show ?thesis using B0 A1 A2(1) B1(1) B2 by blast
qed


section \<open>Errors, hashes, consoles\<close>

text \<open>The errors a client is told about.\<close>

definition public_error :: "goerr \<Rightarrow> bool" where
  "public_error e \<longleftrightarrow> (\<exists>s\<in>{ErrFlavorNotFound, ErrImageNotFound, ErrNetworkNotFound, ErrInvalidRequest, ErrVMNotFound,
     ErrVMTerminated, ErrVMNotRunning, ErrInsufficientCapacity, ErrNoIPAvailable}. errors_Is e s)"


text \<open>The text that is hashed for an idempotency key determines the request: methods and paths
  without a line break give the same text only for the same method, path and body.\<close>

lemma hash_input_injective:
  assumes "CHR 0x0A \<notin> set m" "CHR 0x0A \<notin> set m'" "CHR 0x0A \<notin> set p" "CHR 0x0A \<notin> set p'"
  shows "hash_input m p b = hash_input m' p' b' \<longleftrightarrow> m = m' \<and> p = p' \<and> b = b'"
  using assms sep_append_inj [of m "CHR 0x0A" "p @ [CHR 0x0A] @ b" m' "p' @ [CHR 0x0A] @ b'"]
    sep_append_inj [of p "CHR 0x0A" b p' b'] by (auto simp: hash_input_def)


text \<open>What a handler writes in any sequence of calls is what the middleware records and what the client
  gets: the two never differ.\<close>

datatype write_call = CallHeader int | CallWrite string

fun do_call :: "write_call \<Rightarrow> responseCapture \<Rightarrow> responseCapture" where
  "do_call (CallHeader code) c = capture_WriteHeader code c"
| "do_call (CallWrite b) c = capture_Write b c"

lemma capture_agrees:
  defines "tees \<equiv> \<lambda>c. hw_body (rc_ResponseWriter c) = rc_body c \<and>
    hw_status (rc_ResponseWriter c) = (if rc_wroteHeader c then Some (rc_status c) else None)"
  shows "tees (fold do_call calls new_capture)"
proof -
  have "tees (do_call x c)" if "tees c" for x c
    using that by (cases x) (auto simp: tees_def capture_Write_def capture_WriteHeader_def http_Write_def http_WriteHeader_def Let_def)
  then have "tees c \<Longrightarrow> tees (fold do_call calls c)" for c by (induction calls arbitrary: c) auto
  moreover have "tees new_capture" by (simp add: tees_def new_capture_def)
  ultimately show ?thesis by blast
qed

text \<open>The access log does not depend on the console token in the path of a request.\<close>

lemma log_hides_token:
  "requestLogger ms q (r\<lparr>rq_Path := ''/console/ws/'' @ tok\<rparr>) resp = requestLogger ms q (r\<lparr>rq_Path := ''/console/ws/'' @ tok'\<rparr>) resp"
  by (simp add: requestLogger_def redactPath_def HasPrefix_def Let_def)

section \<open>A concrete API\<close>

definition demo_api :: "(SQLiteStore, Fake, unit) Options" where
  "demo_api = \<lparr>op_Ready = Some (on_conn (co_Ping fake_ops)), op_Auth = \<lparr>auth_Tokens = [''secret''], auth_IPAllowlist = [''10.0.0.0/8'']\<rparr>,
     op_Catalog = catalog_New demo_config, op_VMService = demo_service, op_Version = ''dev'',
     op_fmt = \<lparr>jf_float = (\<lambda>r. ''0''), jf_time = (\<lambda>t. Itoa t)\<rparr>, op_sha256 = map (\<lambda>c. of_nat (of_char c))\<rparr>"

definition demo_http :: "VM \<Rightarrow> (SQLiteStore, Fake, unit) hstate" where
  "demo_http v = \<lparr>hs_world = vm_world v, hs_tokens = NewTokenStore consoleTokenTTL\<rparr>"

definition demo_request_to :: "string \<Rightarrow> Request" where
  "demo_request_to auth = \<lparr>rq_Method = ''POST'', rq_Path = ''/v1/vms/v1/start'',
     rq_Header = (\<lambda>k. if k = ''Authorization'' then auth else if k = ''Idempotency-Key'' then ''k1'' else []),
     rq_Query = (\<lambda>_. []), rq_Param = (\<lambda>_. ''v1''), rq_RemoteAddr = ''10.1.2.3:4711'', rq_Body = [], rq_BodyErr = False\<rparr>"

theorem v1_requires_permission_witness:
  "rs_Status (fst (serve VMStart demo_api (demo_request_to ''Bearer wrong'') (demo_http demo_vm))) \<in> {401, 403} \<and>
   snd (serve VMStart demo_api (demo_request_to ''Bearer wrong'') (demo_http demo_vm)) = demo_http demo_vm"
proof -
  have "bearerToken (demo_request_to ''Bearer wrong'') = Some ''wrong''" by code_simp
  then have "\<not> (\<exists>tok\<in>set (auth_Tokens (op_Auth demo_api)). bearerToken (demo_request_to ''Bearer wrong'') = Some tok)"
    by (simp add: demo_api_def)
  moreover have "in_v1 VMStart" by (simp add: in_v1_def)
  ultimately show ?thesis
    using v1_requires_permission [of VMStart demo_api "demo_request_to ''Bearer wrong''" "demo_http demo_vm"] by blast
qed


definition stale_world :: "(SQLiteStore, Fake, unit) world" where
  "stale_world = demo_world\<lparr>w_store := empty_store\<lparr>db_idem := [idem_values (claim_record ''k1'' ''h'' 0\<lparr>idr_CreatedAt := 0\<rparr>)]\<rparr>,
     w_clock := (\<lambda>_. 16 * minute)\<rparr>"

theorem stale_claim_race_witness:
  "\<exists>w3 recA w4 w5 recB w6. idem_claim demo_api ''k1'' ''h'' w3 = (Inr recA, w4) \<and>
     st_DeleteIdempotency demo_service ''k1'' w4 = (Inr (), w5) \<and> idem_claim demo_api ''k1'' ''h'' w5 = (Inr recB, w6)"
proof -
  define old where "old = claim_record ''k1'' ''h'' 0\<lparr>idr_CreatedAt := 0\<rparr>"
  have ok: "sqlite_inv (w_store stale_world)" "sqlite_calm (w_store stale_world)"
    by (simp_all add: stale_world_def empty_store_def sqlite_inv_def sqlite_calm_def)
  have "irow_key (idem_values old) = ''k1''" "scanIdem (idem_values old) = old"
    by (simp_all add: irow_key_def idem_values_def scanIdem_def old_def claim_record_def)
  then have row: "sv_idem (sqlite_view (w_store stale_world)) ''k1'' = Some old"
    by (simp add: stale_world_def empty_store_def sqlite_view_def row_of_Cons old_def [symmetric])
  have S: "sv_store (op_VMService demo_api) = sqlite_ops" "op_VMService demo_api = demo_service" by (simp_all add: demo_api_def)
  have o: "idr_RequestHash old = ''h''" "idr_Response old = []" "\<forall>n. w_clock stale_world n \<le> idr_ExpiresAt old"
    "\<forall>n. w_clock stale_world n - idr_CreatedAt old > staleClaimWindow"
    by (simp_all add: old_def claim_record_def stale_world_def idempotencyTTL_def hour_def minute_def staleClaimWindow_def second_def)
  show ?thesis using stale_claim_race [OF S(1) ok row o] unfolding S(2) by blast
qed

lemma demo_console:
  "ConsoleEndpoint demo_service ''v1'' (vm_world demo_vm) = (Inr (''127.0.0.1'', 5901), vm_world demo_vm)"
proof -
  have "st_GetVM demo_service ''v1'' (vm_world demo_vm) = (Inr demo_vm, vm_world demo_vm)"
    by (rule agent.st_GetVM_calm [where S = demo_service, unfolded with_sqlite [OF demo_store(1)]])
      (simp_all add: demo_vm_def)
  moreover have "w_conn (vm_world demo_vm) = NewFake\<lparr>f_domains := [(''kvm-v1'', demo_domain)]\<rparr>"
    "vm_Status demo_vm = VMStatusRunning" "vm_DomainName demo_vm = ''kvm-v1''"
    by (simp_all add: vm_world_def demo_vm_def)
  ultimately show ?thesis
    by (simp add: ConsoleEndpoint_def loadOperable_def conn_state_def on_conn_def fake_DomainState_def
        fake_DomainVNCAddress_def demo_domain_def)
qed



end
