(* ===== verification/GoJsonProps.thy ===== *)
theory GoJsonProps
  imports GoJson
begin

text \<open>
  What the encoder writes, the decoder reads back. \<open>as_read\<close> is the value a decoder sees: an instant
  has become a string and a float a number. How those two are printed is a parameter, about which
  \<open>fmt_ok\<close> states what the documentation of \<open>encoding/json\<close> and \<open>time\<close> says: a float is printed as a
  JSON number, an instant without a character that would have to be escaped.
\<close>

section \<open>Strings\<close>

lemma hex_digit_char: "k < 16 \<Longrightarrow> hex_digit (digit_char k) = Some k"
  by (simp add: hex_digit_def digit_char_def)

lemma append_one [simp]: "(@) [x] = (#) x"
  by (rule ext) simp

lemma char_code: "(of_char c :: nat) = of_char d \<Longrightarrow> c = d"
  by (simp only: of_char_eq_iff)

lemma read_u_control:
  assumes "n < 0x80"
  shows "read_u (''00'' @ hex2 (of_nat n) @ rest) = Some ([char_of n], rest)"
proof -
  have u: "unat (of_nat n :: 8 word) = n" using assms by (simp add: unat_of_nat)
  have z: "hex_digit (CHR ''0'') = Some 0" by (simp add: hex_digit_def)
  have d: "hex_digit (digit_char (n div 16)) = Some (n div 16)" "hex_digit (digit_char (n mod 16)) = Some (n mod 16)"
    using assms by (intro hex_digit_char; simp)+
  have "hex4 (''00'' @ hex2 (of_nat n) @ rest) = Some n" by (simp add: hex4_def hex2_def u z d)
  then show ?thesis using assms by (simp add: read_u_def hex2_def utf8_def)
qed

lemma read_u_sep: "read_u (''2028'' @ rest) = Some (line_sep 0xA8, rest)" "read_u (''2029'' @ rest) = Some (line_sep 0xA9, rest)"
  by (simp_all add: read_u_def hex4_def hex_digit_def utf8_def line_sep_def)

text \<open>One escaped byte is read back as that byte.\<close>

lemma read_json_char:
  "read_string (Suc n) (json_char c @ rest) = map_option (apfst (Cons c)) (read_string n rest)"
proof -
  let ?k = "of_char c :: nat"
  consider "?k = 34 \<or> ?k = 92" | "?k = 8" | "?k = 12" | "?k = 10" | "?k = 13" | "?k = 9"
    | "?k \<in> set ([0..<32] @ [38, 60, 62])" "?k \<notin> {8, 9, 10, 12, 13}"
    | "?k \<ge> 32" "?k \<notin> {34, 38, 60, 62, 92}" by force
  then show ?thesis
  proof cases
    case 1
    then have "c = CHR 0x22 \<or> c = CHR 0x5C" using char_code [of c "CHR 0x22"] char_code [of c "CHR 0x5C"] by auto
    then show ?thesis by (auto simp: json_char_def simple_escape_def)
  next
    case 2
    then have "c = CHR 0x08" by (intro char_code) simp
    then show ?thesis by (simp add: json_char_def simple_escape_def)
  next
    case 3
    then have "c = CHR 0x0C" by (intro char_code) simp
    then show ?thesis by (simp add: json_char_def simple_escape_def)
  next
    case 4
    then have "c = CHR 0x0A" by (intro char_code) simp
    then show ?thesis by (simp add: json_char_def simple_escape_def)
  next
    case 5
    then have "c = CHR 0x0D" by (intro char_code) simp
    then show ?thesis by (simp add: json_char_def simple_escape_def)
  next
    case 6
    then have "c = CHR 0x09" by (intro char_code) simp
    then show ?thesis by (simp add: json_char_def simple_escape_def)
  next
    case 7
    then have j: "json_char c = CHR 0x5C # CHR ''u'' # ''00'' @ hex2 (of_nat ?k)"
      by (auto simp: json_char_def Let_def)
    have "read_u (''00'' @ hex2 (of_nat ?k) @ rest) = Some ([c], rest)" using read_u_control [of ?k rest] 7 by auto
    then show ?thesis by (simp add: j)
  next
    case 8
    then have "json_char c = [c]" "c \<noteq> CHR 0x22" "c \<noteq> CHR 0x5C" by (auto simp: json_char_def Let_def)
    then show ?thesis using 8 by simp
  qed
qed

lemma json_char_ne: "length (json_char c) > 0"
  by (simp add: json_char_def Let_def)

lemma read_sep_step:
  assumes "\<And>rest. read_u (u @ rest) = Some (line_sep k, rest)"
  shows "read_string (Suc n) (CHR 0x5C # CHR ''u'' # u @ rest) = map_option (apfst (append (line_sep k))) (read_string n rest)"
  by (simp add: assms)

lemma read_json_escape:
  "length (json_escape s) < n \<Longrightarrow> read_string n (json_escape s @ CHR 0x22 # rest) = Some (s, rest)"
proof (induction s arbitrary: n rule: json_escape.induct)
  case (1 s)
  obtain m where n: "n = Suc m" using "1.prems" by (cases n) auto
  show ?case
  proof (cases s)
    case Nil
    then show ?thesis by (simp add: json_escape.simps [of "[]"] n)
  next
    case (Cons c cs)
    note eq = json_escape.simps [of s]
    have sep: "line_sep k @ drop 2 cs = s" if "take 3 s = line_sep k" for k
      using that append_take_drop_id [of 3 s] by (simp add: Cons)
    consider (a) "take 3 s = line_sep 0xA8" | (b) "take 3 s \<noteq> line_sep 0xA8" "take 3 s = line_sep 0xA9"
      | (c) "take 3 s \<noteq> line_sep 0xA8" "take 3 s \<noteq> line_sep 0xA9" by blast
    then show ?thesis
    proof cases
      case a
      then have e: "json_escape s = CHR 0x5C # CHR ''u'' # ''2028'' @ json_escape (drop 2 cs)" using eq by (simp add: Cons)
      have "read_string m (json_escape (drop 2 cs) @ CHR 0x22 # rest) = Some (drop 2 cs, rest)"
        using "1.IH"(1) [OF Cons a] "1.prems" by (simp add: e n)
      then show ?thesis
        using read_sep_step [OF read_u_sep(1), of m "json_escape (drop 2 cs) @ CHR 0x22 # rest"] sep [OF a] by (simp add: e n)
    next
      case b
      then have e: "json_escape s = CHR 0x5C # CHR ''u'' # ''2029'' @ json_escape (drop 2 cs)" using eq by (simp add: Cons)
      have "read_string m (json_escape (drop 2 cs) @ CHR 0x22 # rest) = Some (drop 2 cs, rest)"
        using "1.IH"(2) [OF Cons b] "1.prems" by (simp add: e n)
      then show ?thesis
        using read_sep_step [OF read_u_sep(2), of m "json_escape (drop 2 cs) @ CHR 0x22 # rest"] sep [OF b(2)] by (simp add: e n)
    next
      case c
      then have e: "json_escape s = json_char c @ json_escape cs" using eq by (simp add: Cons)
      have "length (json_escape cs) < m" using "1.prems" json_char_ne [of c] by (simp add: e n del: length_greater_0_conv)
      then have "read_string m (json_escape cs @ CHR 0x22 # rest) = Some (cs, rest)"
        using "1.IH"(3) [OF Cons c] by simp
      then show ?thesis unfolding e n append_assoc read_json_char by (simp add: Cons)
    qed
  qed
qed

section \<open>Numbers\<close>

text \<open>What may follow a value in a document.\<close>

definition value_end :: "string \<Rightarrow> bool" where
  "value_end rest \<longleftrightarrow> rest = [] \<or> hd rest \<in> {CHR '','', CHR '']'', CHR 0x7D, CHR 0x0A}"

lemma char_zero: "char_of (48 :: nat) = CHR ''0''"
  by (rule char_code) simp

lemma dec_of_nat_hd: "hd (dec_of_nat n) = CHR ''0'' \<longleftrightarrow> n = 0"
proof (induction n rule: dec_of_nat.induct)
  case (1 n)
  have z: "digit_char n = CHR ''0'' \<longleftrightarrow> n = 0" if "n < 10"
  proof -
    have "digit_char n = CHR ''0'' \<longleftrightarrow> (of_char (digit_char n) :: nat) = of_char (CHR ''0'')" by (simp only: of_char_eq_iff)
    then show ?thesis by (simp add: of_digit_char [OF that])
  qed
  show ?case using 1 z by (cases "n < 10") (auto simp: dec_of_nat.simps [of n] hd_append)
qed

lemma number_chars: "value_end rest \<Longrightarrow> takeWhile is_digit rest = [] \<and> dropWhile is_digit rest = rest \<and>
    take 1 rest \<noteq> ''.'' \<and> take 1 rest \<noteq> ''e'' \<and> take 1 rest \<noteq> ''E''"
  by (cases rest) (auto simp: value_end_def is_digit_def)

lemma takeWhile_digits:
  "value_end rest \<Longrightarrow> takeWhile is_digit (dec_of_nat n @ rest) = dec_of_nat n \<and> dropWhile is_digit (dec_of_nat n @ rest) = rest"
  using dec_of_nat_digits [of n] number_chars [of rest] by (simp add: takeWhile_append dropWhile_append)

lemma read_number_Itoa:
  assumes "value_end rest"
  shows "read_number (Itoa i @ rest) = Some (JInt i, rest)"
proof -
  define n where "n = nat \<bar>i\<bar>"
  have nat: "(if neg then - int n else int n) = i \<Longrightarrow>
      read_number ((if neg then ''-'' else []) @ dec_of_nat n @ rest) = Some (JInt i, rest)" for neg
  proof -
    assume i: "(if neg then - int n else int n) = i"
    let ?ds = "dec_of_nat n"
    have d: "takeWhile is_digit (?ds @ rest) = ?ds" "dropWhile is_digit (?ds @ rest) = rest" using takeWhile_digits [OF assms] by auto
    have z: "hd ?ds = CHR ''0'' \<Longrightarrow> ?ds = ''0''" by (simp add: dec_of_nat_hd dec_of_nat.simps [of 0] digit_char_def char_zero)
    have m: "take 1 (?ds @ rest) \<noteq> ''-''"
      using dec_of_nat_digits [of n] by (cases ?ds) (auto simp: is_digit_def)
    define s where "s = (if neg then ''-'' else []) @ ?ds @ rest"
    have s: "(take 1 s = ''-'') = neg" "(if neg then drop 1 s else s) = ?ds @ rest" using m by (simp_all add: s_def)
    have p: "(if hd ?ds = CHR ''0'' then ([CHR ''0''], drop 1 (?ds @ rest)) else (?ds, rest)) = (?ds, rest)"
      using z by (cases "hd ?ds = CHR ''0''") simp_all
    show ?thesis
      unfolding s_def [symmetric] read_number_def Let_def s d p prod.case
      using number_chars [OF assms] i by (cases neg) simp_all
  qed
  show ?thesis
  proof (cases "i < 0")
    case True
    then show ?thesis using nat [of True] by (simp add: Itoa_def n_def)
  next
    case False
    then show ?thesis using nat [of False] by (simp add: Itoa_def n_def)
  qed
qed

section \<open>Documents\<close>

definition plain_char :: "char \<Rightarrow> bool" where
  "plain_char c \<longleftrightarrow> 32 \<le> (of_char c :: nat) \<and> c \<noteq> CHR 0x22 \<and> c \<noteq> CHR 0x5C"

definition fmt_ok :: "json_fmt \<Rightarrow> (rat \<Rightarrow> json) \<Rightarrow> bool" where
  "fmt_ok fm fl \<longleftrightarrow> (\<forall>r rest. value_end rest \<longrightarrow> read_number (jf_float fm r @ rest) = Some (fl r, rest)) \<and>
     (\<forall>t. list_all plain_char (jf_time fm t))"

fun as_read :: "json_fmt \<Rightarrow> (rat \<Rightarrow> json) \<Rightarrow> json \<Rightarrow> json" where
  "as_read fm fl (JFloat r) = fl r"
| "as_read fm fl (JTime t) = JStr (jf_time fm t)"
| "as_read fm fl (JArr js) = JArr (map (as_read fm fl) js)"
| "as_read fm fl (JObj kvs) = JObj (map (\<lambda>kv. (fst kv, as_read fm fl (snd kv))) kvs)"
| "as_read fm fl j = j"

text \<open>The nesting of a document, and that no number stands in it as text, as only a decoder makes them.\<close>

fun json_depth :: "json \<Rightarrow> nat" where
  "json_depth (JArr js) = Suc (foldr max (map json_depth js) 0)"
| "json_depth (JObj kvs) = Suc (foldr max (map (\<lambda>kv. json_depth (snd kv)) kvs) 0)"
| "json_depth j = 0"

fun encodable :: "json \<Rightarrow> bool" where
  "encodable (JNum t) = False"
| "encodable (JArr js) = list_all encodable js"
| "encodable (JObj kvs) = list_all (\<lambda>kv. encodable (snd kv)) kvs"
| "encodable j = True"

lemma read_plain:
  "list_all plain_char s \<Longrightarrow> length s < n \<Longrightarrow> read_string n (s @ CHR 0x22 # rest) = Some (s, rest)"
proof (induction s arbitrary: n)
  case Nil
  then show ?case by (cases n) simp_all
next
  case (Cons c s)
  then obtain m where "n = Suc m" by (cases n) auto
  with Cons show ?case by (simp add: plain_char_def)
qed

lemma read_number_hd: "read_number s = Some p \<Longrightarrow> s \<noteq> [] \<and> (hd s = CHR ''-'' \<or> is_digit (hd s))"
  by (cases s) (auto simp: read_number_def Let_def split: if_splits)

lemma number_text:
  assumes "read_number (t @ rest) = Some p" "read_number t = Some p'"
  shows "\<exists>c cs. t = c # cs \<and> \<not> json_space c \<and> c \<noteq> CHR '']'' \<and>
    (\<forall>n d. read_value (Suc n) d (t @ rest) = Some p)"
proof -
  obtain c cs where t: "t = c # cs" "c = CHR ''-'' \<or> is_digit c" using read_number_hd [OF assms(2)] by (cases t) auto
  then have "\<not> json_space c" "c \<notin> {CHR 0x22, CHR ''['', CHR '']'', CHR 0x7B, CHR ''t'', CHR ''f'', CHR ''n''}"
    by (auto simp: json_space_def is_digit_def)
  with t assms(1) show ?thesis by (simp add: skip_ws_def)
qed

lemma value_end_simps [simp]: "value_end []" "value_end (CHR '','' # s)" "value_end (CHR '']'' # s)" "value_end (CHR 0x7D # s)" "value_end [CHR 0x0A]"
  by (simp_all add: value_end_def)

lemma text_hd:
  assumes "fmt_ok fm fl" "encodable j"
  obtains c cs where "json_text fm j = c # cs" "\<not> json_space c" "c \<noteq> CHR '']''"
proof (cases j)
  case (JInt i)
  have "read_number (Itoa i @ []) = Some (JInt i, [])" by (rule read_number_Itoa) simp
  from number_text [OF this] this show ?thesis using that JInt by auto
next
  case (JFloat r)
  have "read_number (jf_float fm r @ []) = Some (fl r, [])" using assms(1) unfolding fmt_ok_def by (metis value_end_simps(1))
  from number_text [OF this] this show ?thesis using that JFloat by auto
next
  case (JBool b)
  then show ?thesis using that by (cases b) (auto simp: json_space_def)
qed (use that assms(2) in \<open>auto simp: json_string_def json_space_def split: if_splits\<close>)

lemma skip_text: "json_text fm j = c # cs \<Longrightarrow> \<not> json_space c \<Longrightarrow> skip_ws (json_text fm j @ s) = json_text fm j @ s"
  by (simp add: skip_ws_def)

lemma skip_delims [simp]: "skip_ws (CHR '','' # s) = CHR '','' # s" "skip_ws (CHR '']'' # s) = CHR '']'' # s"
  "skip_ws (CHR 0x7D # s) = CHR 0x7D # s" "skip_ws (CHR '':'' # s) = CHR '':'' # s" "skip_ws (CHR 0x22 # s) = CHR 0x22 # s"
  by (simp_all add: skip_ws_def json_space_def)

text \<open>One element or member after the other.\<close>

lemma read_elems_text:
  assumes "\<And>j n rest. j \<in> set js \<Longrightarrow> value_end rest \<Longrightarrow> 2 * length (json_text fm j) \<le> n \<Longrightarrow>
      read_value n d (json_text fm j @ rest) = Some (as_read fm fl j, rest)"
    and "js \<noteq> []" "2 * length (join_with '','' (map (json_text fm) js)) < n"
  shows "read_elems n d (join_with '','' (map (json_text fm) js) @ CHR '']'' # rest) = Some (map (as_read fm fl) js, rest)"
  using assms
proof (induction js arbitrary: n)
  case (Cons j js)
  obtain m where n: "n = Suc m" using Cons.prems(3) by (cases n) auto
  show ?case
  proof (cases js)
    case Nil
    have "read_value m d (json_text fm j @ CHR '']'' # rest) = Some (as_read fm fl j, CHR '']'' # rest)"
      using Cons.prems(3) by (intro Cons.prems(1)) (simp_all add: Nil n)
    then show ?thesis by (simp add: Nil n)
  next
    case (Cons j' js')
    let ?more = "join_with '','' (map (json_text fm) js)"
    have join: "join_with '','' (map (json_text fm) (j # js)) = json_text fm j @ '','' @ ?more" by (simp add: Cons)
    have len: "2 * length (json_text fm j) \<le> m" "2 * length ?more < m" using Cons.prems(3) [unfolded join n] by simp_all
    have "read_value m d (json_text fm j @ CHR '','' # ?more @ CHR '']'' # rest) =
        Some (as_read fm fl j, CHR '','' # ?more @ CHR '']'' # rest)"
      using len(1) by (intro Cons.prems(1)) simp_all
    moreover have "read_elems m d (?more @ CHR '']'' # rest) = Some (map (as_read fm fl) js, rest)"
      using len(2) Cons.prems(1) by (intro Cons.IH) (simp_all add: Cons)
    ultimately show ?thesis unfolding join n by simp
  qed
qed simp

definition member_text :: "json_fmt \<Rightarrow> string \<times> json \<Rightarrow> string" where
  "member_text fm kv = json_string (fst kv) @ '':'' @ json_text fm (snd kv)"

lemma read_member:
  assumes "\<And>rest. value_end rest \<Longrightarrow> read_value m d (json_text fm (snd kv) @ rest) = Some (as_read fm fl (snd kv), rest)"
    and "c = CHR '','' \<or> c = CHR 0x7D"
  shows "read_members (Suc m) d (member_text fm kv @ c # s) =
    (if c = CHR 0x7D then Some ([(fst kv, as_read fm fl (snd kv))], s)
     else map_option (apfst (Cons (fst kv, as_read fm fl (snd kv)))) (read_members m d s))"
proof -
  let ?tail = "CHR '':'' # json_text fm (snd kv) @ c # s"
  define ks where "ks = json_escape (fst kv) @ CHR 0x22 # ?tail"
  have k: "read_string (length ks) ks = Some (fst kv, ?tail)" unfolding ks_def by (rule read_json_escape) simp
  have t: "member_text fm kv @ c # s = CHR 0x22 # ks" by (simp add: ks_def member_text_def json_string_def)
  have v: "read_value m d (json_text fm (snd kv) @ c # s) = Some (as_read fm fl (snd kv), c # s)"
    using assms(2) by (intro assms(1)) auto
  show ?thesis unfolding t using assms(2) by (auto simp: k v)
qed

lemma read_members_text:
  assumes "\<And>kv n rest. kv \<in> set kvs \<Longrightarrow> value_end rest \<Longrightarrow> 2 * length (json_text fm (snd kv)) \<le> n \<Longrightarrow>
      read_value n d (json_text fm (snd kv) @ rest) = Some (as_read fm fl (snd kv), rest)"
    and "kvs \<noteq> []" "2 * length (join_with '','' (map (member_text fm) kvs)) < n"
  shows "read_members n d (join_with '','' (map (member_text fm) kvs) @ CHR 0x7D # rest) =
    Some (map (\<lambda>kv. (fst kv, as_read fm fl (snd kv))) kvs, rest)"
  using assms
proof (induction kvs arbitrary: n)
  case (Cons kv kvs)
  obtain m where n: "n = Suc m" using Cons.prems(3) by (cases n) auto
  let ?more = "join_with '','' (map (member_text fm) kvs)"
  have len: "2 * length (json_text fm (snd kv)) \<le> m"
    using Cons.prems(3) by (cases kvs) (simp_all add: n member_text_def)
  have v: "read_value m d (json_text fm (snd kv) @ rest) = Some (as_read fm fl (snd kv), rest)" if "value_end rest" for rest
    using that len by (intro Cons.prems(1)) simp_all
  show ?case
  proof (cases kvs)
    case Nil
    then show ?thesis using read_member [OF v, of "CHR 0x7D" rest] by (simp add: n)
  next
    case (Cons kv' kvs')
    have join: "join_with '','' (map (member_text fm) (kv # kvs)) = member_text fm kv @ '','' @ ?more" by (simp add: Cons)
    have "read_members m d (?more @ CHR 0x7D # rest) = Some (map (\<lambda>kv. (fst kv, as_read fm fl (snd kv))) kvs, rest)"
      using Cons.prems(1) Cons.prems(3) [unfolded join n] by (intro Cons.IH) (simp_all add: Cons)
    then show ?thesis
      unfolding join n using read_member [OF v, of "CHR '',''" "?more @ CHR 0x7D # rest"] by simp
  qed
qed simp

lemma depth_member: "x \<in> set xs \<Longrightarrow> f x \<le> foldr max (map f xs) (0 :: nat)"
  by (induction xs) auto

lemma member_hd: "join_with '','' (map (member_text fm) (kv # kvs)) = CHR 0x22 # tl (join_with '','' (map (member_text fm) (kv # kvs)))"
  by (cases kvs) (simp_all add: member_text_def json_string_def)

lemma join_hd: "t = c # cs \<Longrightarrow> \<exists>cs'. join_with sep (t # ts) = c # cs'"
  by (cases ts) simp_all

lemma read_value_text:
  assumes fm: "fmt_ok fm fl"
  shows "encodable j \<Longrightarrow> d + json_depth j \<le> maxNestingDepth \<Longrightarrow> value_end rest \<Longrightarrow> 2 * length (json_text fm j) \<le> n \<Longrightarrow>
    read_value n d (json_text fm j @ rest) = Some (as_read fm fl j, rest)"
proof (induction j arbitrary: n d rest)
  case (JBool b)
  then obtain m where "n = Suc m" by (cases n) (auto split: if_splits)
  then show ?case by (simp add: skip_ws_def json_space_def read_literal_def HasPrefix_def)
next
  case JNull
  then obtain m where "n = Suc m" by (cases n) auto
  then show ?case by (simp add: skip_ws_def json_space_def read_literal_def HasPrefix_def)
next
  case (JInt i)
  have "read_number (Itoa i @ rest) = Some (JInt i, rest)" "read_number (Itoa i @ []) = Some (JInt i, [])"
    using JInt by (auto intro!: read_number_Itoa simp del: append_Nil2)
  from number_text [OF this(1)] this(2) JInt(4) show ?case by (cases n) auto
next
  case (JFloat r)
  have "read_number (jf_float fm r @ rest) = Some (fl r, rest)" "read_number (jf_float fm r @ []) = Some (fl r, [])"
    using fm JFloat(3) unfolding fmt_ok_def by (blast, metis value_end_simps(1))
  from number_text [OF this(1)] this(2) JFloat(4) show ?case by (cases n) auto
next
  case (JTime t)
  then obtain m where n: "n = Suc m" by (cases n) auto
  have "list_all plain_char (jf_time fm t)" using fm by (simp add: fmt_ok_def)
  from read_plain [OF this, of "length (jf_time fm t @ CHR 0x22 # rest)" rest] show ?case by (simp add: n)
next
  case (JStr s)
  then obtain m where n: "n = Suc m" by (cases n) (auto simp: json_string_def)
  from read_json_escape [of s "length (json_escape s @ CHR 0x22 # rest)" rest] show ?case by (simp add: n json_string_def)
next
  case (JArr js)
  then obtain m where n: "n = Suc m" by (cases n) auto
  show ?case
  proof (cases js)
    case Nil
    then show ?thesis using JArr.prems(2) by (simp add: n skip_ws_def json_space_def)
  next
    case (Cons j js')
    obtain c cs where c: "json_text fm j = c # cs" "\<not> json_space c" "c \<noteq> CHR '']''"
      using text_hd [OF fm, of j] JArr.prems(1) Cons by auto
    obtain cs' where hd: "join_with '','' (map (json_text fm) js) = c # cs'" using join_hd [OF c(1)] Cons by fastforce
    have "read_elems m (Suc d) (join_with '','' (map (json_text fm) js) @ CHR '']'' # rest) = Some (map (as_read fm fl) js, rest)"
    proof (rule read_elems_text)
      fix x k rest assume x: "x \<in> set js" "value_end rest" "2 * length (json_text fm x) \<le> k"
      have "json_depth x \<le> foldr max (map json_depth js) 0" by (rule depth_member [OF x(1)])
      then show "read_value k (Suc d) (json_text fm x @ rest) = Some (as_read fm fl x, rest)"
        using x JArr.prems(1,2) by (intro JArr.IH) (auto simp: list_all_iff)
    qed (use JArr.prems(4) Cons in \<open>simp_all add: n\<close>)
    then show ?thesis using JArr.prems(2) c(2,3) by (simp add: n hd) (simp add: skip_ws_def json_space_def)
  qed
next
  case (JObj kvs)
  then obtain m where n: "n = Suc m" by (cases n) auto
  have txt_eq: "json_text fm (JObj kvs) = CHR 0x7B # join_with '','' (map (member_text fm) kvs) @ [CHR 0x7D]"
    by (simp add: member_text_def [abs_def])
  show ?case
  proof (cases kvs)
    case Nil
    then show ?thesis using JObj.prems(2) by (simp add: n skip_ws_def json_space_def)
  next
    case (Cons kv kvs')
    obtain cs' where hd: "join_with '','' (map (member_text fm) kvs) = CHR 0x22 # cs'" using member_hd Cons by blast
    have "read_members m (Suc d) (join_with '','' (map (member_text fm) kvs) @ CHR 0x7D # rest) =
        Some (map (\<lambda>kv. (fst kv, as_read fm fl (snd kv))) kvs, rest)"
    proof (rule read_members_text)
      fix x k rest assume x: "x \<in> set kvs" "value_end rest" "2 * length (json_text fm (snd x)) \<le> k"
      have "json_depth (snd x) \<le> foldr max (map (\<lambda>kv. json_depth (snd kv)) kvs) 0" by (rule depth_member [OF x(1)])
      then show "read_value k (Suc d) (json_text fm (snd x) @ rest) = Some (as_read fm fl (snd x), rest)"
        using x JObj.prems(1,2) by (intro JObj.IH [of x]) (auto simp: list_all_iff prod_set_defs)
    qed (use JObj.prems(4) [unfolded txt_eq] Cons in \<open>simp_all add: n\<close>)
    then show ?thesis using JObj.prems(2) unfolding txt_eq by (simp add: n hd) (simp add: skip_ws_def json_space_def)
  qed
qed simp

section \<open>The round trip\<close>

text \<open>What the encoder writes, the decoder reads back: with any strings in it, whatever characters they
  have, an encoded document of admissible nesting is a JSON text, and decoding it gives the value
  that was encoded, with the instants as strings and the floats as the numbers they are printed as.\<close>

lemma Encode_Decode:
  assumes "fmt_ok fm fl" "encodable j" "json_depth j \<le> maxNestingDepth"
  shows "Decode (Encode fm j) = DecValue (as_read fm fl j)"
proof -
  obtain c cs where c: "json_text fm j = c # cs" "\<not> json_space c" by (rule text_hd [OF assms(1,2)])
  have "read_value (2 * length (Encode fm j) + 2) 0 (json_text fm j @ [CHR 0x0A]) = Some (as_read fm fl j, [CHR 0x0A])"
    by (rule read_value_text [OF assms(1,2)]) (simp_all add: assms(3) Encode_def)
  then show ?thesis using c by (simp add: Decode_def Encode_def skip_ws_def)
qed

definition zero_fmt :: json_fmt where
  "zero_fmt = \<lparr>jf_float = (\<lambda>_. ''0''), jf_time = (\<lambda>_. ''2024-01-01T00:00:00Z'')\<rparr>"

lemma zero_fmt_ok: "fmt_ok zero_fmt (\<lambda>_. JInt 0)"
proof -
  have "read_number (Itoa 0 @ rest) = Some (JInt 0, rest)" if "value_end rest" for rest by (rule read_number_Itoa [OF that])
  then show ?thesis by (simp add: fmt_ok_def zero_fmt_def Itoa_def dec_of_nat.simps [of 0] digit_char_def char_zero plain_char_def)
qed

end
