(* ===== verification/ApiJson.thy ===== *)
theory ApiJson
  imports ApiProps GoJsonProps
begin

text \<open>
  Every response is a JSON document: what each handler encodes is within the decoder's nesting limit
  and free of raw numbers, so that the round trip of \<open>GoJsonProps\<close> applies to it; and a replayed
  response is one that was recorded earlier, for which the same holds.
\<close>

section \<open>Documents\<close>

definition json_object :: "string \<Rightarrow> bool" where
  "json_object b \<longleftrightarrow> (\<exists>kvs. Decode b = DecValue (JObj kvs))"

text \<open>An object the handlers may send: at most four levels deep.\<close>

definition sendable :: "json \<Rightarrow> bool" where
  "sendable j \<longleftrightarrow> (\<exists>kvs. j = JObj kvs) \<and> encodable j \<and> json_depth j \<le> 4"

lemma foldr_max_le: "foldr max (map f xs) (0 :: nat) \<le> b \<longleftrightarrow> (\<forall>x\<in>set xs. f x \<le> b)"
  by (induction xs) auto

lemma writeJSON_object:
  assumes "fmt_ok fm fl" "sendable j"
  shows "json_object (rs_Body (writeJSON fm hs st j))"
proof -
  have "Decode (Encode fm j) = DecValue (as_read fm fl j)"
    using assms(2) by (intro Encode_Decode [OF assms(1)]) (auto simp: sendable_def maxNestingDepth_def)
  then show ?thesis using assms(2) by (auto simp: json_object_def sendable_def writeJSON_def)
qed

lemma encodable_omit [simp]:
  "list_all (\<lambda>kv. encodable (snd kv)) (omit_str k s)" "list_all (\<lambda>kv. encodable (snd kv)) (omit_int k i)"
  "list_all (\<lambda>kv. encodable (snd kv)) (omit_time k t)"
  by (auto simp: omit_str_def omit_int_def omit_time_def split: option.splits)

lemma depth_omit [simp]:
  "foldr max (map (\<lambda>kv. json_depth (snd kv)) (omit_str k s)) n = n" "foldr max (map (\<lambda>kv. json_depth (snd kv)) (omit_int k i)) n = n"
  "foldr max (map (\<lambda>kv. json_depth (snd kv)) (omit_time k t)) n = n"
  by (auto simp: omit_str_def omit_int_def omit_time_def split: option.splits)

lemma JUint_simps [simp]: "encodable (JUint n)" "json_depth (JUint n) = 0"
  by (simp_all add: JUint_def)

lemma strings_flat [simp]: "foldr max (map (json_depth \<circ> JStr) xs) n = n" "list_all encodable (map JStr xs)"
  by (induction xs) simp_all

lemma flat_json:
  "encodable (vm_json v) \<and> json_depth (vm_json v) \<le> 2" "encodable (snapshot_json s) \<and> json_depth (snapshot_json s) \<le> 2"
  "encodable (flavor_json f) \<and> json_depth (flavor_json f) \<le> 2" "encodable (image_json im) \<and> json_depth (image_json im) \<le> 2"
  by (simp_all add: vm_json_def snapshot_json_def flavor_json_def image_json_def)

lemma sendable_simple:
  "sendable (errorEnvelope e)" "sendable (job_json j)" "sendable (acceptedJob j)" "sendable (status_json si)"
  "sendable (stats_json st)" "sendable (traffic_json ti)" "sendable (host_json hr)" "sendable (vm_json v)"
  by (simp_all add: sendable_def errorEnvelope_def job_json_def acceptedJob_def status_json_def stats_json_def
      traffic_json_def host_json_def vm_json_def)

lemma sendable_list:
  assumes "\<And>x. x \<in> set xs \<Longrightarrow> encodable (f x) \<and> json_depth (f x) \<le> 2" "list_all (\<lambda>kv. encodable (snd kv) \<and> json_depth (snd kv) = 0) kvs"
  shows "sendable (JObj (kvs @ [(k, JArr (map f xs))]))"
proof -
  have "foldr max (map json_depth (map f xs)) 0 \<le> 2" using assms(1) by (simp add: foldr_max_le)
  moreover have "foldr max (map (\<lambda>kv. json_depth (snd kv)) kvs) n = n" for n
    using assms(2) by (induction kvs) simp_all
  ultimately show ?thesis using assms by (auto simp: sendable_def list_all_iff)
qed

section \<open>Handlers\<close>

lemma error_object:
  assumes "fmt_ok (op_fmt A) fl"
  shows "json_object (rs_Body (writeError (op_fmt A) e))" "json_object (rs_Body (fail A ae))"
  by (simp_all add: fail_def writeError_def Let_def writeJSON_object [OF assms] sendable_simple)

lemma reply_object:
  assumes "fmt_ok (op_fmt A) fl"
  shows "json_object (rs_Body (fst (reply_job A p)))"
    "(\<And>x. sendable (enc x)) \<Longrightarrow> json_object (rs_Body (fst (reply_value A enc p')))"
    "(\<And>x w. json_object (rs_Body (fst (f x w)))) \<Longrightarrow> json_object (rs_Body (fst (with_body dec ab f A r w)))"
  by (auto simp: reply_job_def reply_value_def with_body_def error_object [OF assms] writeJSON_object [OF assms] sendable_simple
      split: prod.splits sum.splits option.splits)

lemma catalog_object:
  assumes "fmt_ok (op_fmt A) fl"
  shows "json_object (rs_Body (listFlavors A))" "json_object (rs_Body (listImages A))" "json_object (rs_Body (handleLive A))"
    "json_object (rs_Body (version_reply A))" "json_object (rs_Body (fst (handleReady A w)))"
    "json_object (rs_Body (fst (jobs_get A r w)))" "json_object (rs_Body (fst (console_request A r h)))"
proof -
  show "json_object (rs_Body (listFlavors A))"
    unfolding listFlavors_def using flat_json(3) sendable_list [of "cat_flavors (op_Catalog A)" flavor_json "[]"]
    by (intro writeJSON_object [OF assms]) simp
  show "json_object (rs_Body (listImages A))"
    unfolding listImages_def using flat_json(4) sendable_list [of "cat_images (op_Catalog A)" image_json "[]"]
    by (intro writeJSON_object [OF assms]) simp
qed (auto simp: handleLive_def version_reply_def handleReady_def jobs_get_def console_request_def Let_def
    error_object [OF assms] intro!: writeJSON_object [OF assms] sendable_simple split: prod.splits sum.splits option.splits,
    simp_all add: sendable_def)

lemma listing_object:
  assumes "fmt_ok (op_fmt A) fl"
  shows "json_object (rs_Body (fst (h_list A r w)))" "json_object (rs_Body (fst (h_listSnapshots A r w)))"
proof -
  have vms: "sendable (JObj ([(''limit'', JInt a), (''offset'', JInt b), (''total'', JInt c)] @ [(''vms'', JArr (map vm_json vs))]))"
    for a b c vs using flat_json(1) by (intro sendable_list) simp_all
  have snaps: "sendable (JObj ([] @ [(''snapshots'', JArr (map snapshot_json ss))]))" for ss
    using flat_json(2) by (intro sendable_list) simp_all
  show "json_object (rs_Body (fst (h_list A r w)))" "json_object (rs_Body (fst (h_listSnapshots A r w)))"
    using vms snaps unfolding h_list_def h_listSnapshots_def by (intro reply_object(2) [OF assms]; simp)+
qed

lemma endpoint_object:
  assumes "fmt_ok (op_fmt A) fl"
  shows "json_object (rs_Body (fst (endpoint x A r h)))"
proof -
  have lift: "json_object (rs_Body (fst (on_world f h)))" if "json_object (rs_Body (fst (f (hs_world h))))" for f
    using that by (auto simp: on_world_def split: prod.splits)
  note rules = lift reply_object [OF assms] catalog_object [OF assms] listing_object [OF assms] sendable_simple
  show ?thesis
    by (cases x, simp_all add: catalog_object [OF assms])
      ((unfold h_host_def h_get_def h_status_def h_stats_def h_traffic_def h_setTrafficQuota_def
        h_create_def h_terminate_def powerOp_def h_password_def h_hostname_def h_rebuild_def h_resize_def
        h_createSnapshot_def h_deleteSnapshot_def h_revertSnapshot_def case_prod_beta)?, (rule rules)+)+
qed

section \<open>Recorded responses\<close>

definition bodies_ok :: "(string \<rightharpoonup> IdempotencyRecord) \<Rightarrow> bool" where
  "bodies_ok m \<longleftrightarrow> (\<forall>k rec. m k = Some rec \<longrightarrow> idr_Response rec = [] \<or> json_object (idr_Response rec))"

lemma bodies_okD: "bodies_ok m \<Longrightarrow> m k = Some rec \<Longrightarrow> idr_Response rec \<noteq> [] \<Longrightarrow> json_object (idr_Response rec)"
  by (auto simp: bodies_ok_def)

lemma bodies_ok_upd: "bodies_ok m \<Longrightarrow> idr_Response rec = [] \<or> json_object (idr_Response rec) \<Longrightarrow> bodies_ok (m(k \<mapsto> rec))"
  unfolding bodies_ok_def by (metis map_upd_Some_unfold)

context service_store
begin

abbreviation "sound w \<equiv> sinv (w_store w) \<and> bodies_ok (sv_idem (view (w_store w)))"

lemma check_object:
  assumes "fmt_ok (op_fmt A) fl" "op_VMService A = S" "sound w" "idem_check A key hash w = (r, w')"
  shows "sound w' \<and> (\<forall>resp. r = Some resp \<longrightarrow> json_object (rs_Body resp))"
proof -
  obtain got w1 where g: "st_GetIdempotency S key w = (got, w1)" by fastforce
  note gl = st_GetIdempotency_law [OF g conjunct1 [OF assms(3)]]
  have v: "w_store w2 = w_store w1 \<and> (\<forall>resp. v = Answer resp \<longrightarrow> json_object (rs_Body resp))"
    if "idem_verdict A hash got w1 = (v, w2)" for v w2
    using that gl assms(3) error_object [OF assms(1)]
    by (auto simp: idem_verdict_def replay_def time_Now_def dest: bodies_okD split: sum.splits if_splits)
  have del: "sound (ignore_err (st_DeleteIdempotency S key w2))" if "sound w2" for w2
  proof -
    obtain rd w3 where d: "st_DeleteIdempotency S key w2 = (rd, w3)" by fastforce
    from st_DeleteIdempotency_law [OF d conjunct1 [OF that]] that show ?thesis
      by (cases rd) (auto simp: d bodies_ok_def split: if_splits)
  qed
  obtain vd w2 where vd: "idem_verdict A hash got w1 = (vd, w2)" by fastforce
  have "sound w2" using v [OF vd] gl assms(3) by simp
  then show ?thesis using v [OF vd] del assms(4) by (cases vd) (auto simp: idem_check_def assms(2) g vd)
qed

lemma claim_object:
  assumes "fmt_ok (op_fmt A) fl" "op_VMService A = S" "sound w" "idem_claim A key hash w = (r, w')"
  shows "sound w' \<and> (\<forall>resp. r = Inl resp \<longrightarrow> json_object (rs_Body resp))"
proof -
  obtain now w1 where t: "time_Now w = (now, w1)" "w_store w1 = w_store w" by (simp add: time_Now_def)
  obtain rp w2 where p: "st_PutIdempotency S (claim_record key hash now) w1 = (rp, w2)" by fastforce
  have "sinv (w_store w1)" using assms(3) t by simp
  note pl = st_PutIdempotency_law [OF p this]
  have "idr_Response (idem_created now' (claim_record key hash now)) = []" for now' by (simp add: idem_created_def claim_record_def)
  then have "sound w2" using pl assms(3) t by (cases rp) (auto simp: bodies_ok_def)
  then show ?thesis using assms(4) error_object [OF assms(1)] by (cases rp) (auto simp: idem_claim_def assms(2) t p)
qed

lemma finish_object:
  assumes "op_VMService A = S" "sound w" "json_object (rs_Body resp)"
  shows "sound (idem_finish A rec resp w)"
proof -
  let ?rec = "rec\<lparr>idr_Response := rs_Body resp, idr_StatusCode := rs_Status resp\<rparr>"
  obtain ru w1 where u: "st_UpdateIdempotency S ?rec w = (ru, w1)" by fastforce
  have "idr_Response (idem_written old ?rec) = rs_Body resp" for old by (simp add: idem_written_def)
  then show ?thesis
    using st_UpdateIdempotency_law [OF u conjunct1 [OF assms(2)]] assms(2,3)
    by (cases ru) (auto simp: idem_finish_def assms(1) u bodies_ok_upd)
qed

lemma idempotency_object:
  assumes "fmt_ok (op_fmt A) fl" "op_VMService A = S" "sound (hs_world h)"
    and inner: "\<And>r h. sound (hs_world h) \<Longrightarrow> json_object (rs_Body (fst (next A r h))) \<and> sound (hs_world (snd (next A r h)))"
  shows "json_object (rs_Body (fst (idempotency next A r h))) \<and> sound (hs_world (snd (idempotency next A r h)))"
proof -
  define key where "key = rq_Header r ''Idempotency-Key''"
  note err = error_object(2) [OF assms(1)]
  show ?thesis
  proof (cases "key = [] \<or> read_body r = None")
    case True
    then show ?thesis using err assms(3) by (auto simp: idempotency_def key_def Let_def)
  next
    case False
    then obtain body where b: "read_body r = Some body" by auto
    define hash where "hash = hashRequest (op_sha256 A) (rq_Method r) (rq_Path r) body"
    obtain rc w1 where c: "idem_check A key hash (hs_world h) = (rc, w1)" by fastforce
    note cl = check_object [OF assms(1-3) c]
    obtain rk w2 where k: "idem_claim A key hash w1 = (rk, w2)" by fastforce
    note kl = claim_object [OF assms(1,2) conjunct1 [OF cl] k]
    define h2 where "h2 = h\<lparr>hs_world := w2\<rparr>"
    obtain resp h3 where n: "next A (r\<lparr>rq_Body := body, rq_BodyErr := False\<rparr>) h2 = (resp, h3)" by fastforce
    have nl: "json_object (rs_Body resp) \<and> sound (hs_world h3)"
      using inner [of h2 "r\<lparr>rq_Body := body, rq_BodyErr := False\<rparr>"] kl by (simp add: h2_def n [unfolded h2_def])
    have eq: "idempotency next A r h = (case rc of Some resp \<Rightarrow> (resp, h\<lparr>hs_world := w1\<rparr>)
       | None \<Rightarrow> (case rk of Inl resp \<Rightarrow> (resp, h2) | Inr rec \<Rightarrow> (resp, h3\<lparr>hs_world := idem_finish A rec resp (hs_world h3)\<rparr>)))"
      using False b c k n
      by (simp add: idempotency_def key_def [symmetric] hash_def [symmetric] Let_def on_world_def h2_def split: option.split sum.split)
    show ?thesis
      unfolding eq using cl kl nl finish_object [OF assms(2) conjunct2 [OF nl] conjunct1 [OF nl]]
      by (auto simp: h2_def split: option.split sum.split)
  qed
qed

lemma serve_object:
  assumes "fmt_ok (op_fmt A) fl" "op_VMService A = S" "ready_on_conn A" "sound (hs_world h)"
  shows "json_object (rs_Body (fst (serve x A r h))) \<and> sound (hs_world (snd (serve x A r h)))"
proof -
  have ep: "json_object (rs_Body (fst (endpoint x A r h))) \<and> sound (hs_world (snd (endpoint x A r h)))" if "sound (hs_world h)" for r h
    using idem.ends_endpoint [of "hs_world h" h A x r] that assms(2,3) endpoint_object [OF assms(1)] by (simp add: idem_kept_def)
  have "json_object (rs_Body (fst (idempotency (endpoint x) A r h))) \<and> sound (hs_world (snd (idempotency (endpoint x) A r h)))"
    by (rule idempotency_object [OF assms(1,2,4)]) (rule ep)
  then have inner: "json_object (rs_Body (fst ((if needs_key x then idempotency (endpoint x) else endpoint x) A r h))) \<and>
      sound (hs_world (snd ((if needs_key x then idempotency (endpoint x) else endpoint x) A r h)))"
    using ep [OF assms(4)] by simp
  show ?thesis
    using inner assms(4) error_object(2) [OF assms(1)]
    unfolding serve_def Let_def ipAllowlist_def bearerAuth_def by (auto split: prod.split option.split)
qed

end

section \<open>Properties\<close>



end
