(* ===== verification/Migrations.thy ===== *)
theory Migrations
  imports Store
begin

text \<open>
  The schema migrations, \<open>internal/store/migrations.go\<close>, and \<open>Open\<close> of sqlite.go, which runs them.
  The database is seen through the table of applied versions and an abstract schema: what the SQL
  of a migration does to the schema is the parameter \<open>exec\<close>. Every statement may fail
  (\<open>q_faults\<close>). The embedded directory is a parameter; \<open>embedded_files\<close> are the names in the
  repository.
\<close>

section \<open>The migrations\<close>

record dir_entry =
  de_Name :: string
  de_IsDir :: bool

record embed_FS =
  ef_ReadDir :: "dir_entry list res"
  ef_ReadFile :: "string \<Rightarrow> string res"

record migration =
  mg_version :: int
  mg_name :: string
  mg_sql :: string

text \<open>\<open>strings.Cut(s, "_")\<close>, the part before.\<close>

definition Cut_before :: "char \<Rightarrow> string \<Rightarrow> string option" where
  "Cut_before c s = (if c \<in> set s then Some (takeWhile (\<lambda>x. x \<noteq> c) s) else None)"

text \<open>The error of \<open>strconv.Atoi\<close> on a text it does not accept.\<close>

definition Atoi_err :: "string \<Rightarrow> goerr" where
  "Atoi_err s = (let ds = (if take 1 s \<in> {''-'', ''+''} then drop 1 s else s)
     in errors_New (''strconv.Atoi: parsing '' @ Quote s @ '': '' @
          (if ds = [] \<or> \<not> list_all is_digit ds then ''invalid syntax'' else ''value out of range'')))"

fun load_entries :: "embed_FS \<Rightarrow> dir_entry list \<Rightarrow> migration list res" where
  "load_entries fs [] = Inr []"
| "load_entries fs (e # es) =
     (if de_IsDir e \<or> \<not> HasSuffix (de_Name e) ''.sql'' then load_entries fs es
      else case Cut_before (CHR ''_'') (de_Name e) of
        None \<Rightarrow> Inl (errors_New (''migration '' @ Quote (de_Name e) @ '' must be NNNN_name.sql''))
      | Some prefix \<Rightarrow> (case Atoi prefix of
          None \<Rightarrow> Inl (wrap_err (''migration '' @ Quote (de_Name e) @ '' has non-numeric version'') (Atoi_err prefix))
        | Some v \<Rightarrow> (case ef_ReadFile fs (''migrations/'' @ de_Name e) of
            Inl err \<Rightarrow> Inl err
          | Inr body \<Rightarrow> (case load_entries fs es of
              Inl err \<Rightarrow> Inl err
            | Inr ms \<Rightarrow> Inr (\<lparr>mg_version = v, mg_name = de_Name e, mg_sql = body\<rparr> # ms)))))"

text \<open>\<open>sort.Slice\<close> sorts up to twelve elements by insertion, which keeps equal elements in order.\<close>

definition loadMigrations :: "embed_FS \<Rightarrow> migration list res" where
  "loadMigrations fs = (case ef_ReadDir fs of
     Inl err \<Rightarrow> Inl err
   | Inr entries \<Rightarrow> (case load_entries fs entries of
       Inl err \<Rightarrow> Inl err
     | Inr ms \<Rightarrow> Inr (sort_key mg_version ms)))"

section \<open>Applying them\<close>

record 'q sqldb =
  q_versions :: "(int \<times> stamp) list option"
  q_schema :: 'q
  q_faults :: "goerr option list"
  q_clock :: "nat \<Rightarrow> time"

text \<open>The rows of \<open>schema_migrations\<close>, and what the driver makes of the next statement.\<close>

definition q_rows :: "'q sqldb \<Rightarrow> (int \<times> stamp) list" where
  "q_rows d = (case q_versions d of None \<Rightarrow> [] | Some rs \<Rightarrow> rs)"

definition stmt :: "'q sqldb \<Rightarrow> goerr option \<times> 'q sqldb" where
  "stmt d = (case q_faults d of [] \<Rightarrow> (None, d) | f # fs \<Rightarrow> (f, d\<lparr>q_faults := fs\<rparr>))"

definition q_Now :: "'q sqldb \<Rightarrow> time \<times> 'q sqldb" where
  "q_Now d = (q_clock d 0, d\<lparr>q_clock := (\<lambda>n. q_clock d (Suc n))\<rparr>)"

text \<open>\<open>SELECT COALESCE(MAX(version), 0)\<close>.\<close>

definition max_version :: "(int \<times> stamp) list \<Rightarrow> int" where
  "max_version rows = (case map fst rows of [] \<Rightarrow> 0 | v # vs \<Rightarrow> foldl max v vs)"

text \<open>One migration in its transaction: the statements of a transaction that does not commit leave the
  tables as they were; only time and the fate of later statements move on.\<close>

definition apply_one :: "(string \<Rightarrow> 'q \<Rightarrow> 'q res) \<Rightarrow> migration \<Rightarrow> 'q sqldb \<Rightarrow> unit res \<times> 'q sqldb" where
  "apply_one exec m d =
     (let failed = \<lambda>e. wrap_err (''apply migration '' @ Itoa (mg_version m) @ '' ('' @ mg_name m @ '')'') e
      in case stmt d of
           (Some e, d1) \<Rightarrow> (Inl e, d1)
         | (None, d1) \<Rightarrow> (case stmt d1 of
             (Some e, d2) \<Rightarrow> (Inl (failed e), snd (stmt d2))
           | (None, d2) \<Rightarrow> (case exec (mg_sql m) (q_schema d2) of
               Inl e \<Rightarrow> (Inl (failed e), snd (stmt d2))
             | Inr schema \<Rightarrow> (case q_Now d2 of (now, d3) \<Rightarrow> (case stmt d3 of
                 (Some e, d4) \<Rightarrow> (Inl e, snd (stmt d4))
               | (None, d4) \<Rightarrow>
                   if mg_version m \<in> fst ` set (q_rows d4)
                   then (Inl (unique_err ''schema_migrations.version''), snd (stmt d4))
                   else (case stmt d4 of
                     (Some e, d5) \<Rightarrow> (Inl e, d5)
                   | (None, d5) \<Rightarrow> (Inr (), d5\<lparr>q_schema := schema,
                       q_versions := Some (q_rows d5 @ [(mg_version m, fmtTime now)])\<rparr>)))))))"

fun apply_all :: "(string \<Rightarrow> 'q \<Rightarrow> 'q res) \<Rightarrow> int \<Rightarrow> migration list \<Rightarrow> 'q sqldb \<Rightarrow> unit res \<times> 'q sqldb" where
  "apply_all exec current [] d = (Inr (), d)"
| "apply_all exec current (m # ms) d =
     (if mg_version m \<le> current then apply_all exec current ms d
      else case apply_one exec m d of
        (Inl e, d1) \<Rightarrow> (Inl e, d1)
      | (Inr _, d1) \<Rightarrow> apply_all exec current ms d1)"

definition migrate :: "(string \<Rightarrow> 'q \<Rightarrow> 'q res) \<Rightarrow> embed_FS \<Rightarrow> 'q sqldb \<Rightarrow> unit res \<times> 'q sqldb" where
  "migrate exec fs d = (case stmt d of
     (Some e, d1) \<Rightarrow> (Inl (wrap_err ''create schema_migrations'' e), d1)
   | (None, d1) \<Rightarrow>
       let d2 = d1\<lparr>q_versions := Some (q_rows d1)\<rparr>
       in (case stmt d2 of
         (Some e, d3) \<Rightarrow> (Inl (wrap_err ''read schema version'' e), d3)
       | (None, d3) \<Rightarrow> (case loadMigrations fs of
           Inl e \<Rightarrow> (Inl e, d3)
         | Inr ms \<Rightarrow> apply_all exec (max_version (q_rows d3)) ms d3)))"

section \<open>Opening the store\<close>

text \<open>\<open>filepath.Dir\<close>.\<close>

definition filepath_Dir :: "string \<Rightarrow> string" where
  "filepath_Dir path = filepath_Clean (rev (dropWhile (\<lambda>c. c \<noteq> CHR ''/'') (rev path)))"

fun run_pragmas :: "string list \<Rightarrow> 'q sqldb \<Rightarrow> unit res \<times> 'q sqldb" where
  "run_pragmas [] d = (Inr (), d)"
| "run_pragmas (p # ps) d = (case stmt d of
     (Some e, d1) \<Rightarrow> (Inl (wrap_err p e), d1)
   | (None, d1) \<Rightarrow> run_pragmas ps d1)"

definition Open :: "(string \<Rightarrow> 'q \<Rightarrow> 'q res) \<Rightarrow> embed_FS \<Rightarrow> (string \<Rightarrow> unit res) \<Rightarrow> (string \<Rightarrow> 'q sqldb res) \<Rightarrow> string
    \<Rightarrow> 'q sqldb res" where
  "Open exec fs MkdirAll sql_Open path =
     (let dir = filepath_Dir path;
          made = (if dir \<noteq> [] \<and> dir \<noteq> ''.'' then MkdirAll dir else Inr ())
      in case made of
           Inl e \<Rightarrow> Inl (wrap_err ''create state dir'' e)
         | Inr _ \<Rightarrow> (case sql_Open path of
             Inl e \<Rightarrow> Inl e
           | Inr d \<Rightarrow> (case run_pragmas [''PRAGMA journal_mode=WAL'', ''PRAGMA busy_timeout=5000'', ''PRAGMA foreign_keys=ON''] d of
               (Inl e, d1) \<Rightarrow> Inl e
             | (Inr _, d1) \<Rightarrow> (case migrate exec fs d1 of
                 (Inl e, d2) \<Rightarrow> Inl e
               | (Inr _, d2) \<Rightarrow> Inr d2))))"

section \<open>What is guaranteed\<close>

text \<open>The schema after the first migrations, starting from an empty database.\<close>

fun schema_after :: "(string \<Rightarrow> 'q \<Rightarrow> 'q res) \<Rightarrow> 'q \<Rightarrow> migration list \<Rightarrow> 'q res" where
  "schema_after exec q [] = Inr q"
| "schema_after exec q (m # ms) = (case exec (mg_sql m) q of Inl e \<Rightarrow> Inl e | Inr q1 \<Rightarrow> schema_after exec q1 ms)"

text \<open>The database is at step \<open>k\<close>: exactly the first \<open>k\<close> migrations are recorded and have been applied.\<close>

definition at_step :: "(string \<Rightarrow> 'q \<Rightarrow> 'q res) \<Rightarrow> 'q \<Rightarrow> migration list \<Rightarrow> nat \<Rightarrow> 'q sqldb \<Rightarrow> bool" where
  "at_step exec q0 ms k d \<longleftrightarrow> k \<le> length ms \<and> schema_after exec q0 (take k ms) = Inr (q_schema d) \<and>
     map fst (q_rows d) = map mg_version (take k ms)"

lemma q_rows_commit [simp]: "q_rows (d\<lparr>q_schema := q, q_versions := Some rs\<rparr>) = rs"
  by (simp add: q_rows_def)

lemma stmt_same:
  "stmt d = (e, d') \<Longrightarrow> q_rows d' = q_rows d \<and> q_schema d' = q_schema d \<and> q_versions d' = q_versions d"
  by (auto simp: stmt_def q_rows_def split: list.splits)

lemma stmt_snd: "q_rows (snd (stmt d)) = q_rows d" "q_schema (snd (stmt d)) = q_schema d"
  using stmt_same [of d "fst (stmt d)" "snd (stmt d)"] by simp_all

lemma stmt_calm: "q_faults d = [] \<Longrightarrow> stmt d = (None, d)"
  by (simp add: stmt_def)

lemma q_Now_same: "q_Now d = (t, d') \<Longrightarrow> q_rows d' = q_rows d \<and> q_schema d' = q_schema d"
  by (auto simp: q_Now_def q_rows_def)

lemma apply_one_law:
  assumes "apply_one exec m d = (r, d')"
  shows "case r of
      Inl e \<Rightarrow> q_rows d' = q_rows d \<and> q_schema d' = q_schema d
    | Inr _ \<Rightarrow> exec (mg_sql m) (q_schema d) = Inr (q_schema d') \<and> map fst (q_rows d') = map fst (q_rows d) @ [mg_version m]"
proof -
  obtain e1 d1 where 1: "stmt d = (e1, d1)" by fastforce
  obtain e2 d2 where 2: "stmt d1 = (e2, d2)" by fastforce
  obtain now d3 where 3: "q_Now d2 = (now, d3)" by fastforce
  obtain e4 d4 where 4: "stmt d3 = (e4, d4)" by fastforce
  obtain e5 d5 where 5: "stmt d4 = (e5, d5)" by fastforce
  note same = stmt_same [OF 1] stmt_same [OF 2] q_Now_same [OF 3] stmt_same [OF 4] stmt_same [OF 5]
  let ?P = "\<lambda>r d'. case r of
      Inl e \<Rightarrow> q_rows d' = q_rows d \<and> q_schema d' = q_schema d
    | Inr _ \<Rightarrow> exec (mg_sql m) (q_schema d) = Inr (q_schema d') \<and> map fst (q_rows d') = map fst (q_rows d) @ [mg_version m]"
  have "?P (fst (apply_one exec m d)) (snd (apply_one exec m d))"
    unfolding apply_one_def Let_def 1 prod.case
    apply (cases e1)
     apply (simp_all only: option.case 2 prod.case)
     apply (cases e2)
      apply (simp_all only: option.case prod.case)
      apply (cases "exec (mg_sql m) (q_schema d)")
       apply (simp_all add: same stmt_snd 3 4 5 split: option.split)
    done
  then show ?thesis unfolding assms fst_conv snd_conv .
qed

lemma apply_one_calm:
  assumes "q_faults d = []" "exec (mg_sql m) (q_schema d) = Inr q" "mg_version m \<notin> fst ` set (q_rows d)"
  shows "\<exists>d'. apply_one exec m d = (Inr (), d') \<and> q_faults d' = []"
  using assms by (simp add: apply_one_def Let_def stmt_calm q_Now_def q_rows_def)

lemma apply_all_skip: "\<forall>m\<in>set xs. mg_version m \<le> c \<Longrightarrow> apply_all exec c (xs @ ys) d = apply_all exec c ys d"
  by (induction xs) auto

lemma schema_after_snoc:
  "schema_after exec q (ms @ [m]) = (case schema_after exec q ms of Inl e \<Rightarrow> Inl e | Inr q1 \<Rightarrow> exec (mg_sql m) q1)"
  by (induction ms arbitrary: q) (auto split: sum.splits)

lemma schema_after_prefix:
  "schema_after exec q (ms @ ms') = (case schema_after exec q ms of Inl e \<Rightarrow> Inl e | Inr q1 \<Rightarrow> schema_after exec q1 ms')"
  by (induction ms arbitrary: q) (auto split: sum.splits)

lemma at_step_Suc:
  assumes "at_step exec q0 ms k d" "k < length ms" "exec (mg_sql (ms ! k)) (q_schema d) = Inr (q_schema d')"
    and "map fst (q_rows d') = map fst (q_rows d) @ [mg_version (ms ! k)]"
  shows "at_step exec q0 ms (Suc k) d'"
  using assms by (simp add: at_step_def take_Suc_conv_app_nth schema_after_snoc)

lemma at_step_cong: "q_rows d' = q_rows d \<Longrightarrow> q_schema d' = q_schema d \<Longrightarrow> at_step exec q0 ms k d' = at_step exec q0 ms k d"
  by (simp add: at_step_def)

lemma apply_all_law:
  assumes "at_step exec q0 ms k d" "\<forall>m\<in>set (drop k ms). c < mg_version m" "apply_all exec c (drop k ms) d = (r, d')"
  shows "\<exists>k'\<ge>k. at_step exec q0 ms k' d' \<and> (r = Inr () \<longrightarrow> k' = length ms)"
  using assms
proof (induction "length ms - k" arbitrary: k d)
  case 0
  then have "k = length ms" by (simp add: at_step_def)
  with 0 show ?case by (intro exI [of _ k]) simp
next
  case (Suc n)
  then have k: "k < length ms" by (simp add: at_step_def)
  then have dr: "drop k ms = ms ! k # drop (Suc k) ms" by (simp add: Cons_nth_drop_Suc)
  obtain r1 d1 where a: "apply_one exec (ms ! k) d = (r1, d1)" by fastforce
  note law = apply_one_law [OF a]
  have "c < mg_version (ms ! k)" using Suc.prems(2) dr by simp
  then have all: "(r, d') = (case r1 of Inl e \<Rightarrow> (Inl e, d1) | Inr _ \<Rightarrow> apply_all exec c (drop (Suc k) ms) d1)"
    using Suc.prems(3) by (simp add: dr a split: sum.splits)
  show ?case
  proof (cases r1)
    case (Inl e)
    then show ?thesis using all law Suc.prems(1) by (intro exI [of _ k]) (auto simp: at_step_cong [of d1 d])
  next
    case (Inr u)
    then have "at_step exec q0 ms (Suc k) d1" using law by (intro at_step_Suc [OF Suc.prems(1) k]) auto
    moreover have "\<forall>m\<in>set (drop (Suc k) ms). c < mg_version m" using Suc.prems(2) dr by simp
    moreover have "n = length ms - Suc k" using Suc.hyps(2) by simp
    ultimately obtain k' where "k' \<ge> Suc k" "at_step exec q0 ms k' d'" "r = Inr () \<longrightarrow> k' = length ms"
      using Suc.hyps(1) [of "Suc k" d1] all Inr by auto
    then show ?thesis by (intro exI [of _ k']) simp
  qed
qed

lemma apply_all_calm:
  assumes "at_step exec q0 ms k d" "\<forall>m\<in>set (drop k ms). c < mg_version m" "distinct (map mg_version ms)"
    and "q_faults d = []" "schema_after exec q0 ms = Inr q"
  shows "\<exists>d'. apply_all exec c (drop k ms) d = (Inr (), d')"
  using assms
proof (induction "length ms - k" arbitrary: k d)
  case 0
  then show ?case by (simp add: at_step_def)
next
  case (Suc n)
  then have k: "k < length ms" by (simp add: at_step_def)
  then have dr: "drop k ms = ms ! k # drop (Suc k) ms" by (simp add: Cons_nth_drop_Suc)
  have pre: "schema_after exec q0 (take k ms) = Inr (q_schema d)" "map fst (q_rows d) = map mg_version (take k ms)"
    using Suc.prems(1) by (auto simp: at_step_def)
  have "\<exists>q1. schema_after exec q0 (take (Suc k) ms) = Inr q1"
    using Suc.prems(5) schema_after_prefix [of exec q0 "take (Suc k) ms" "drop (Suc k) ms"] by (auto split: sum.splits)
  then obtain q1 where q1: "exec (mg_sql (ms ! k)) (q_schema d) = Inr q1"
    using k pre(1) by (auto simp: take_Suc_conv_app_nth schema_after_snoc)
  have "mg_version (ms ! k) \<notin> set (map mg_version (take k ms))"
    using Suc.prems(3) k by (auto simp: distinct_conv_nth in_set_conv_nth)
  then have "mg_version (ms ! k) \<notin> fst ` set (q_rows d)" by (metis pre(2) list.set_map)
  from apply_one_calm [where exec = exec and m = "ms ! k" and d = d, OF Suc.prems(4) q1 this] obtain d1 where a: "apply_one exec (ms ! k) d = (Inr (), d1)" "q_faults d1 = []"
    by blast
  have "at_step exec q0 ms (Suc k) d1"
    using apply_one_law [OF a(1)] by (intro at_step_Suc [OF Suc.prems(1) k]) auto
  moreover have "n = length ms - Suc k" using Suc.hyps(2) by simp
  ultimately have "\<exists>d'. apply_all exec c (drop (Suc k) ms) d1 = (Inr (), d')"
    using Suc.hyps(1) [of "Suc k" d1] Suc.prems(2,3,5) dr a(2) by simp
  then show ?case using Suc.prems(2) by (simp add: dr a(1))
qed

text \<open>The recorded version separates what is applied from what is pending.\<close>

lemma foldl_max: "foldl max (v :: int) vs = Max (set (v # vs))"
proof -
  have "(\<lambda>x s. max s x) = (max :: int \<Rightarrow> int \<Rightarrow> int)" by (intro ext) (rule max.commute)
  then show ?thesis by (simp only: Max.set_eq_fold foldl_conv_fold)
qed

lemma pending:
  assumes "sorted_wrt (<) (map mg_version ms)" "\<forall>m\<in>set ms. 0 < mg_version m" "at_step exec q0 ms k d"
  shows "(\<forall>m\<in>set (take k ms). mg_version m \<le> max_version (q_rows d)) \<and> (\<forall>m\<in>set (drop k ms). max_version (q_rows d) < mg_version m)"
proof (cases "map fst (q_rows d)")
  case Nil
  then have "take k ms = []" using assms(3) by (simp add: at_step_def)
  then show ?thesis using assms(2) Nil by (auto simp: max_version_def dest: in_set_dropD)
next
  case (Cons v vs)
  have vs: "map mg_version (take k ms) = v # vs" using assms(3) Cons by (simp add: at_step_def)
  have mx: "max_version (q_rows d) = Max (set (map mg_version (take k ms)))" unfolding vs by (simp only: max_version_def Cons list.case foldl_max)
  have lt: "mg_version a < mg_version b" if "a \<in> set (take k ms)" "b \<in> set (drop k ms)" for a b
    proof -
    have "sorted_wrt (<) (map mg_version (take k ms) @ map mg_version (drop k ms))"
      using assms(1) by (simp flip: map_append)
    then show ?thesis using that by (simp add: sorted_wrt_append)
  qed
  have "Max (set (map mg_version (take k ms))) \<in> set (map mg_version (take k ms))" using vs by (intro Max_in) auto
  then show ?thesis unfolding mx using lt by (auto intro: Max_ge)
qed

lemma loaded_sorted:
  assumes "loadMigrations fs = Inr ms" "distinct (map mg_version ms)"
  shows "sorted_wrt (<) (map mg_version ms)"
  using assms by (auto simp: loadMigrations_def strict_sorted_iff split: sum.splits)

text \<open>\<open>migrate\<close> once its two first statements have succeeded.\<close>

lemma migrate_steps:
  assumes "loadMigrations fs = Inr ms" "sorted_wrt (<) (map mg_version ms)" "\<forall>m\<in>set ms. 0 < mg_version m"
    and "at_step exec q0 ms k d" "migrate exec fs d = (r, d')"
  obtains e where "r = Inl e" "at_step exec q0 ms k d'" "q_faults d \<noteq> []"
  | d1 c where "at_step exec q0 ms k d1" "\<forall>m\<in>set (drop k ms). c < mg_version m" "apply_all exec c (drop k ms) d1 = (r, d')"
      "q_faults d = [] \<longrightarrow> q_faults d1 = []" "q_rows d1 = q_rows d" "q_schema d1 = q_schema d"
proof -
  obtain e1 d1 where 1: "stmt d = (e1, d1)" by fastforce
  define d2 where "d2 = d1\<lparr>q_versions := Some (q_rows d1)\<rparr>"
  obtain e3 d3 where 3: "stmt d2 = (e3, d3)" by fastforce
  have rows: "q_rows d1 = q_rows d" "q_schema d1 = q_schema d" "q_rows d3 = q_rows d" "q_schema d3 = q_schema d"
    using stmt_same [OF 1] stmt_same [OF 3] by (simp_all add: d2_def q_rows_def)
  have calm: "q_faults d = [] \<longrightarrow> e1 = None \<and> e3 = None \<and> q_faults d3 = []"
    using 1 3 by (auto simp: stmt_def d2_def)
  have at: "at_step exec q0 ms k d1" "at_step exec q0 ms k d3" using assms(4) rows by (simp_all add: at_step_def)
  note p = pending [OF assms(2,3) at(2)]
  have skip: "apply_all exec (max_version (q_rows d3)) ms d3 = apply_all exec (max_version (q_rows d3)) (drop k ms) d3"
    using apply_all_skip [of "take k ms" _ exec "drop k ms"] p by simp
  show thesis
  proof (cases "e1 = None \<and> e3 = None")
    case True
    then have "apply_all exec (max_version (q_rows d3)) (drop k ms) d3 = (r, d')"
      using assms(5) 1 3 by (simp add: migrate_def Let_def d2_def [symmetric] assms(1) skip)
    then show ?thesis using p calm rows by (intro that(2) [OF at(2)]) auto
  next
    case False
    then have "(\<exists>e. r = Inl e) \<and> (d' = d1 \<or> d' = d3)"
      using assms(5) 1 3 by (cases e1; cases e3) (auto simp: migrate_def Let_def d2_def [symmetric])
    then show ?thesis using False calm at by (elim conjE exE disjE) (rule that(1), assumption, simp, blast)+
  qed
qed

text \<open>A fresh database is brought to the last migration.\<close>

lemma migrate_fresh:
  assumes "loadMigrations fs = Inr ms" "sorted_wrt (<) (map mg_version ms)" "\<forall>m\<in>set ms. 0 < mg_version m"
    and "q_versions d = None" "q_faults d = []" "schema_after exec (q_schema d) ms = Inr q"
  shows "\<exists>d'. migrate exec fs d = (Inr (), d') \<and> q_schema d' = q"
proof -
  have at: "at_step exec (q_schema d) ms 0 d" by (simp add: at_step_def q_rows_def assms(4))
  obtain r d' where r: "migrate exec fs d = (r, d')" by fastforce
  from assms(1-3) at r show ?thesis
  proof (cases rule: migrate_steps)
    case (2 d1 c)
    from apply_all_calm [OF 2(1,2) _ _ assms(6)] apply_all_law [OF 2(1-3)] 2 assms(2,5,6) r
    show ?thesis by (auto simp: at_step_def strict_sorted_iff)
  qed (simp add: assms(5))
qed

lemma run_pragmas_calm: "q_faults d = [] \<Longrightarrow> run_pragmas ps d = (Inr (), d)"
  by (induction ps) (simp_all add: stmt_calm)

lemma Open_fresh:
  assumes "loadMigrations fs = Inr ms" "sorted_wrt (<) (map mg_version ms)" "\<forall>m\<in>set ms. 0 < mg_version m"
    and "MkdirAll (filepath_Dir path) = Inr ()" "sql_Open path = Inr d"
    and "q_versions d = None" "q_faults d = []" "schema_after exec (q_schema d) ms = Inr q"
  shows "\<exists>d'. Open exec fs MkdirAll sql_Open path = Inr d' \<and> q_schema d' = q"
  using migrate_fresh [OF assms(1-3,6-8)] assms(4,5,7)
  by (auto simp: Open_def Let_def run_pragmas_calm simp del: run_pragmas.simps)

text \<open>(C23) Migrations can be interrupted and resumed. Whatever statement fails, the database is left with
  exactly the first so many migrations applied and recorded, never a part of one and never fewer
  than before; \<open>migrate\<close> returns without an error only when all of them are; it does succeed when
  no statement fails; and running it on a migrated database changes nothing.\<close>

theorem migrate_resumes:
  assumes "loadMigrations fs = Inr ms" "distinct (map mg_version ms)" "\<forall>m\<in>set ms. 0 < mg_version m"
    and "at_step exec q0 ms k d" "migrate exec fs d = (r, d')"
  shows "(\<exists>k'\<ge>k. at_step exec q0 ms k' d' \<and> (r = Inr () \<longrightarrow> k' = length ms)) \<and>
    (q_faults d = [] \<and> (\<exists>q. schema_after exec q0 ms = Inr q) \<longrightarrow> r = Inr ()) \<and>
    (k = length ms \<and> r = Inr () \<longrightarrow> q_rows d' = q_rows d \<and> q_schema d' = q_schema d)"
proof -
  note sorted = loaded_sorted [OF assms(1,2)]
  from assms(1) sorted assms(3,4,5) show ?thesis
  proof (cases rule: migrate_steps)
    case (1 e)
    then show ?thesis by auto
  next
    case (2 d1 c)
    from apply_all_law [OF 2(1-3)] apply_all_calm [OF 2(1,2) assms(2)] 2 show ?thesis by (auto simp: at_step_def)
  qed
qed

text \<open>The files of the repository.\<close>

definition embedded_files :: embed_FS where
  "embedded_files = \<lparr>ef_ReadDir = Inr (map (\<lambda>n. \<lparr>de_Name = n, de_IsDir = False\<rparr>)
     [''0001_init.sql'', ''0002_vm_password.sql'', ''0003_job_payload.sql'', ''0004_traffic.sql'',
      ''0005_idempotency_index.sql'', ''0006_job_attempts.sql'']), ef_ReadFile = (\<lambda>p. Inr p)\<rparr>"

lemma embedded_load:
  obtains ms where "loadMigrations embedded_files = Inr ms" "map mg_version ms = [1, 2, 3, 4, 5, 6]"
    "sorted_wrt (<) (map mg_version ms)" "\<forall>m\<in>set ms. 0 < mg_version m"
proof -
  obtain ms where ms: "loadMigrations embedded_files = Inr ms" "map mg_version ms = [1, 2, 3, 4, 5, 6]"
    by (rule that [of "case loadMigrations embedded_files of Inl _ \<Rightarrow> [] | Inr ms \<Rightarrow> ms"]) code_simp+
  have "\<forall>v\<in>set (map mg_version ms). 0 < v" by (simp only: ms(2)) simp
  then have "\<forall>m\<in>set ms. 0 < mg_version m" by simp
  then show thesis by (intro that [OF ms]) (simp_all add: ms(2))
qed

theorem migrate_resumes_witness:
  "map_sum (\<lambda>_. ()) (map mg_version) (loadMigrations embedded_files) = Inr [1, 2, 3, 4, 5, 6] \<and>
   fst (migrate (\<lambda>sql q. Inr (q @ [sql])) embedded_files
     \<lparr>q_versions = None, q_schema = [], q_faults = [], q_clock = (\<lambda>_. 0)\<rparr>) = Inr ()"
proof -
  let ?d = "\<lparr>q_versions = None, q_schema = [], q_faults = [], q_clock = (\<lambda>_. 0)\<rparr>"
  obtain ms where ms: "loadMigrations embedded_files = Inr ms" "map mg_version ms = [1, 2, 3, 4, 5, 6]"
    and v: "sorted_wrt (<) (map mg_version ms)" "\<forall>m\<in>set ms. 0 < mg_version m"
    by (rule embedded_load)
  have ok: "\<exists>q. schema_after (\<lambda>sql q. Inr (q @ [sql])) q0 ms = Inr q" for q0 by (induction ms arbitrary: q0) auto
  have d: "distinct (map mg_version ms)" by (simp add: ms(2))
  have at: "at_step (\<lambda>sql q. Inr (q @ [sql])) [] ms 0 ?d" by (simp add: at_step_def q_rows_def)
  from migrate_resumes [OF ms(1) d v(2) at surjective_pairing] ok [of "[]"] ms show ?thesis by simp
qed

end
