(* ===== verification/LibvirtConn.thy ===== *)
theory LibvirtConn
  imports Conn Complex_Main
begin

text \<open>
  The connection to a real hypervisor, \<open>internal/libvirt/libvirtconn.go\<close> and \<open>factory.go\<close>. The
  go-libvirt client is the parameter \<open>golibvirt\<close>: its functions, the constants the code names,
  and the decoder of \<open>encoding/xml\<close> at the two documents that are read. \<open>'l\<close> is the type of its
  client handles, \<open>'d\<close> the state of everything behind them (the socket and the daemon). An error
  of the daemon carries its number as \<open>LibvirtError\<close>.
\<close>

section \<open>The client library\<close>

record rpcDomain =
  rd_Name :: string
  rd_UUID :: "8 word list"

record rpcPool =
  rp_Name :: string

record rpcVol =
  rv_Pool :: string
  rv_Name :: string

record rpcNetwork =
  rn_Name :: string

record rpcSnapshot =
  rs_Name :: string
  rs_Dom :: string

datatype TypedParamValue =
    TInt int | TInt32 int | TInt64 int | TUint "64 word" | TUint32 "32 word" | TUint64 "64 word" | TFloat64 rat
  | TOther

record TypedParam =
  tp_Field :: string
  tp_Value :: TypedParamValue

record DomainStatsRecord =
  sr_Dom :: rpcDomain
  sr_Params :: "TypedParam list"

text \<open>The fields of the two documents the code decodes: a \<open>graphics\<close> element of a domain, and the
  state and creation time of a snapshot.\<close>

record graphics =
  gr_Type :: string
  gr_Port :: string
  gr_Listen :: string
  gr_ListenEl :: "string list"

type_synonym ('d, 'a) rpc = "'d \<Rightarrow> 'a res \<times> 'd"

record ('l, 'd) golibvirt =
  g_IsConnected :: "'l \<Rightarrow> 'd \<Rightarrow> bool"
  g_ConnectToURI :: "string \<Rightarrow> ('d, 'l) rpc"
  g_Disconnect :: "'l \<Rightarrow> ('d, unit) rpc"
  g_ConnectGetLibVersion :: "'l \<Rightarrow> ('d, 64 word) rpc"
  g_ConnectGetHostname :: "'l \<Rightarrow> ('d, string) rpc"
  g_NodeGetInfo :: "'l \<Rightarrow> ('d, 64 word \<times> int) rpc"
  g_NodeGetFreeMemory :: "'l \<Rightarrow> ('d, 64 word) rpc"
  g_IsNotFound :: "goerr \<Rightarrow> bool"
  g_DomainLookupByName :: "'l \<Rightarrow> string \<Rightarrow> ('d, rpcDomain) rpc"
  g_DomainDefineXML :: "'l \<Rightarrow> string \<Rightarrow> ('d, rpcDomain) rpc"
  g_DomainCreate :: "'l \<Rightarrow> rpcDomain \<Rightarrow> ('d, unit) rpc"
  g_DomainShutdown :: "'l \<Rightarrow> rpcDomain \<Rightarrow> ('d, unit) rpc"
  g_DomainReboot :: "'l \<Rightarrow> rpcDomain \<Rightarrow> ('d, unit) rpc"
  g_DomainDestroy :: "'l \<Rightarrow> rpcDomain \<Rightarrow> ('d, unit) rpc"
  g_DomainSuspend :: "'l \<Rightarrow> rpcDomain \<Rightarrow> ('d, unit) rpc"
  g_DomainResume :: "'l \<Rightarrow> rpcDomain \<Rightarrow> ('d, unit) rpc"
  g_DomainUndefine :: "'l \<Rightarrow> rpcDomain \<Rightarrow> ('d, unit) rpc"
  g_DomainGetState :: "'l \<Rightarrow> rpcDomain \<Rightarrow> ('d, 32 word) rpc"
  g_ConnectListAllDomains :: "'l \<Rightarrow> ('d, rpcDomain list) rpc"
  g_DomainGetXMLDesc :: "'l \<Rightarrow> rpcDomain \<Rightarrow> ('d, string) rpc"
  g_DomainUpdateDeviceFlags :: "'l \<Rightarrow> rpcDomain \<Rightarrow> string \<Rightarrow> 32 word \<Rightarrow> ('d, unit) rpc"
  g_StoragePoolLookupByName :: "'l \<Rightarrow> string \<Rightarrow> ('d, rpcPool) rpc"
  g_StoragePoolGetInfo :: "'l \<Rightarrow> rpcPool \<Rightarrow> ('d, 64 word \<times> 64 word) rpc"
  g_StorageVolCreateXML :: "'l \<Rightarrow> rpcPool \<Rightarrow> string \<Rightarrow> ('d, rpcVol) rpc"
  g_StorageVolGetPath :: "'l \<Rightarrow> rpcVol \<Rightarrow> ('d, string) rpc"
  g_StorageVolLookupByName :: "'l \<Rightarrow> rpcPool \<Rightarrow> string \<Rightarrow> ('d, rpcVol) rpc"
  g_StorageVolDelete :: "'l \<Rightarrow> rpcVol \<Rightarrow> ('d, unit) rpc"
  g_StorageVolResize :: "'l \<Rightarrow> rpcVol \<Rightarrow> 64 word \<Rightarrow> ('d, unit) rpc"
  g_ConnectGetAllDomainStats :: "'l \<Rightarrow> 32 word \<Rightarrow> ('d, DomainStatsRecord list) rpc"
  g_NetworkLookupByName :: "'l \<Rightarrow> string \<Rightarrow> ('d, rpcNetwork) rpc"
  g_NetworkUpdate :: "'l \<Rightarrow> rpcNetwork \<Rightarrow> 32 word \<Rightarrow> 32 word \<Rightarrow> int \<Rightarrow> string \<Rightarrow> 32 word \<Rightarrow> ('d, unit) rpc"
  g_DomainSnapshotCreateXML :: "'l \<Rightarrow> rpcDomain \<Rightarrow> string \<Rightarrow> ('d, rpcSnapshot) rpc"
  g_DomainListAllSnapshots :: "'l \<Rightarrow> rpcDomain \<Rightarrow> ('d, rpcSnapshot list) rpc"
  g_DomainSnapshotCurrent :: "'l \<Rightarrow> rpcDomain \<Rightarrow> ('d, rpcSnapshot) rpc"
  g_DomainSnapshotGetXMLDesc :: "'l \<Rightarrow> rpcSnapshot \<Rightarrow> ('d, string) rpc"
  g_DomainSnapshotLookupByName :: "'l \<Rightarrow> rpcDomain \<Rightarrow> string \<Rightarrow> ('d, rpcSnapshot) rpc"
  g_DomainSnapshotDelete :: "'l \<Rightarrow> rpcSnapshot \<Rightarrow> ('d, unit) rpc"
  g_DomainRevertToSnapshot :: "'l \<Rightarrow> rpcSnapshot \<Rightarrow> ('d, unit) rpc"
  g_DomainRunning :: "32 word"
  g_DomainPaused :: "32 word"
  g_DomainShutdownState :: "32 word"
  g_DomainShutoff :: "32 word"
  g_DomainCrashed :: "32 word"
  g_ErrNoStoragePool :: nat
  g_ErrNoStorageVol :: nat
  g_ErrOperationInvalid :: nat
  g_ErrNoDomainSnapshot :: nat
  g_DomainDeviceModifyLive :: "32 word"
  g_DomainDeviceModifyConfig :: "32 word"
  g_DomainStatsState :: "32 word"
  g_DomainStatsCPUTotal :: "32 word"
  g_DomainStatsBalloon :: "32 word"
  g_DomainStatsInterface :: "32 word"
  g_DomainStatsBlock :: "32 word"
  g_NetworkUpdateCommandAddLast :: "32 word"
  g_NetworkUpdateCommandDelete :: "32 word"
  g_NetworkSectionIPDhcpHost :: "32 word"
  g_NetworkUpdateAffectLive :: "32 word"
  g_NetworkUpdateAffectConfig :: "32 word"
  x_Unmarshal_graphics :: "string \<Rightarrow> graphics list res"
  x_Unmarshal_snapshot :: "string \<Rightarrow> (string \<times> int) res"
  x_float_to_uint64 :: "rat \<Rightarrow> 64 word"

section \<open>Helpers\<close>

definition mapState :: "('l, 'd) golibvirt \<Rightarrow> 32 word \<Rightarrow> DomainState" where
  "mapState G state =
     (if state = g_DomainRunning G then StateRunning
      else if state = g_DomainPaused G then StatePaused
      else if state \<in> {g_DomainShutoff G, g_DomainShutdownState G, g_DomainCrashed G} then StateShutoff
      else StateUnknown)"

definition formatUUID :: "8 word list \<Rightarrow> string" where
  "formatUUID u = (let hex = \<lambda>a b. concat (map hex2 (drop a (take b u)))
     in hex 0 4 @ ''-'' @ hex 4 6 @ ''-'' @ hex 6 8 @ ''-'' @ hex 8 10 @ ''-'' @ hex 10 16)"

definition buildVolumeXML :: "StorageVolSpec \<Rightarrow> string" where
  "buildVolumeXML spec =
     (let q = [CHR 0x27]
      in ''<volume type='' @ q @ ''file'' @ q @ ''>'' @
         ''<name>'' @ vs_Name spec @ ''</name>'' @
         ''<capacity unit='' @ q @ ''bytes'' @ q @ ''>'' @ dec_of_nat (unat (vs_CapacityBytes spec)) @ ''</capacity>'' @
         ''<target><format type='' @ q @ ''qcow2'' @ q @ ''/></target>'' @
         (if vs_BackingPath spec \<noteq> []
          then (let backingFmt = (if vs_BackingFmt spec = [] then ''qcow2'' else vs_BackingFmt spec)
                in ''<backingStore><path>'' @ vs_BackingPath spec @ ''</path><format type='' @ q @ backingFmt @ q @ ''/></backingStore>'')
          else []) @
         ''</volume>'')"

text \<open>A conversion of a float to \<open>uint64\<close> outside its range is left to the implementation.\<close>

fun tpUint64 :: "(rat \<Rightarrow> 64 word) \<Rightarrow> TypedParamValue \<Rightarrow> 64 word" where
  "tpUint64 out (TInt n) = (if n < 0 then 0 else word_of_int n)"
| "tpUint64 out (TInt32 n) = (if n < 0 then 0 else word_of_int n)"
| "tpUint64 out (TInt64 n) = (if n < 0 then 0 else word_of_int n)"
| "tpUint64 out (TUint n) = n"
| "tpUint64 out (TUint32 n) = ucast n"
| "tpUint64 out (TUint64 n) = n"
| "tpUint64 out (TFloat64 n) = (if n < 0 then 0 else if n < 2 ^ 64 then word_of_int \<lfloor>n\<rfloor> else out n)"
| "tpUint64 out TOther = 0"

definition device_field :: "string \<Rightarrow> string \<Rightarrow> string \<Rightarrow> bool" where
  "device_field f pre suf \<longleftrightarrow> HasPrefix f pre \<and> HasSuffix f suf"

definition parse_param :: "('l, 'd) golibvirt \<Rightarrow> DomainStats \<Rightarrow> TypedParam \<Rightarrow> DomainStats" where
  "parse_param G s p =
     (let v = tpUint64 (x_float_to_uint64 G) (tp_Value p); f = tp_Field p
      in if f = ''state.state'' then s\<lparr>ds_State := mapState G (ucast v)\<rparr>
         else if f = ''cpu.time'' then s\<lparr>ds_CPUTimeNs := v\<rparr>
         else if f = ''balloon.current'' then s\<lparr>ds_MemBalloonKiB := v\<rparr>
         else if f = ''balloon.rss'' then s\<lparr>ds_MemRSSKiB := v\<rparr>
         else if device_field f ''net.'' ''.rx.bytes'' then s\<lparr>ds_NetRxBytes := ds_NetRxBytes s + v\<rparr>
         else if device_field f ''net.'' ''.tx.bytes'' then s\<lparr>ds_NetTxBytes := ds_NetTxBytes s + v\<rparr>
         else if device_field f ''block.'' ''.rd.bytes'' then s\<lparr>ds_BlockRdBytes := ds_BlockRdBytes s + v\<rparr>
         else if device_field f ''block.'' ''.wr.bytes'' then s\<lparr>ds_BlockWrBytes := ds_BlockWrBytes s + v\<rparr>
         else if device_field f ''block.'' ''.allocation'' then s\<lparr>ds_BlockAllocation := ds_BlockAllocation s + v\<rparr>
         else if device_field f ''block.'' ''.capacity'' then s\<lparr>ds_BlockCapacity := ds_BlockCapacity s + v\<rparr>
         else s)"

definition parseStats :: "('l, 'd) golibvirt \<Rightarrow> DomainStatsRecord \<Rightarrow> DomainStats" where
  "parseStats G rec = foldl (parse_param G) (zero_DomainStats\<lparr>ds_Name := rd_Name (sr_Dom rec)\<rparr>) (sr_Params rec)"

definition formatLibvirtVersion :: "64 word \<Rightarrow> string" where
  "formatLibvirtVersion v =
     (let d = \<lambda>x :: 64 word. dec_of_nat (unat x)
      in d (v div 1000000) @ ''.'' @ d ((v div 1000) mod 1000) @ ''.'' @ d (v mod 1000))"

text \<open>\<open>xml.EscapeText\<close> on valid UTF-8: markup, quotes and the white space that a parser would
  normalise become references; other control characters, U+FFFE and U+FFFF become U+FFFD.\<close>

definition esc_char :: "char \<Rightarrow> string" where
  "esc_char c = (if c = CHR 0x22 then ''&#34;'' else if c = CHR 0x27 then ''&#39;'' else if c = CHR ''&'' then ''&amp;''
     else if c = CHR ''<'' then ''&lt;'' else if c = CHR ''>'' then ''&gt;'' else if c = CHR 0x09 then ''&#x9;''
     else if c = CHR 0x0A then ''&#xA;'' else if c = CHR 0x0D then ''&#xD;''
     else if (of_char c :: nat) < 32 then [CHR 0xEF, CHR 0xBF, CHR 0xBD] else [c])"

function xmlEscape :: "string \<Rightarrow> string" where
  "xmlEscape [] = []"
| "xmlEscape (c # s) =
     (if c = CHR 0xEF \<and> take 2 s \<in> {[CHR 0xBF, CHR 0xBE], [CHR 0xBF, CHR 0xBF]}
      then [CHR 0xEF, CHR 0xBF, CHR 0xBD] @ xmlEscape (drop 2 s)
      else esc_char c @ xmlEscape s)"
  by pat_completeness auto
termination
  by (relation "measure length") auto

definition buildSnapshotXML :: "string \<Rightarrow> string \<Rightarrow> string" where
  "buildSnapshotXML name description =
     ''<domainsnapshot>'' @ ''<name>'' @ xmlEscape name @ ''</name>'' @
     (if description \<noteq> [] then ''<description>'' @ xmlEscape description @ ''</description>'' else []) @
     ''</domainsnapshot>''"

definition parseSnapshotXML :: "('l, 'd) golibvirt \<Rightarrow> string \<Rightarrow> time \<times> string" where
  "parseSnapshotXML G desc = (case x_Unmarshal_snapshot G desc of
     Inl _ \<Rightarrow> (time_zero, [])
   | Inr (state, creationTime) \<Rightarrow> (if creationTime > 0 then creationTime * second else time_zero, state))"

fun vnc_address :: "graphics list \<Rightarrow> (string \<times> int) res" where
  "vnc_address [] = Inl (errors_New ''no vnc graphics device on domain'')"
| "vnc_address (g # gs) =
     (if gr_Type g \<noteq> ''vnc'' then vnc_address gs
      else case Atoi (TrimSpace (gr_Port g)) of
        None \<Rightarrow> Inl (errors_New ''vnc port not allocated (domain not running)'')
      | Some port \<Rightarrow>
          if port \<le> 0 then Inl (errors_New ''vnc port not allocated (domain not running)'')
          else let host = gr_Listen g;
                   host1 = (if host = [] \<and> gr_ListenEl g \<noteq> [] then hd (gr_ListenEl g) else host);
                   host2 = (if host1 = [] then ''127.0.0.1'' else host1)
               in Inr (host2, port))"

definition parseVNCFromXML :: "('l, 'd) golibvirt \<Rightarrow> string \<Rightarrow> (string \<times> int) res" where
  "parseVNCFromXML G desc = (case x_Unmarshal_graphics G desc of
     Inl e \<Rightarrow> Inl (wrap_err ''parse domain xml'' e)
   | Inr gs \<Rightarrow> vnc_address gs)"

fun libvirt_code :: "sentinel list \<Rightarrow> nat option" where
  "libvirt_code [] = None"
| "libvirt_code (LibvirtError n # es) = Some n"
| "libvirt_code (_ # es) = libvirt_code es"

definition isLibvirtErr :: "goerr \<Rightarrow> nat \<Rightarrow> bool" where
  "isLibvirtErr e code \<longleftrightarrow> libvirt_code (err_wraps e) = Some code"

section \<open>The connection\<close>

record ('l, 'd) libvirtConn =
  lc_uri :: string
  lc_l :: "'l option"
  lc_net :: 'd

definition newLibvirtConn :: "string \<Rightarrow> 'd \<Rightarrow> ('l, 'd) libvirtConn" where
  "newLibvirtConn uri net = \<lparr>lc_uri = uri, lc_l = None, lc_net = net\<rparr>"

type_synonym ('l, 'd, 'a) virt = "('l, 'd) libvirtConn \<Rightarrow> 'a res \<times> ('l, 'd) libvirtConn"

text \<open>A call of the client.\<close>

definition on_rpc :: "('d, 'a) rpc \<Rightarrow> ('l, 'd, 'a) virt" where
  "on_rpc f c = (case f (lc_net c) of (r, s) \<Rightarrow> (r, c\<lparr>lc_net := s\<rparr>))"

definition ensure :: "('l, 'd) golibvirt \<Rightarrow> ('l, 'd, 'l) virt" where
  "ensure G c =
     (let dial = (case on_rpc (g_ConnectToURI G (lc_uri c)) c of
            (Inl e, c1) \<Rightarrow> (Inl (wrap_err (''connect '' @ lc_uri c) e), c1)
          | (Inr l, c1) \<Rightarrow> (Inr l, c1\<lparr>lc_l := Some l\<rparr>))
      in case lc_l c of
           None \<Rightarrow> dial
         | Some l \<Rightarrow> if g_IsConnected G l (lc_net c) then (Inr l, c) else dial)"

text \<open>The shapes the methods share: a client and a call with it; a client, a domain, and a call on
  it.\<close>

definition with_client :: "('l, 'd) golibvirt \<Rightarrow> ('l \<Rightarrow> ('l, 'd, 'a) virt) \<Rightarrow> ('l, 'd, 'a) virt" where
  "with_client G f c = (case ensure G c of
     (Inl e, c1) \<Rightarrow> (Inl e, c1)
   | (Inr l, c1) \<Rightarrow> f l c1)"

definition lookup_dom :: "('l, 'd) golibvirt \<Rightarrow> string \<Rightarrow> ('l, 'd, 'l \<times> rpcDomain) virt" where
  "lookup_dom G name = with_client G (\<lambda>l c. case on_rpc (g_DomainLookupByName G l name) c of
     (Inl e, c1) \<Rightarrow> (Inl (if g_IsNotFound G e then sentinel_err ErrDomainNotFound else e), c1)
   | (Inr d, c1) \<Rightarrow> (Inr (l, d), c1))"

definition with_dom :: "('l, 'd) golibvirt \<Rightarrow> string \<Rightarrow> ('l \<Rightarrow> rpcDomain \<Rightarrow> ('l, 'd, 'a) virt) \<Rightarrow> ('l, 'd, 'a) virt" where
  "with_dom G name f c = (case lookup_dom G name c of
     (Inl e, c1) \<Rightarrow> (Inl e, c1)
   | (Inr (l, d), c1) \<Rightarrow> f l d c1)"

text \<open>A call whose result goes on, and whose error is changed on the way out.\<close>

definition then_with :: "(goerr \<Rightarrow> goerr) \<Rightarrow> ('l, 'd, 'a) virt \<Rightarrow> ('a \<Rightarrow> ('l, 'd, 'b) virt) \<Rightarrow> ('l, 'd, 'b) virt" where
  "then_with err f g c = (case f c of
     (Inl e, c1) \<Rightarrow> (Inl (err e), c1)
   | (Inr x, c1) \<Rightarrow> g x c1)"

definition virt_Connect :: "('l, 'd) golibvirt \<Rightarrow> ('l, 'd, unit) virt" where
  "virt_Connect G = with_client G (\<lambda>l c. (Inr (), c))"

definition virt_Close :: "('l, 'd) golibvirt \<Rightarrow> ('l, 'd, unit) virt" where
  "virt_Close G c = (case lc_l c of
     None \<Rightarrow> (Inr (), c)
   | Some l \<Rightarrow> (case on_rpc (g_Disconnect G l) c of (r, c1) \<Rightarrow> (r, c1\<lparr>lc_l := None\<rparr>)))"

definition virt_reset :: "('l, 'd) libvirtConn \<Rightarrow> ('l, 'd) libvirtConn" where
  "virt_reset c = c\<lparr>lc_l := None\<rparr>"

definition virt_Ping :: "('l, 'd) golibvirt \<Rightarrow> ('l, 'd, unit) virt" where
  "virt_Ping G = with_client G (\<lambda>l c. case on_rpc (g_ConnectGetLibVersion G l) c of
     (Inl e, c1) \<Rightarrow> (Inl e, virt_reset c1)
   | (Inr _, c1) \<Rightarrow> (Inr (), c1))"

definition virt_DefineDomain :: "('l, 'd) golibvirt \<Rightarrow> string \<Rightarrow> ('l, 'd, string) virt" where
  "virt_DefineDomain G xml = with_client G (\<lambda>l. then_with id (on_rpc (g_DomainDefineXML G l xml))
     (\<lambda>dom c. (Inr (formatUUID (rd_UUID dom)), c)))"

definition virt_StartDomain :: "('l, 'd) golibvirt \<Rightarrow> string \<Rightarrow> ('l, 'd, unit) virt" where
  "virt_StartDomain G name = with_dom G name (\<lambda>l dom. on_rpc (g_DomainCreate G l dom))"

definition virt_ShutdownDomain :: "('l, 'd) golibvirt \<Rightarrow> string \<Rightarrow> ('l, 'd, unit) virt" where
  "virt_ShutdownDomain G name = with_dom G name (\<lambda>l dom. on_rpc (g_DomainShutdown G l dom))"

definition virt_RebootDomain :: "('l, 'd) golibvirt \<Rightarrow> string \<Rightarrow> ('l, 'd, unit) virt" where
  "virt_RebootDomain G name = with_dom G name (\<lambda>l dom. on_rpc (g_DomainReboot G l dom))"

definition virt_DestroyDomain :: "('l, 'd) golibvirt \<Rightarrow> string \<Rightarrow> ('l, 'd, unit) virt" where
  "virt_DestroyDomain G name = with_dom G name (\<lambda>l dom. on_rpc (g_DomainDestroy G l dom))"

definition virt_SuspendDomain :: "('l, 'd) golibvirt \<Rightarrow> string \<Rightarrow> ('l, 'd, unit) virt" where
  "virt_SuspendDomain G name = with_dom G name (\<lambda>l dom. on_rpc (g_DomainSuspend G l dom))"

definition virt_ResumeDomain :: "('l, 'd) golibvirt \<Rightarrow> string \<Rightarrow> ('l, 'd, unit) virt" where
  "virt_ResumeDomain G name = with_dom G name (\<lambda>l dom. on_rpc (g_DomainResume G l dom))"

definition virt_UndefineDomain :: "('l, 'd) golibvirt \<Rightarrow> string \<Rightarrow> ('l, 'd, unit) virt" where
  "virt_UndefineDomain G name = with_dom G name (\<lambda>l dom. on_rpc (g_DomainUndefine G l dom))"

definition virt_DomainState :: "('l, 'd) golibvirt \<Rightarrow> string \<Rightarrow> ('l, 'd, DomainState) virt" where
  "virt_DomainState G name = with_dom G name (\<lambda>l dom. then_with id (on_rpc (g_DomainGetState G l dom))
     (\<lambda>state c. (Inr (mapState G state), c)))"

definition virt_ListDomains :: "('l, 'd) golibvirt \<Rightarrow> ('l, 'd, string list) virt" where
  "virt_ListDomains G = with_client G (\<lambda>l. then_with id (on_rpc (g_ConnectListAllDomains G l))
     (\<lambda>doms c. (Inr (map rd_Name doms), c)))"

definition virt_DomainXML :: "('l, 'd) golibvirt \<Rightarrow> string \<Rightarrow> ('l, 'd, string) virt" where
  "virt_DomainXML G name = with_dom G name (\<lambda>l dom. on_rpc (g_DomainGetXMLDesc G l dom))"

definition virt_UpdateInterface :: "('l, 'd) golibvirt \<Rightarrow> string \<Rightarrow> string \<Rightarrow> ('l, 'd, unit) virt" where
  "virt_UpdateInterface G name ifaceXML = with_dom G name (\<lambda>l dom.
     on_rpc (g_DomainUpdateDeviceFlags G l dom ifaceXML (or (g_DomainDeviceModifyLive G) (g_DomainDeviceModifyConfig G))))"

definition virt_DomainVNCAddress :: "('l, 'd) golibvirt \<Rightarrow> string \<Rightarrow> ('l, 'd, string \<times> int) virt" where
  "virt_DomainVNCAddress G name = with_dom G name (\<lambda>l dom. then_with id (on_rpc (g_DomainGetXMLDesc G l dom))
     (\<lambda>desc c. (parseVNCFromXML G desc, c)))"

definition virt_CreateVolume :: "('l, 'd) golibvirt \<Rightarrow> StorageVolSpec \<Rightarrow> ('l, 'd, string) virt" where
  "virt_CreateVolume G spec = with_client G (\<lambda>l.
     then_with (wrap_err (''lookup pool '' @ Quote (vs_Pool spec))) (on_rpc (g_StoragePoolLookupByName G l (vs_Pool spec)))
       (\<lambda>pool. then_with id (on_rpc (g_StorageVolCreateXML G l pool (buildVolumeXML spec)))
         (\<lambda>vol. on_rpc (g_StorageVolGetPath G l vol))))"

definition virt_DeleteVolume :: "('l, 'd) golibvirt \<Rightarrow> string \<Rightarrow> string \<Rightarrow> ('l, 'd, unit) virt" where
  "virt_DeleteVolume G pool name = with_client G (\<lambda>l c. case on_rpc (g_StoragePoolLookupByName G l pool) c of
     (Inl e, c1) \<Rightarrow> (if isLibvirtErr e (g_ErrNoStoragePool G) then Inr () else Inl e, c1)
   | (Inr p, c1) \<Rightarrow> (case on_rpc (g_StorageVolLookupByName G l p name) c1 of
       (Inl e, c2) \<Rightarrow> (if isLibvirtErr e (g_ErrNoStorageVol G) then Inr () else Inl e, c2)
     | (Inr vol, c2) \<Rightarrow> on_rpc (g_StorageVolDelete G l vol) c2))"

definition virt_ResizeVolume :: "('l, 'd) golibvirt \<Rightarrow> string \<Rightarrow> string \<Rightarrow> 64 word \<Rightarrow> ('l, 'd, unit) virt" where
  "virt_ResizeVolume G pool name capacityBytes = with_client G (\<lambda>l.
     then_with (wrap_err (''lookup pool '' @ Quote pool)) (on_rpc (g_StoragePoolLookupByName G l pool))
       (\<lambda>p. then_with (wrap_err (''lookup volume '' @ Quote name)) (on_rpc (g_StorageVolLookupByName G l p name))
         (\<lambda>vol. on_rpc (g_StorageVolResize G l vol capacityBytes))))"

definition stats_flags :: "('l, 'd) golibvirt \<Rightarrow> 32 word" where
  "stats_flags G = or (or (or (or (g_DomainStatsState G) (g_DomainStatsCPUTotal G)) (g_DomainStatsBalloon G))
     (g_DomainStatsInterface G)) (g_DomainStatsBlock G)"

definition virt_AllDomainStats :: "('l, 'd) golibvirt \<Rightarrow> ('l, 'd, DomainStats list) virt" where
  "virt_AllDomainStats G = with_client G (\<lambda>l. then_with id (on_rpc (g_ConnectGetAllDomainStats G l (stats_flags G)))
     (\<lambda>records c. (Inr (map (parseStats G) records), c)))"

definition lookupNetwork :: "('l, 'd) golibvirt \<Rightarrow> string \<Rightarrow> ('l, 'd, 'l \<times> rpcNetwork) virt" where
  "lookupNetwork G name = with_client G (\<lambda>l.
     then_with (wrap_err (''lookup network '' @ Quote name)) (on_rpc (g_NetworkLookupByName G l name))
       (\<lambda>net c. (Inr (l, net), c)))"

definition dhcp_host :: "string \<Rightarrow> string \<Rightarrow> string \<Rightarrow> string" where
  "dhcp_host mac name ip = (let q = [CHR 0x27]
     in ''<host mac='' @ q @ mac @ q @ '' name='' @ q @ name @ q @ '' ip='' @ q @ ip @ q @ ''/>'')"

definition dhcp_mac :: "string \<Rightarrow> string" where
  "dhcp_mac mac = (let q = [CHR 0x27] in ''<host mac='' @ q @ mac @ q @ ''/>'')"

definition dhcp_update :: "('l, 'd) golibvirt \<Rightarrow> 'l \<Rightarrow> rpcNetwork \<Rightarrow> 32 word \<Rightarrow> string \<Rightarrow> ('d, unit) rpc" where
  "dhcp_update G l net cmd xml = g_NetworkUpdate G l net cmd (g_NetworkSectionIPDhcpHost G) (-1) xml
     (or (g_NetworkUpdateAffectLive G) (g_NetworkUpdateAffectConfig G))"

definition virt_AddDHCPHost :: "('l, 'd) golibvirt \<Rightarrow> string \<Rightarrow> string \<Rightarrow> string \<Rightarrow> string \<Rightarrow> ('l, 'd, unit) virt" where
  "virt_AddDHCPHost G network mac name ip = then_with id (lookupNetwork G network) (\<lambda>(l, net).
     on_rpc (dhcp_update G l net (g_NetworkUpdateCommandAddLast G) (dhcp_host mac name ip)))"

definition virt_RemoveDHCPHost :: "('l, 'd) golibvirt \<Rightarrow> string \<Rightarrow> string \<Rightarrow> ('l, 'd, unit) virt" where
  "virt_RemoveDHCPHost G network mac = then_with id (lookupNetwork G network) (\<lambda>(l, net) c.
     case on_rpc (dhcp_update G l net (g_NetworkUpdateCommandDelete G) (dhcp_mac mac)) c of
       (Inl e, c1) \<Rightarrow> (if isLibvirtErr e (g_ErrOperationInvalid G) then Inr () else Inl e, c1)
     | (Inr u, c1) \<Rightarrow> (Inr u, c1))"

text \<open>A reading that is left at its zero value when it fails.\<close>

definition optional :: "('l, 'd, 'a) virt \<Rightarrow> ('a \<Rightarrow> 'i \<Rightarrow> 'i) \<Rightarrow> 'i \<times> ('l, 'd) libvirtConn \<Rightarrow> 'i \<times> ('l, 'd) libvirtConn" where
  "optional f put ic = (case ic of (info, c) \<Rightarrow> (case f c of
     (Inl _, c1) \<Rightarrow> (info, c1)
   | (Inr x, c1) \<Rightarrow> (put x info, c1)))"

definition virt_HostInfo :: "('l, 'd) golibvirt \<Rightarrow> string \<Rightarrow> ('l, 'd, HostInfo) virt" where
  "virt_HostInfo G pool = with_client G (\<lambda>l. then_with (wrap_err ''node info'') (on_rpc (g_NodeGetInfo G l))
     (\<lambda>(memKiB, cpus) c.
       let info = \<lparr>hi_Hostname = [], hi_CPUs = cpus, hi_MemoryTotalBytes = memKiB * 1024, hi_MemoryFreeBytes = 0,
             hi_StorageBytes = 0, hi_StorageFreeBytes = 0, hi_LibvirtVersion = []\<rparr>;
           s1 = optional (on_rpc (g_NodeGetFreeMemory G l)) (\<lambda>free. hi_MemoryFreeBytes_update (\<lambda>_. free)) (info, c);
           s2 = optional (on_rpc (g_ConnectGetHostname G l)) (\<lambda>hn. hi_Hostname_update (\<lambda>_. hn)) s1;
           s3 = optional (on_rpc (g_ConnectGetLibVersion G l)) (\<lambda>ver. hi_LibvirtVersion_update (\<lambda>_. formatLibvirtVersion ver)) s2;
           s4 = optional (then_with id (on_rpc (g_StoragePoolLookupByName G l pool)) (\<lambda>p. on_rpc (g_StoragePoolGetInfo G l p)))
             (\<lambda>(capacity, available) i. i\<lparr>hi_StorageBytes := capacity, hi_StorageFreeBytes := available\<rparr>) s3
       in (Inr (fst s4), snd s4)))"

definition virt_CreateSnapshot :: "('l, 'd) golibvirt \<Rightarrow> string \<Rightarrow> string \<Rightarrow> string \<Rightarrow> ('l, 'd, unit) virt" where
  "virt_CreateSnapshot G domain name description = with_dom G domain (\<lambda>l dom.
     then_with id (on_rpc (g_DomainSnapshotCreateXML G l dom (buildSnapshotXML name description))) (\<lambda>_ c. (Inr (), c)))"

fun snapshot_infos :: "('l, 'd) golibvirt \<Rightarrow> 'l \<Rightarrow> string \<Rightarrow> rpcSnapshot list \<Rightarrow> ('l, 'd) libvirtConn
    \<Rightarrow> SnapshotInfo list \<times> ('l, 'd) libvirtConn" where
  "snapshot_infos G l currentName [] c = ([], c)"
| "snapshot_infos G l currentName (s # ss) c =
     (case on_rpc (g_DomainSnapshotGetXMLDesc G l s) c of (r, c1) \<Rightarrow>
        let (created, state) = (case r of Inl _ \<Rightarrow> (time_zero, []) | Inr desc \<Rightarrow> parseSnapshotXML G desc);
            (out, c2) = snapshot_infos G l currentName ss c1
        in (\<lparr>sn_Name = rs_Name s, sn_State = state, sn_CreationTime = created, sn_Current = (rs_Name s = currentName)\<rparr> # out, c2))"

definition virt_ListSnapshots :: "('l, 'd) golibvirt \<Rightarrow> string \<Rightarrow> ('l, 'd, SnapshotInfo list) virt" where
  "virt_ListSnapshots G domain = with_dom G domain (\<lambda>l dom. then_with id (on_rpc (g_DomainListAllSnapshots G l dom))
     (\<lambda>snaps c. case optional (on_rpc (g_DomainSnapshotCurrent G l dom)) (\<lambda>cur _. rs_Name cur) ([], c) of
        (currentName, c1) \<Rightarrow> (case snapshot_infos G l currentName snaps c1 of (out, c2) \<Rightarrow> (Inr out, c2))))"

definition virt_DeleteSnapshot :: "('l, 'd) golibvirt \<Rightarrow> string \<Rightarrow> string \<Rightarrow> ('l, 'd, unit) virt" where
  "virt_DeleteSnapshot G domain name = with_dom G domain (\<lambda>l dom c.
     case on_rpc (g_DomainSnapshotLookupByName G l dom name) c of
       (Inl e, c1) \<Rightarrow> (if isLibvirtErr e (g_ErrNoDomainSnapshot G) then Inr () else Inl e, c1)
     | (Inr snap, c1) \<Rightarrow> on_rpc (g_DomainSnapshotDelete G l snap) c1)"

definition virt_RevertSnapshot :: "('l, 'd) golibvirt \<Rightarrow> string \<Rightarrow> string \<Rightarrow> ('l, 'd, unit) virt" where
  "virt_RevertSnapshot G domain name = with_dom G domain (\<lambda>l dom.
     then_with id (on_rpc (g_DomainSnapshotLookupByName G l dom name)) (\<lambda>snap. on_rpc (g_DomainRevertToSnapshot G l snap)))"

definition virt_ops :: "('l, 'd) golibvirt \<Rightarrow> ('l, 'd) libvirtConn conn_ops" where
  "virt_ops G = \<lparr>co_Connect = virt_Connect G, co_Close = virt_Close G, co_Ping = virt_Ping G,
     co_HostInfo = virt_HostInfo G, co_DefineDomain = virt_DefineDomain G,
     co_StartDomain = virt_StartDomain G, co_ShutdownDomain = virt_ShutdownDomain G,
     co_RebootDomain = virt_RebootDomain G, co_DestroyDomain = virt_DestroyDomain G,
     co_SuspendDomain = virt_SuspendDomain G, co_ResumeDomain = virt_ResumeDomain G,
     co_UndefineDomain = virt_UndefineDomain G, co_UpdateInterface = virt_UpdateInterface G,
     co_DomainState = virt_DomainState G, co_ListDomains = virt_ListDomains G,
     co_DomainXML = virt_DomainXML G, co_DomainVNCAddress = virt_DomainVNCAddress G,
     co_CreateVolume = virt_CreateVolume G, co_DeleteVolume = virt_DeleteVolume G,
     co_ResizeVolume = virt_ResizeVolume G, co_AllDomainStats = virt_AllDomainStats G,
     co_AddDHCPHost = virt_AddDHCPHost G, co_RemoveDHCPHost = virt_RemoveDHCPHost G,
     co_CreateSnapshot = (\<lambda>_. virt_CreateSnapshot G), co_ListSnapshots = virt_ListSnapshots G,
     co_DeleteSnapshot = virt_DeleteSnapshot G, co_RevertSnapshot = virt_RevertSnapshot G\<rparr>"

end
