(* ===== verification/LibvirtRefine.thy ===== *)
theory LibvirtRefine
  imports LibvirtConn
begin

text \<open>
  What the agent relies on of libvirt, and that the connection built on it meets the contract of
  the VM service. \<open>libvirtd\<close> states the documented behaviour of the calls the contract rests on, over
  a view of the daemon; handles refer to objects through relations (\<open>domref\<close> and so on) that hold
  for what a lookup has just returned. Networks are assumed to be running. \<open>libvirtd_up\<close> adds when a
  call succeeds. The hypotheses are satisfiable: the in-memory hypervisor behind a client meets
  them.
\<close>

section \<open>Hypotheses on the daemon\<close>

locale libvirtd =
  fixes G :: "('l, 'd) golibvirt"
    and dview :: "'d \<Rightarrow> conn_view"
    and domname :: "string \<Rightarrow> string option"
    and domref :: "'d \<Rightarrow> rpcDomain \<Rightarrow> string \<Rightarrow> bool"
    and poolref :: "'d \<Rightarrow> rpcPool \<Rightarrow> string \<Rightarrow> bool"
    and volref :: "'d \<Rightarrow> rpcVol \<Rightarrow> string \<Rightarrow> string \<Rightarrow> bool"
    and netref :: "'d \<Rightarrow> rpcNetwork \<Rightarrow> string \<Rightarrow> bool"
  assumes active: "cv_doms (dview s) n = Some dx \<Longrightarrow> dv_State dx = StateRunning \<or> dv_State dx = StatePaused \<Longrightarrow> dv_Active dx"
    and connect: "g_ConnectToURI G u s = (rl, s') \<Longrightarrow> dview s' = dview s \<and> (\<forall>e. rl = Inl e \<longrightarrow> \<not> errors_Is e ErrDomainNotFound)"
    and dom_lookup: "g_DomainLookupByName G l n s = (rd, s') \<Longrightarrow> dview s' = dview s \<and> (case rd of
        Inl e \<Rightarrow> \<not> errors_Is e ErrDomainNotFound \<and> (g_IsNotFound G e \<longrightarrow> cv_doms (dview s) n = None)
      | Inr d \<Rightarrow> domref s' d n \<and> cv_doms (dview s) n \<noteq> None)"
    and get_state: "g_DomainGetState G l d s = (rst, s') \<Longrightarrow> domref s d n \<Longrightarrow> dview s' = dview s \<and> (case rst of
        Inl e \<Rightarrow> \<not> errors_Is e ErrDomainNotFound
      | Inr st \<Rightarrow> \<exists>x. cv_doms (dview s) n = Some x \<and> dv_State x = mapState G st)"
    and create: "g_DomainCreate G l d s = (r, s') \<Longrightarrow> domref s d n \<Longrightarrow> acted r (dview s) (dview s') (dom_set n dom_started (dview s))"
    and destroy: "g_DomainDestroy G l d s = (r, s') \<Longrightarrow> domref s d n \<Longrightarrow> acted r (dview s) (dview s') (dom_set n dom_destroyed (dview s))"
    and undefine: "g_DomainUndefine G l d s = (r, s') \<Longrightarrow> domref s d n \<Longrightarrow> acted r (dview s) (dview s') (dom_set n dom_undefined (dview s))"
    and define_xml: "g_DomainDefineXML G l xml s = (rd, s') \<Longrightarrow> dview s' = dview s \<and> isl rd \<or>
      (\<exists>n. domname xml = Some n \<and> dview s' = (dview s)\<lparr>cv_doms := (cv_doms (dview s))(n \<mapsto> dom_redefined (cv_doms (dview s) n))\<rparr>)"
    and update_device: "g_DomainUpdateDeviceFlags G l d xml fl s = (r, s') \<Longrightarrow> dview s' = dview s"
    and pool_lookup: "g_StoragePoolLookupByName G l p s = (rp, s') \<Longrightarrow> dview s' = dview s \<and> (case rp of
        Inl e \<Rightarrow> isLibvirtErr e (g_ErrNoStoragePool G) \<longrightarrow> (\<forall>m. vol_key p m \<notin> cv_vols (dview s))
      | Inr x \<Rightarrow> poolref s' x p)"
    and vol_lookup: "g_StorageVolLookupByName G l px m s = (rv, s') \<Longrightarrow> poolref s px p \<Longrightarrow> dview s' = dview s \<and> (case rv of
        Inl e \<Rightarrow> isLibvirtErr e (g_ErrNoStorageVol G) \<longrightarrow> vol_key p m \<notin> cv_vols (dview s)
      | Inr v \<Rightarrow> volref s' v p m)"
    and vol_create: "g_StorageVolCreateXML G l px xml s = (rv, s') \<Longrightarrow> poolref s px p \<Longrightarrow>
      (\<exists>V. dview s' = (dview s)\<lparr>cv_vols := V\<rparr>) \<and>
      (\<forall>spec. xml = buildVolumeXML spec \<and> xml_plain (vs_Name spec) \<longrightarrow> acted rv (dview s) (dview s')
         ((dview s)\<lparr>cv_vols := insert (vol_key p (vs_Name spec)) (cv_vols (dview s))\<rparr>))"
    and vol_path: "g_StorageVolGetPath G l v s = (rs, s') \<Longrightarrow> dview s' = dview s"
    and vol_delete: "g_StorageVolDelete G l v s = (r, s') \<Longrightarrow> volref s v p m \<Longrightarrow>
      acted r (dview s) (dview s') ((dview s)\<lparr>cv_vols := cv_vols (dview s) - {vol_key p m}\<rparr>)"
    and net_lookup: "g_NetworkLookupByName G l n s = (rn, s') \<Longrightarrow> dview s' = dview s \<and> (\<forall>x. rn = Inr x \<longrightarrow> netref s' x n)"
    and net_add: "dhcp_update G l nx (g_NetworkUpdateCommandAddLast G) xml s = (r, s') \<Longrightarrow> netref s nx n \<Longrightarrow>
      (\<exists>L. dview s' = (dview s)\<lparr>cv_leases := L\<rparr>) \<and>
      (\<forall>mac name ip. xml = dhcp_host mac name ip \<and> xml_plain mac \<longrightarrow> acted r (dview s) (dview s')
         ((dview s)\<lparr>cv_leases := insert (n, mac) (cv_leases (dview s))\<rparr>))"
    and net_delete: "dhcp_update G l nx (g_NetworkUpdateCommandDelete G) xml s = (r, s') \<Longrightarrow> netref s nx n \<Longrightarrow>
      (\<exists>L. dview s' = (dview s)\<lparr>cv_leases := L\<rparr>) \<and>
      (\<forall>mac. xml = dhcp_mac mac \<and> xml_plain mac \<longrightarrow>
         acted r (dview s) (dview s') ((dview s)\<lparr>cv_leases := cv_leases (dview s) - {(n, mac)}\<rparr>) \<and>
         (\<forall>e. r = Inl e \<and> isLibvirtErr e (g_ErrOperationInvalid G) \<longrightarrow> (n, mac) \<notin> cv_leases (dview s')))"
begin

abbreviation cview :: "('l, 'd) libvirtConn \<Rightarrow> conn_view" where
  "cview c \<equiv> dview (lc_net c)"

lemma ensure_view:
  assumes "ensure G c = (r, c')"
  shows "cview c' = cview c \<and> (\<forall>e. r = Inl e \<longrightarrow> \<not> errors_Is e ErrDomainNotFound)"
proof -
  obtain rl s where d: "g_ConnectToURI G (lc_uri c) (lc_net c) = (rl, s)" by fastforce
  show ?thesis
    using assms connect [OF d] by (auto simp: ensure_def on_rpc_def d Let_def split: option.splits sum.splits if_splits)
qed

lemma with_client_cases:
  assumes "with_client G f c = (r, c')"
  obtains e where "r = Inl e" "\<not> errors_Is e ErrDomainNotFound" "cview c' = cview c"
  | l c1 where "f l c1 = (r, c')" "cview c1 = cview c"
proof -
  obtain q c1 where e: "ensure G c = (q, c1)" by fastforce
  show thesis
    using assms ensure_view [OF e] that by (cases q) (auto simp: with_client_def e)
qed

lemma lookup_dom_view:
  assumes "lookup_dom G n c = (r, c')"
  shows "cview c' = cview c \<and> (case r of
      Inl e \<Rightarrow> errors_Is e ErrDomainNotFound \<longrightarrow> cv_doms (cview c) n = None
    | Inr (l, d) \<Rightarrow> domref (lc_net c') d n \<and> cv_doms (cview c) n \<noteq> None)"
  using assms [unfolded lookup_dom_def]
proof (cases rule: with_client_cases)
  case (1 e)
  then show ?thesis by simp
next
  case (2 l c1)
  obtain rd s where d: "g_DomainLookupByName G l n (lc_net c1) = (rd, s)" by fastforce
  show ?thesis using 2 dom_lookup [OF d] by (cases rd) (auto simp: on_rpc_def d)
qed

lemma with_dom_cases:
  assumes "with_dom G n f c = (r, c')"
  obtains e where "r = Inl e" "errors_Is e ErrDomainNotFound \<longrightarrow> cv_doms (cview c) n = None" "cview c' = cview c"
  | l d c1 where "f l d c1 = (r, c')" "domref (lc_net c1) d n" "cview c1 = cview c" "cv_doms (cview c) n \<noteq> None"
proof -
  obtain q c1 where e: "lookup_dom G n c = (q, c1)" by fastforce
  show thesis
    using assms lookup_dom_view [OF e] that by (cases q) (auto simp: with_dom_def e)
qed

text \<open>A method that is one call on a domain has the effect of the call.\<close>

lemma with_dom_acted:
  assumes "with_dom G n (\<lambda>l d. on_rpc (f l d)) c = (r, c')"
    and "\<And>l d s r s'. f l d s = (r, s') \<Longrightarrow> domref s d n \<Longrightarrow> acted r (dview s) (dview s') (eff (dview s))"
  shows "acted r (cview c) (cview c') (eff (cview c)) \<and> (r = Inr () \<longrightarrow> cv_doms (cview c) n \<noteq> None)"
  using assms(1)
proof (cases rule: with_dom_cases)
  case (1 e)
  then show ?thesis by (simp add: acted_def)
next
  case (2 l d c1)
  then obtain s where "f l d (lc_net c1) = (r, s)" "c' = c1\<lparr>lc_net := s\<rparr>"
    by (auto simp: on_rpc_def split: prod.splits)
  then show ?thesis using assms(2) 2 by fastforce
qed

lemma then_with_cases:
  assumes "then_with err f g c = (r, c')"
  obtains e c1 where "f c = (Inl e, c1)" "r = Inl (err e)" "c' = c1"
  | x c1 where "f c = (Inr x, c1)" "g x c1 = (r, c')"
  using assms by (auto simp: then_with_def split: prod.splits sum.splits)

lemma on_rpcD: "on_rpc f c = (r, c') \<Longrightarrow> f (lc_net c) = (r, lc_net c')"
  by (auto simp: on_rpc_def split: prod.splits)

lemma virt_State_law:
  assumes "virt_DomainState G n c = (r, c')"
  shows "cview c' = cview c \<and> (case r of
      Inl e \<Rightarrow> errors_Is e ErrDomainNotFound \<longrightarrow> cv_doms (cview c) n = None
    | Inr st \<Rightarrow> \<exists>d. cv_doms (cview c) n = Some d \<and> dv_State d = st)"
  using assms [unfolded virt_DomainState_def]
proof (cases rule: with_dom_cases)
  case (1 e)
  then show ?thesis by simp
next
  case (2 l d c1)
  from 2(1) show ?thesis
    by (cases rule: then_with_cases) (use 2 in \<open>auto dest!: on_rpcD dest: get_state\<close>)
qed

lemma virt_Define_law:
  assumes "virt_DefineDomain G xml c = (r, c')"
  shows "cview c' = cview c \<and> isl r \<or> (\<exists>n. domname xml = Some n \<and>
    cview c' = (cview c)\<lparr>cv_doms := (cv_doms (cview c))(n \<mapsto> dom_redefined (cv_doms (cview c) n))\<rparr>)"
  using assms [unfolded virt_DefineDomain_def]
proof (cases rule: with_client_cases)
  case (1 e)
  then show ?thesis by simp
next
  case (2 l c1)
  from 2(1) show ?thesis
    by (cases rule: then_with_cases) (use 2(2) in \<open>auto dest!: on_rpcD dest: define_xml\<close>)
qed

lemma virt_Update_law:
  assumes "virt_UpdateInterface G n xml c = (r, c')"
  shows "cview c' = cview c"
  using assms [unfolded virt_UpdateInterface_def]
  by (cases rule: with_dom_cases) (auto dest!: on_rpcD dest: update_device)

lemma virt_CreateVol_law:
  assumes "virt_CreateVolume G spec c = (r, c')"
  shows "(\<exists>V. cview c' = (cview c)\<lparr>cv_vols := V\<rparr>) \<and> (xml_plain (vs_Name spec) \<longrightarrow> acted r (cview c) (cview c')
    ((cview c)\<lparr>cv_vols := insert (vol_key (vs_Pool spec) (vs_Name spec)) (cv_vols (cview c))\<rparr>))"
  using assms [unfolded virt_CreateVolume_def]
proof (cases rule: with_client_cases)
  case (1 e)
  then show ?thesis by (auto simp: acted_def intro: exI [of _ "cv_vols (cview c)"])
next
  case (2 l c1)
  from 2(1) show ?thesis
  proof (cases rule: then_with_cases)
    case (1 e c2)
    then have "cview c' = cview c" using 2(2) by (auto dest!: on_rpcD dest: pool_lookup)
    then show ?thesis using 1 by (auto simp: acted_def intro: exI [of _ "cv_vols (cview c)"])
  next
    case (2 p c2)
    then have p: "cview c2 = cview c" "poolref (lc_net c2) p (vs_Pool spec)"
      using \<open>cview c1 = cview c\<close> by (auto dest!: on_rpcD dest: pool_lookup)
    obtain rv c3 where v: "on_rpc (g_StorageVolCreateXML G l p (buildVolumeXML spec)) c2 = (rv, c3)" by fastforce
    note made = vol_create [OF on_rpcD [OF v] p(2), unfolded p(1)]
    have "cview c' = cview c3 \<and> (isl rv \<longrightarrow> isl r)"
      using 2(2) by (cases rv) (auto simp: then_with_def v dest!: on_rpcD dest: vol_path)
    then show ?thesis using made by (auto simp: acted_def)
  qed
qed

lemma virt_DeleteVol_law:
  assumes "virt_DeleteVolume G pool n c = (r, c')"
  shows "acted r (cview c) (cview c') ((cview c)\<lparr>cv_vols := cv_vols (cview c) - {vol_key pool n}\<rparr>)"
  using assms [unfolded virt_DeleteVolume_def]
proof (cases rule: with_client_cases)
  case (1 e)
  then show ?thesis by (simp add: acted_def)
next
  case (2 l c1)
  obtain rp c2 where p: "on_rpc (g_StoragePoolLookupByName G l pool) c1 = (rp, c2)" by fastforce
  note lp = pool_lookup [OF on_rpcD [OF p], unfolded 2(2)]
  show ?thesis
  proof (cases rp)
    case (Inl e)
    then show ?thesis using 2(1) lp by (auto simp: p acted_def split: if_splits)
  next
    case (Inr x)
    obtain rv c3 where v: "on_rpc (g_StorageVolLookupByName G l x n) c2 = (rv, c3)" by fastforce
    have ref: "poolref (lc_net c2) x pool" using lp Inr by simp
    note lv = vol_lookup [OF on_rpcD [OF v] ref]
    show ?thesis
    proof (cases rv)
      case (Inl e)
      then show ?thesis using 2(1) lp lv \<open>rp = Inr x\<close> by (auto simp: p v acted_def split: if_splits)
    next
      case (Inr y)
      then have "g_StorageVolDelete G l y (lc_net c3) = (r, lc_net c')" using 2(1) \<open>rp = Inr x\<close> by (auto simp: p v dest!: on_rpcD)
      from vol_delete [OF this, of pool n] show ?thesis using lv lp Inr by auto
    qed
  qed
qed

lemma lookupNetwork_view:
  assumes "lookupNetwork G n c = (r, c')"
  shows "cview c' = cview c \<and> (\<forall>l x. r = Inr (l, x) \<longrightarrow> netref (lc_net c') x n)"
  using assms [unfolded lookupNetwork_def]
proof (cases rule: with_client_cases)
  case (1 e)
  then show ?thesis by simp
next
  case (2 l c1)
  from 2(1) show ?thesis
    by (cases rule: then_with_cases) (use 2(2) in \<open>auto dest!: on_rpcD dest: net_lookup\<close>)
qed

lemma virt_AddLease_law:
  assumes "virt_AddDHCPHost G net mac name ip c = (r, c')"
  shows "(\<exists>L. cview c' = (cview c)\<lparr>cv_leases := L\<rparr>) \<and> (xml_plain mac \<longrightarrow>
    acted r (cview c) (cview c') ((cview c)\<lparr>cv_leases := insert (net, mac) (cv_leases (cview c))\<rparr>))"
  using assms [unfolded virt_AddDHCPHost_def]
proof (cases rule: then_with_cases)
  case (1 e c1)
  then show ?thesis using lookupNetwork_view [OF 1(1)] by (auto simp: acted_def intro: exI [of _ "cv_leases (cview c)"])
next
  case (2 x c1)
  obtain l nx where x: "x = (l, nx)" by (cases x)
  from lookupNetwork_view [OF 2(1)] have v: "cview c1 = cview c" "netref (lc_net c1) nx net" by (auto simp: x)
  from 2(2) have "dhcp_update G l nx (g_NetworkUpdateCommandAddLast G) (dhcp_host mac name ip) (lc_net c1) = (r, lc_net c')"
    by (auto simp: x dest!: on_rpcD)
  from net_add [OF this v(2)] show ?thesis by (auto simp: v(1))
qed

lemma virt_RemoveLease_law:
  assumes "virt_RemoveDHCPHost G net mac c = (r, c')"
  shows "(\<exists>L. cview c' = (cview c)\<lparr>cv_leases := L\<rparr>) \<and> (xml_plain mac \<longrightarrow>
    acted r (cview c) (cview c') ((cview c)\<lparr>cv_leases := cv_leases (cview c) - {(net, mac)}\<rparr>))"
  using assms [unfolded virt_RemoveDHCPHost_def]
proof (cases rule: then_with_cases)
  case (1 e c1)
  then show ?thesis using lookupNetwork_view [OF 1(1)] by (auto simp: acted_def intro: exI [of _ "cv_leases (cview c)"])
next
  case (2 x c1)
  obtain l nx where x: "x = (l, nx)" by (cases x)
  from lookupNetwork_view [OF 2(1)] have v: "cview c1 = cview c" "netref (lc_net c1) nx net" by (auto simp: x)
  obtain q c2 where q: "on_rpc (dhcp_update G l nx (g_NetworkUpdateCommandDelete G) (dhcp_mac mac)) c1 = (q, c2)" by fastforce
  have r: "c' = c2" "r = q \<or> (\<exists>e. q = Inl e \<and> isLibvirtErr e (g_ErrOperationInvalid G))"
    using 2(2) by (auto simp: x q split: sum.splits if_splits)
  note del = net_delete [OF on_rpcD [OF q] v(2), unfolded v(1)]
  then show ?thesis using r by (auto simp: acted_def)
qed

end

lemma virt_ops_simps [simp]:
  "co_DomainState (virt_ops G) = virt_DomainState G" "co_StartDomain (virt_ops G) = virt_StartDomain G"
  "co_DestroyDomain (virt_ops G) = virt_DestroyDomain G" "co_UndefineDomain (virt_ops G) = virt_UndefineDomain G"
  "co_DefineDomain (virt_ops G) = virt_DefineDomain G" "co_UpdateInterface (virt_ops G) = virt_UpdateInterface G"
  "co_CreateVolume (virt_ops G) = virt_CreateVolume G" "co_DeleteVolume (virt_ops G) = virt_DeleteVolume G"
  "co_AddDHCPHost (virt_ops G) = virt_AddDHCPHost G" "co_RemoveDHCPHost (virt_ops G) = virt_RemoveDHCPHost G"
  by (simp_all add: virt_ops_def)

sublocale libvirtd \<subseteq> conn_api "virt_ops G" "\<lambda>c. dview (lc_net c)" domname
proof (unfold_locales, goal_cases)
  case (1 c n d) then show ?case by (rule active)
next
  case (2 n c r c') then show ?case by (simp add: virt_State_law)
next
  case (3 n c r' c')
  then have "with_dom G n (\<lambda>l d. on_rpc (g_DomainCreate G l d)) c = (r', c')" by (simp add: virt_StartDomain_def)
  then show ?case by (rule with_dom_acted) (erule (1) create)
next
  case (4 n c r' c')
  then have "with_dom G n (\<lambda>l d. on_rpc (g_DomainDestroy G l d)) c = (r', c')" by (simp add: virt_DestroyDomain_def)
  then show ?case by (rule with_dom_acted) (erule (1) destroy)
next
  case (5 n c r' c')
  then have "with_dom G n (\<lambda>l d. on_rpc (g_DomainUndefine G l d)) c = (r', c')" by (simp add: virt_UndefineDomain_def)
  then show ?case by (intro disjI1 conjunct1 [OF with_dom_acted]) (assumption, erule (1) undefine)
next
  case (6 xml c rs c') then show ?case by (simp add: virt_Define_law)
next
  case (7 n xml c r' c') then show ?case by (simp add: virt_Update_law)
next
  case (8 spec c rs c') then show ?case by (simp add: virt_CreateVol_law)
next
  case (9 pool n c r' c') then show ?case by (simp add: virt_DeleteVol_law)
next
  case (10 net mac n ip c r' c') then show ?case by (simp add: virt_AddLease_law)
next
  case (11 net mac c r' c') then show ?case by (simp add: virt_RemoveLease_law)
qed

section \<open>A daemon that answers\<close>

locale libvirtd_up = libvirtd G dview domname domref poolref volref netref
  for G :: "('l, 'd) golibvirt" and dview domname domref poolref volref netref +
  assumes connect_answers: "\<exists>l s'. g_ConnectToURI G u s = (Inr l, s') \<and> g_IsConnected G l s'"
    and lookup_answers: "g_IsConnected G l s \<Longrightarrow> g_DomainLookupByName G l n s = (rd, s') \<Longrightarrow> g_IsConnected G l s' \<and>
      (case rd of Inl e \<Rightarrow> g_IsNotFound G e | Inr d \<Rightarrow> True)"
    and state_answers: "g_IsConnected G l s \<Longrightarrow> domref s d n \<Longrightarrow> \<exists>st s'. g_DomainGetState G l d s = (Inr st, s')"
    and create_answers: "g_IsConnected G l s \<Longrightarrow> domref s d n \<Longrightarrow> cv_doms (dview s) n = Some dx \<Longrightarrow> \<not> dv_Active dx \<Longrightarrow>
      \<exists>s'. g_DomainCreate G l d s = (Inr (), s')"
    and destroy_answers: "g_IsConnected G l s \<Longrightarrow> domref s d n \<Longrightarrow> cv_doms (dview s) n = Some dx \<Longrightarrow> dv_Active dx \<Longrightarrow>
      \<exists>s'. g_DomainDestroy G l d s = (Inr (), s')"
    and undefine_answers: "g_IsConnected G l s \<Longrightarrow> domref s d n \<Longrightarrow> cv_doms (dview s) n = Some dx \<Longrightarrow> \<not> dv_Active dx \<Longrightarrow>
      \<not> dv_Held dx \<Longrightarrow> \<exists>s'. g_DomainUndefine G l d s = (Inr (), s')"
    and pool_answers: "g_IsConnected G l s \<Longrightarrow> g_StoragePoolLookupByName G l p s = (rp, s') \<Longrightarrow> g_IsConnected G l s' \<and>
      (case rp of Inl e \<Rightarrow> isLibvirtErr e (g_ErrNoStoragePool G) | Inr px \<Rightarrow> True)"
    and vol_answers: "g_IsConnected G l s \<Longrightarrow> poolref s px p \<Longrightarrow> g_StorageVolLookupByName G l px m s = (rv, s') \<Longrightarrow>
      g_IsConnected G l s' \<and> (case rv of Inl e \<Rightarrow> isLibvirtErr e (g_ErrNoStorageVol G) | Inr v \<Rightarrow> True)"
    and delete_answers: "g_IsConnected G l s \<Longrightarrow> volref s v p m \<Longrightarrow> \<exists>s'. g_StorageVolDelete G l v s = (Inr (), s')"
begin

lemma ensure_answers:
  obtains l c' where "ensure G c = (Inr l, c')" "g_IsConnected G l (lc_net c')" "cview c' = cview c"
proof -
  obtain l s where d: "g_ConnectToURI G (lc_uri c) (lc_net c) = (Inr l, s)" "g_IsConnected G l s"
    using connect_answers by blast
  obtain q c' where e: "ensure G c = (q, c')" by fastforce
  have "\<exists>l. q = Inr l \<and> g_IsConnected G l (lc_net c')"
    using e d by (auto simp: ensure_def on_rpc_def Let_def split: option.splits if_splits)
  then show thesis using that e ensure_view [OF e] by blast
qed

lemma lookup_dom_answers:
  obtains c' where "lookup_dom G n c = (Inl (sentinel_err ErrDomainNotFound), c')" "cv_doms (cview c) n = None"
  | l d c' x where "lookup_dom G n c = (Inr (l, d), c')" "g_IsConnected G l (lc_net c')" "domref (lc_net c') d n"
      "cv_doms (cview c') n = Some x" "cv_doms (cview c) n = Some x"
proof -
  obtain l c1 where e: "ensure G c = (Inr l, c1)" "g_IsConnected G l (lc_net c1)" "cview c1 = cview c"
    by (rule ensure_answers)
  obtain rd s where d: "g_DomainLookupByName G l n (lc_net c1) = (rd, s)" by fastforce
  have k: "lookup_dom G n c = (case rd of Inl e \<Rightarrow> (Inl (if g_IsNotFound G e then sentinel_err ErrDomainNotFound else e), c1\<lparr>lc_net := s\<rparr>)
      | Inr d \<Rightarrow> (Inr (l, d), c1\<lparr>lc_net := s\<rparr>))"
    by (simp add: lookup_dom_def with_client_def e(1) on_rpc_def d split: sum.split)
  show thesis
  proof (cases rd)
    case (Inl e1)
    with lookup_answers [OF e(2) d] dom_lookup [OF d] show ?thesis by (intro that(1)) (auto simp: k e(3))
  next
    case (Inr dm)
    then obtain x where "cv_doms (cview c) n = Some x" "dview s = cview c" "domref s dm n" "g_IsConnected G l s"
      using dom_lookup [OF d] lookup_answers [OF e(2) d] e(3) by auto
    then show ?thesis using Inr by (intro that(2) [of l dm "c1\<lparr>lc_net := s\<rparr>" x]) (auto simp: k)
  qed
qed

lemma with_dom_answers:
  assumes "cv_doms (cview c) n = Some x"
    and "\<And>l d s. g_IsConnected G l s \<Longrightarrow> domref s d n \<Longrightarrow> cv_doms (dview s) n = Some x \<Longrightarrow> \<exists>s'. f l d s = (Inr y, s')"
  shows "\<exists>c'. with_dom G n (\<lambda>l d. on_rpc (f l d)) c = (Inr y, c')"
proof (rule lookup_dom_answers [of n c])
  fix c' assume "lookup_dom G n c = (Inl (sentinel_err ErrDomainNotFound), c')" "cv_doms (cview c) n = None"
  then show ?thesis using assms(1) by simp
next
  fix l d c' x'
  assume "lookup_dom G n c = (Inr (l, d), c')" "g_IsConnected G l (lc_net c')" "domref (lc_net c') d n"
    "cv_doms (cview c') n = Some x'" "cv_doms (cview c) n = Some x'"
  then show ?thesis using assms(1) assms(2) [of l "lc_net c'" d] by (auto simp: with_dom_def on_rpc_def)
qed

lemma virt_State_answers:
  "\<exists>c'. virt_DomainState G n c =
    ((case cv_doms (cview c) n of None \<Rightarrow> Inl (sentinel_err ErrDomainNotFound) | Some d \<Rightarrow> Inr (dv_State d)), c')"
proof (rule lookup_dom_answers [of n c])
  fix c' assume "lookup_dom G n c = (Inl (sentinel_err ErrDomainNotFound), c')" "cv_doms (cview c) n = None"
  then show ?thesis by (simp add: virt_DomainState_def with_dom_def)
next
  fix l d c' x
  assume a: "lookup_dom G n c = (Inr (l, d), c')" "g_IsConnected G l (lc_net c')" "domref (lc_net c') d n"
    "cv_doms (cview c') n = Some x" "cv_doms (cview c) n = Some x"
  obtain st s where g: "g_DomainGetState G l d (lc_net c') = (Inr st, s)" using state_answers [OF a(2,3)] by blast
  show ?thesis
    using a get_state [OF g a(3)] by (simp add: virt_DomainState_def with_dom_def then_with_def on_rpc_def g)
qed

lemma virt_DeleteVol_answers: "\<exists>c'. virt_DeleteVolume G pool n c = (Inr (), c')"
proof -
  obtain l c1 where e: "ensure G c = (Inr l, c1)" "g_IsConnected G l (lc_net c1)" "cview c1 = cview c"
    by (rule ensure_answers)
  obtain rp s where p: "g_StoragePoolLookupByName G l pool (lc_net c1) = (rp, s)" by fastforce
  note ap = pool_answers [OF e(2) p] and lp = pool_lookup [OF p]
  show ?thesis
  proof (cases rp)
    case (Inl e1)
    then show ?thesis using ap by (simp add: virt_DeleteVolume_def with_client_def e(1) on_rpc_def p)
  next
    case (Inr x)
    then have x: "g_IsConnected G l s" "poolref s x pool" using ap lp by auto
    obtain rv s2 where v: "g_StorageVolLookupByName G l x n s = (rv, s2)" by fastforce
    note av = vol_answers [OF x v] and lv = vol_lookup [OF v x(2)]
    show ?thesis
    proof (cases rv)
      case (Inl e1)
      then show ?thesis using av Inr by (simp add: virt_DeleteVolume_def with_client_def e(1) on_rpc_def p v)
    next
      case (Inr y)
      obtain s3 where "g_StorageVolDelete G l y s2 = (Inr (), s3)" using delete_answers av lv Inr by force
      then show ?thesis using \<open>rp = Inr x\<close> Inr by (simp add: virt_DeleteVolume_def with_client_def e(1) on_rpc_def p v)
    qed
  qed
qed

end

sublocale libvirtd_up \<subseteq> responsive_conn "virt_ops G" "\<lambda>c. dview (lc_net c)" domname
proof (unfold_locales, goal_cases)
  case (1 n c) show ?case by (simp add: virt_State_answers)
next
  case (2 c n d)
  then show ?case using with_dom_answers [of c n d "g_DomainCreate G"] create_answers by (simp add: virt_StartDomain_def)
next
  case (3 c n d)
  then show ?case using with_dom_answers [of c n d "g_DomainDestroy G"] destroy_answers by (simp add: virt_DestroyDomain_def)
next
  case (4 c n d)
  then show ?case using with_dom_answers [of c n d "g_DomainUndefine G"] undefine_answers by (simp add: virt_UndefineDomain_def)
next
  case (5 pool n c) show ?case by (simp add: virt_DeleteVol_answers)
qed

section \<open>The in-memory hypervisor behind a client\<close>

text \<open>A client whose daemon is the in-memory hypervisor: it looks objects up by name, refuses to
  undefine a domain that runs, and reads names out of the documents it is sent.\<close>

definition rpc_error :: "nat \<Rightarrow> goerr" where
  "rpc_error n = GoErr [LibvirtError n] ''libvirt error''"

fun state_code :: "DomainState \<Rightarrow> 32 word" where
  "state_code StateUnknown = 0"
| "state_code StateRunning = 1"
| "state_code StatePaused = 3"
| "state_code StateShutoff = 5"

definition host_mac :: "string \<Rightarrow> string" where
  "host_mac xml = takeWhile (\<lambda>c. c \<noteq> CHR 0x27) (drop 11 xml)"

definition mem_lookup :: "string \<Rightarrow> (Fake, rpcDomain) rpc" where
  "mem_lookup n f = ((case map_of (f_domains f) n of
      None \<Rightarrow> Inl (rpc_error 42) | Some d \<Rightarrow> Inr \<lparr>rd_Name = n, rd_UUID = replicate 16 0\<rparr>), f)"

definition mem_state :: "rpcDomain \<Rightarrow> (Fake, 32 word) rpc" where
  "mem_state d f = ((case map_of (f_domains f) (rd_Name d) of
      None \<Rightarrow> Inl (rpc_error 42) | Some x \<Rightarrow> Inr (state_code (fd_state x))), f)"

definition mem_undefine :: "rpcDomain \<Rightarrow> (Fake, unit) rpc" where
  "mem_undefine d f = (case map_of (f_domains f) (rd_Name d) of
      None \<Rightarrow> (Inl (rpc_error 42), f)
    | Some x \<Rightarrow> if fd_state x \<noteq> StateShutoff then (Inl (rpc_error 55), f) else fake_UndefineDomain (rd_Name d) f)"

definition mem_define :: "string \<Rightarrow> (Fake, rpcDomain) rpc" where
  "mem_define xml f = (case fake_DefineDomain xml f of
      (Inl e, f1) \<Rightarrow> (Inl e, f1) | (Inr _, f1) \<Rightarrow> (Inr \<lparr>rd_Name = [], rd_UUID = replicate 16 0\<rparr>, f1))"

definition mem_create_vol :: "rpcPool \<Rightarrow> string \<Rightarrow> (Fake, rpcVol) rpc" where
  "mem_create_vol p xml f = (case domainNameFromXML xml of
      Inl e \<Rightarrow> (Inl e, f)
    | Inr m \<Rightarrow> (Inr \<lparr>rv_Pool = rp_Name p, rv_Name = m\<rparr>, snd (fake_CreateVolume
        \<lparr>vs_Pool = rp_Name p, vs_Name = m, vs_CapacityBytes = 0, vs_BackingPath = [], vs_BackingFmt = []\<rparr> f)))"

definition mem_vol_lookup :: "rpcPool \<Rightarrow> string \<Rightarrow> (Fake, rpcVol) rpc" where
  "mem_vol_lookup p m f = ((case f_volumes f (vol_key (rp_Name p) m) of
      None \<Rightarrow> Inl (rpc_error 50) | Some _ \<Rightarrow> Inr \<lparr>rv_Pool = rp_Name p, rv_Name = m\<rparr>), f)"

definition mem_network_update :: "rpcNetwork \<Rightarrow> 32 word \<Rightarrow> string \<Rightarrow> (Fake, unit) rpc" where
  "mem_network_update n cmd xml f =
     (if cmd = 3 then fake_AddDHCPHost (rn_Name n) (host_mac xml) [] [] f
      else if f_dhcp f (rn_Name n) (host_mac xml) = None then (Inl (rpc_error 55), f)
      else fake_RemoveDHCPHost (rn_Name n) (host_mac xml) f)"

definition mem_client :: "(unit, Fake) golibvirt" where
  "mem_client = \<lparr>g_IsConnected = (\<lambda>_ _. True), g_ConnectToURI = (\<lambda>_ f. (Inr (), f)), g_Disconnect = (\<lambda>_ f. (Inr (), f)),
     g_ConnectGetLibVersion = (\<lambda>_ f. (Inr 9000000, f)), g_ConnectGetHostname = (\<lambda>_ f. (Inr ''host'', f)),
     g_NodeGetInfo = (\<lambda>_ f. (Inr (16777216, 8), f)), g_NodeGetFreeMemory = (\<lambda>_ f. (Inr 0, f)),
     g_IsNotFound = (\<lambda>e. isLibvirtErr e 42),
     g_DomainLookupByName = (\<lambda>_. mem_lookup), g_DomainDefineXML = (\<lambda>_. mem_define),
     g_DomainCreate = (\<lambda>_ d. fake_StartDomain (rd_Name d)), g_DomainShutdown = (\<lambda>_ d. fake_ShutdownDomain (rd_Name d)),
     g_DomainReboot = (\<lambda>_ d. fake_RebootDomain (rd_Name d)), g_DomainDestroy = (\<lambda>_ d. fake_DestroyDomain (rd_Name d)),
     g_DomainSuspend = (\<lambda>_ d. fake_SuspendDomain (rd_Name d)), g_DomainResume = (\<lambda>_ d. fake_ResumeDomain (rd_Name d)),
     g_DomainUndefine = (\<lambda>_. mem_undefine), g_DomainGetState = (\<lambda>_. mem_state),
     g_ConnectListAllDomains = (\<lambda>_ f. (Inr (map (\<lambda>(n, _). \<lparr>rd_Name = n, rd_UUID = replicate 16 0\<rparr>) (f_domains f)), f)),
     g_DomainGetXMLDesc = (\<lambda>_ d. fake_DomainXML (rd_Name d)),
     g_DomainUpdateDeviceFlags = (\<lambda>_ d xml _. fake_UpdateInterface (rd_Name d) xml),
     g_StoragePoolLookupByName = (\<lambda>_ p f. (Inr \<lparr>rp_Name = p\<rparr>, f)), g_StoragePoolGetInfo = (\<lambda>_ _ f. (Inr (0, 0), f)),
     g_StorageVolCreateXML = (\<lambda>_. mem_create_vol), g_StorageVolGetPath = (\<lambda>_ v f. (Inr (rv_Name v), f)),
     g_StorageVolLookupByName = (\<lambda>_. mem_vol_lookup), g_StorageVolDelete = (\<lambda>_ v. fake_DeleteVolume (rv_Pool v) (rv_Name v)),
     g_StorageVolResize = (\<lambda>_ v. fake_ResizeVolume (rv_Pool v) (rv_Name v)),
     g_ConnectGetAllDomainStats = (\<lambda>_ _ f. (Inr [], f)),
     g_NetworkLookupByName = (\<lambda>_ n f. (Inr \<lparr>rn_Name = n\<rparr>, f)),
     g_NetworkUpdate = (\<lambda>_ n cmd _ _ xml _. mem_network_update n cmd xml),
     g_DomainSnapshotCreateXML = (\<lambda>_ d xml f. (Inr \<lparr>rs_Name = [], rs_Dom = rd_Name d\<rparr>, f)),
     g_DomainListAllSnapshots = (\<lambda>_ _ f. (Inr [], f)), g_DomainSnapshotCurrent = (\<lambda>_ _ f. (Inl (rpc_error 72), f)),
     g_DomainSnapshotGetXMLDesc = (\<lambda>_ _ f. (Inl (rpc_error 72), f)),
     g_DomainSnapshotLookupByName = (\<lambda>_ _ _ f. (Inl (rpc_error 72), f)),
     g_DomainSnapshotDelete = (\<lambda>_ _ f. (Inr (), f)), g_DomainRevertToSnapshot = (\<lambda>_ _ f. (Inr (), f)),
     g_DomainRunning = 1, g_DomainPaused = 3, g_DomainShutdownState = 4, g_DomainShutoff = 5, g_DomainCrashed = 6,
     g_ErrNoStoragePool = 49, g_ErrNoStorageVol = 50, g_ErrOperationInvalid = 55, g_ErrNoDomainSnapshot = 72,
     g_DomainDeviceModifyLive = 1, g_DomainDeviceModifyConfig = 2,
     g_DomainStatsState = 1, g_DomainStatsCPUTotal = 2, g_DomainStatsBalloon = 4, g_DomainStatsInterface = 16, g_DomainStatsBlock = 32,
     g_NetworkUpdateCommandAddLast = 3, g_NetworkUpdateCommandDelete = 2, g_NetworkSectionIPDhcpHost = 4,
     g_NetworkUpdateAffectLive = 1, g_NetworkUpdateAffectConfig = 2,
     x_Unmarshal_graphics = (\<lambda>_. Inr []), x_Unmarshal_snapshot = (\<lambda>_. Inr ([], 0)), x_float_to_uint64 = (\<lambda>_. 0)\<rparr>"

lemma IndexOf_past:
  assumes "CHR ''<'' \<notin> set n"
  shows "IndexOf (n @ CHR ''<'' # r) (CHR ''<'' # p) = map_option ((+) (length n)) (IndexOf (CHR ''<'' # r) (CHR ''<'' # p))"
  using assms
proof (induction n)
  case Nil
  show ?case by (cases "IndexOf (CHR ''<'' # r) (CHR ''<'' # p)") auto
next
  case (Cons c n)
  then have "IndexOf ((c # n) @ CHR ''<'' # r) (CHR ''<'' # p) = map_option Suc (IndexOf (n @ CHR ''<'' # r) (CHR ''<'' # p))"
    by (auto simp: IndexOf.simps HasPrefix_def)
  then show ?case using Cons by (simp add: option.map_comp comp_def)
qed

lemma volume_name: "xml_plain (vs_Name spec) \<Longrightarrow> domainNameFromXML (buildVolumeXML spec) = Inr (vs_Name spec)"
proof -
  assume "xml_plain (vs_Name spec)"
  then have n: "CHR ''<'' \<notin> set (vs_Name spec)" by (auto simp: xml_plain_def list_all_iff)
  obtain r where "buildVolumeXML spec = ''<volume type='' @ [CHR 0x27] @ ''file'' @ [CHR 0x27] @ ''>'' @ ''<name>'' @ vs_Name spec @ ''</name>'' @ r"
    unfolding buildVolumeXML_def Let_def by (metis append.assoc)
  moreover have "IndexOf (''<volume type='' @ [CHR 0x27] @ ''file'' @ [CHR 0x27] @ ''>'' @ ''<name>'' @ x) ''<name>'' = Some 20" for x
    by (simp add: IndexOf.simps HasPrefix_def)
  moreover have "IndexOf (vs_Name spec @ ''</name>'' @ x) ''</name>'' = Some (length (vs_Name spec))" for x
    using IndexOf_past [OF n, of "''/name>'' @ x" "''/name>''"] by (simp add: IndexOf.simps HasPrefix_def)
  ultimately show ?thesis by (simp add: domainNameFromXML_def)
qed

lemma host_mac_plain:
  assumes "xml_plain mac"
  shows "host_mac (dhcp_host mac name ip) = mac" "host_mac (dhcp_mac mac) = mac"
proof -
  have "\<forall>c\<in>set mac. c \<noteq> CHR 0x27" using assms by (auto simp: xml_plain_def list_all_iff)
  then show "host_mac (dhcp_host mac name ip) = mac" "host_mac (dhcp_mac mac) = mac"
    by (auto simp: host_mac_def dhcp_host_def dhcp_mac_def Let_def takeWhile_append2)
qed

definition mem_domref :: "Fake \<Rightarrow> rpcDomain \<Rightarrow> string \<Rightarrow> bool" where
  "mem_domref f d n \<longleftrightarrow> rd_Name d = n \<and> map_of (f_domains f) n \<noteq> None"

definition mem_volref :: "Fake \<Rightarrow> rpcVol \<Rightarrow> string \<Rightarrow> string \<Rightarrow> bool" where
  "mem_volref f v p m \<longleftrightarrow> rv_Pool v = p \<and> rv_Name v = m"

lemma mem_client_simps [simp]:
  "g_IsConnected mem_client = (\<lambda>_ _. True)" "g_ConnectToURI mem_client = (\<lambda>_ f. (Inr (), f))"
  "g_IsNotFound mem_client = (\<lambda>e. isLibvirtErr e 42)"
  "g_DomainLookupByName mem_client = (\<lambda>_. mem_lookup)" "g_DomainDefineXML mem_client = (\<lambda>_. mem_define)"
  "g_DomainCreate mem_client = (\<lambda>_ d. fake_StartDomain (rd_Name d))"
  "g_DomainDestroy mem_client = (\<lambda>_ d. fake_DestroyDomain (rd_Name d))"
  "g_DomainUndefine mem_client = (\<lambda>_. mem_undefine)" "g_DomainGetState mem_client = (\<lambda>_. mem_state)"
  "g_DomainUpdateDeviceFlags mem_client = (\<lambda>_ d xml _. fake_UpdateInterface (rd_Name d) xml)"
  "g_StoragePoolLookupByName mem_client = (\<lambda>_ p f. (Inr \<lparr>rp_Name = p\<rparr>, f))"
  "g_StorageVolCreateXML mem_client = (\<lambda>_. mem_create_vol)" "g_StorageVolGetPath mem_client = (\<lambda>_ v f. (Inr (rv_Name v), f))"
  "g_StorageVolLookupByName mem_client = (\<lambda>_. mem_vol_lookup)"
  "g_StorageVolDelete mem_client = (\<lambda>_ v. fake_DeleteVolume (rv_Pool v) (rv_Name v))"
  "g_NetworkLookupByName mem_client = (\<lambda>_ n f. (Inr \<lparr>rn_Name = n\<rparr>, f))"
  "dhcp_update mem_client l n cmd xml = mem_network_update n cmd xml"
  "g_NetworkUpdateCommandAddLast mem_client = 3" "g_NetworkUpdateCommandDelete mem_client = 2"
  "g_ErrNoStoragePool mem_client = 49" "g_ErrNoStorageVol mem_client = 50" "g_ErrOperationInvalid mem_client = 55"
  by (simp_all add: mem_client_def dhcp_update_def)

lemma mapState_code [simp]: "mapState mem_client (state_code st) = st"
  by (cases st) (simp_all add: mapState_def mem_client_def)

lemma rpc_error_simps [simp]: "isLibvirtErr (rpc_error n) m \<longleftrightarrow> m = n" "errors_Is (rpc_error n) ErrDomainNotFound \<longleftrightarrow> False"
  by (auto simp: isLibvirtErr_def rpc_error_def errors_Is_def)

lemmas mem_defs = mem_lookup_def mem_state_def mem_undefine_def mem_define_def mem_create_vol_def mem_vol_lookup_def
  mem_network_update_def mem_domref_def mem_volref_def

interpretation memory: libvirtd mem_client fake_view fake_domname mem_domref "\<lambda>_ p n. rp_Name p = n" mem_volref "\<lambda>_ x n. rn_Name x = n"
proof (unfold_locales, goal_cases)
  case 1 then show ?case by (auto simp: fake_view_def)
next
  case 2 then show ?case by auto
next
  case 3 then show ?case by (auto simp: mem_defs fake_view_def split: option.splits)
next
  case 4 then show ?case by (auto simp: mem_defs fake_view_def split: option.splits)
next
  case (5 l d s r s' n)
  then show ?case using fake.Start_law [of "rd_Name d" s r s'] by (auto simp: mem_domref_def)
next
  case (6 l d s r s' n)
  then show ?case using fake.Destroy_law [of "rd_Name d" s r s'] by (auto simp: mem_domref_def)
next
  case 7 then show ?case
    by (auto simp: mem_defs fake_UndefineDomain_def fake_view_def view_defs fun_eq_iff delete_conv' split: option.splits if_splits)
next
  case (8 l xml s rd s')
  then show ?case using fake.Define_law [of xml s] by (auto simp: mem_define_def split: prod.splits sum.splits)
next
  case (9 l d xml fl s r s')
  then show ?case using fake.Update_law [of "rd_Name d" xml s r s'] by simp
next
  case 10 then show ?case by auto
next
  case 11 then show ?case by (auto simp: mem_defs fake_view_def split: option.splits)
next
  case (12 l px xml s rv s' p)
  then show ?case
  proof (cases "domainNameFromXML xml")
    case (Inl e)
    then show ?thesis using 12 by (auto simp: mem_create_vol_def volume_name acted_def intro: exI [of _ "cv_vols (fake_view s)"])
  next
    case (Inr m)
    then have "fake_view s' = (fake_view s)\<lparr>cv_vols := insert (vol_key p m) (cv_vols (fake_view s))\<rparr>"
      using 12 by (auto simp: mem_create_vol_def fake_CreateVolume_def Let_def fake_view_def)
    then show ?thesis using Inr by (auto simp: volume_name acted_def)
  qed
next
  case 13 then show ?case by simp
next
  case (14 l v s r s' p m)
  then show ?case using fake.DeleteVol_law [of p m s r s'] by (auto simp: mem_volref_def)
next
  case 15 then show ?case by auto
next
  case 16 then show ?case
    by (auto simp: mem_network_update_def fake_AddDHCPHost_def fake_view_def acted_def host_mac_plain split: if_splits)
next
  case 17 then show ?case
    by (auto simp: mem_network_update_def fake_RemoveDHCPHost_def fake_view_def acted_def host_mac_plain split: if_splits)
qed

interpretation memory: libvirtd_up mem_client fake_view fake_domname mem_domref "\<lambda>_ p n. rp_Name p = n" mem_volref "\<lambda>_ x n. rn_Name x = n"
  by unfold_locales
    (auto simp: mem_defs fake_view_def fake_state_defs fake_DeleteVolume_def split: option.splits if_splits)

section \<open>Usage readings\<close>

definition field_sum :: "('l, 'd) golibvirt \<Rightarrow> string \<Rightarrow> string \<Rightarrow> TypedParam list \<Rightarrow> 64 word" where
  "field_sum G pre suf ps = (\<Sum>p\<leftarrow>filter (\<lambda>p. device_field (tp_Field p) pre suf) ps. tpUint64 (x_float_to_uint64 G) (tp_Value p))"

lemma field_sum_simps [simp]:
  "field_sum G pre suf [] = 0"
  "field_sum G pre suf (p # ps) =
     (if device_field (tp_Field p) pre suf then tpUint64 (x_float_to_uint64 G) (tp_Value p) else 0) + field_sum G pre suf ps"
  by (simp_all add: field_sum_def)

text \<open>No field name belongs to two counters.\<close>

lemma HasPrefix_one:
  assumes "HasPrefix f p" "HasPrefix f q" "k \<le> length p" "k \<le> length q"
  shows "take k p = take k q"
proof -
  have p: "take (length p) f = p" "take (length q) f = q" using assms(1,2) by (simp_all add: HasPrefix_def)
  have "take k (take (length p) f) = take k (take (length q) f)" using assms(3,4) by (simp add: min_absorb1)
  then show ?thesis by (simp only: p)
qed

lemma HasSuffix_drop:
  assumes "HasSuffix f p" "k \<le> length p"
  shows "drop (length p - k) p = drop (length f - k) f"
proof -
  have p: "length p \<le> length f" "drop (length f - length p) f = p" using assms(1) by (auto simp: HasSuffix_def)
  have "drop (length p - k) (drop (length f - length p) f) = drop (length f - k) f" using p(1) assms(2) by simp
  then show ?thesis by (simp only: p(2))
qed

lemma HasSuffix_last:
  "HasSuffix f p \<Longrightarrow> HasSuffix f q \<Longrightarrow> k \<le> length p \<Longrightarrow> k \<le> length q \<Longrightarrow> drop (length p - k) p = drop (length q - k) q"
  by (simp only: HasSuffix_drop)

lemma device_field_one:
  "device_field f ''net.'' ''.rx.bytes'' \<Longrightarrow> \<not> device_field f ''net.'' ''.tx.bytes''"
  "device_field f ''net.'' a \<Longrightarrow> \<not> device_field f ''block.'' b"
  "device_field f ''block.'' ''.rd.bytes'' \<Longrightarrow> \<not> device_field f ''block.'' ''.wr.bytes''"
  "device_field f ''block.'' ''.rd.bytes'' \<Longrightarrow> \<not> device_field f ''block.'' ''.allocation''"
  "device_field f ''block.'' ''.rd.bytes'' \<Longrightarrow> \<not> device_field f ''block.'' ''.capacity''"
  "device_field f ''block.'' ''.wr.bytes'' \<Longrightarrow> \<not> device_field f ''block.'' ''.allocation''"
  "device_field f ''block.'' ''.wr.bytes'' \<Longrightarrow> \<not> device_field f ''block.'' ''.capacity''"
  "device_field f ''block.'' ''.allocation'' \<Longrightarrow> \<not> device_field f ''block.'' ''.capacity''"
  using HasPrefix_one [of f "''net.''" "''block.''" 1] HasSuffix_last [of f "''.rx.bytes''" "''.tx.bytes''" 9]
    HasSuffix_last [of f "''.rd.bytes''" "''.wr.bytes''" 9] HasSuffix_last [of f "''.rd.bytes''" "''.allocation''" 1]
    HasSuffix_last [of f "''.rd.bytes''" "''.capacity''" 1] HasSuffix_last [of f "''.wr.bytes''" "''.allocation''" 1]
    HasSuffix_last [of f "''.wr.bytes''" "''.capacity''" 1] HasSuffix_last [of f "''.allocation''" "''.capacity''" 1]
  by (auto simp: device_field_def)

lemma named_field [simp]:
  "device_field ''state.state'' ''net.'' a \<longleftrightarrow> False" "device_field ''state.state'' ''block.'' a \<longleftrightarrow> False"
  "device_field ''cpu.time'' ''net.'' a \<longleftrightarrow> False" "device_field ''cpu.time'' ''block.'' a \<longleftrightarrow> False"
  "device_field ''balloon.current'' ''net.'' a \<longleftrightarrow> False" "device_field ''balloon.current'' ''block.'' a \<longleftrightarrow> False"
  "device_field ''balloon.rss'' ''net.'' a \<longleftrightarrow> False" "device_field ''balloon.rss'' ''block.'' a \<longleftrightarrow> False"
  by (simp_all add: device_field_def HasPrefix_def)

definition last_value :: "('l, 'd) golibvirt \<Rightarrow> string \<Rightarrow> 64 word \<Rightarrow> TypedParam list \<Rightarrow> 64 word" where
  "last_value G f d ps = foldl (\<lambda>v p. if tp_Field p = f then tpUint64 (x_float_to_uint64 G) (tp_Value p) else v) d ps"

definition last_state :: "('l, 'd) golibvirt \<Rightarrow> DomainState \<Rightarrow> TypedParam list \<Rightarrow> DomainState" where
  "last_state G d ps = foldl (\<lambda>v p. if tp_Field p = ''state.state''
     then mapState G (ucast (tpUint64 (x_float_to_uint64 G) (tp_Value p))) else v) d ps"

definition stats_from :: "('l, 'd) golibvirt \<Rightarrow> DomainStats \<Rightarrow> TypedParam list \<Rightarrow> DomainStats" where
  "stats_from G s ps = \<lparr>ds_Name = ds_Name s, ds_State = last_state G (ds_State s) ps,
     ds_CPUTimeNs = last_value G ''cpu.time'' (ds_CPUTimeNs s) ps,
     ds_MemBalloonKiB = last_value G ''balloon.current'' (ds_MemBalloonKiB s) ps,
     ds_MemRSSKiB = last_value G ''balloon.rss'' (ds_MemRSSKiB s) ps,
     ds_NetRxBytes = ds_NetRxBytes s + field_sum G ''net.'' ''.rx.bytes'' ps,
     ds_NetTxBytes = ds_NetTxBytes s + field_sum G ''net.'' ''.tx.bytes'' ps,
     ds_BlockRdBytes = ds_BlockRdBytes s + field_sum G ''block.'' ''.rd.bytes'' ps,
     ds_BlockWrBytes = ds_BlockWrBytes s + field_sum G ''block.'' ''.wr.bytes'' ps,
     ds_BlockAllocation = ds_BlockAllocation s + field_sum G ''block.'' ''.allocation'' ps,
     ds_BlockCapacity = ds_BlockCapacity s + field_sum G ''block.'' ''.capacity'' ps\<rparr>"

lemma device_field_named: "device_field f ''net.'' a \<or> device_field f ''block.'' a \<Longrightarrow>
    f \<noteq> ''state.state'' \<and> f \<noteq> ''cpu.time'' \<and> f \<noteq> ''balloon.current'' \<and> f \<noteq> ''balloon.rss''"
  by auto

lemma parse_param_from: "parse_param G s p = stats_from G s [p]"
  by (auto simp: parse_param_def stats_from_def last_value_def last_state_def Let_def dest: device_field_one device_field_named)

lemma stats_from_Cons: "stats_from G (stats_from G s [p]) ps = stats_from G s (p # ps)"
  by (simp add: stats_from_def last_value_def last_state_def add.assoc)

lemma foldl_stats: "foldl (parse_param G) s ps = stats_from G s ps"
proof (induction ps arbitrary: s)
  case Nil
  show ?case by (simp add: stats_from_def last_value_def last_state_def)
next
  case (Cons p ps)
  then show ?case by (simp add: parse_param_from stats_from_Cons)
qed

text \<open>(C24) Usage readings are complete. Whatever parameters the daemon sends, in whatever order, the
  reading of a domain has the last state, processor time and memory sizes sent (unknown and zero
  if none were), and each of the six traffic and disk counters is the sum, modulo 2^64, of the
  parameters of exactly that counter over all interfaces or disks: none is lost, none is counted
  in two places.\<close>

theorem parseStats_exact:
  "parseStats G rec = (let ps = sr_Params rec in
     \<lparr>ds_Name = rd_Name (sr_Dom rec), ds_State = last_state G StateUnknown ps,
      ds_CPUTimeNs = last_value G ''cpu.time'' 0 ps,
      ds_MemBalloonKiB = last_value G ''balloon.current'' 0 ps,
      ds_MemRSSKiB = last_value G ''balloon.rss'' 0 ps,
      ds_NetRxBytes = field_sum G ''net.'' ''.rx.bytes'' ps, ds_NetTxBytes = field_sum G ''net.'' ''.tx.bytes'' ps,
      ds_BlockRdBytes = field_sum G ''block.'' ''.rd.bytes'' ps, ds_BlockWrBytes = field_sum G ''block.'' ''.wr.bytes'' ps,
      ds_BlockAllocation = field_sum G ''block.'' ''.allocation'' ps,
      ds_BlockCapacity = field_sum G ''block.'' ''.capacity'' ps\<rparr>)"
  by (simp add: parseStats_def foldl_stats stats_from_def zero_DomainStats_def Let_def)

section \<open>The contract\<close>

context libvirtd
begin

lemma meets_conn_api: "conn_api (virt_ops G) (\<lambda>c. dview (lc_net c)) domname"
  by unfold_locales

end

context libvirtd_up
begin

lemma meets_responsive_conn: "responsive_conn (virt_ops G) (\<lambda>c. dview (lc_net c)) domname"
  by unfold_locales

end



end
