(* ===== verification/Startup.thy ===== *)
theory Startup
  imports Api VmGuards Migrations LibvirtRefine
begin

text \<open>
  The process, \<open>cmd/kite-kvm/main.go\<close>, with \<open>internal/libvirt/factory.go\<close> and
  \<open>internal/api/server.go\<close>: the choice of the hypervisor connection, the start-up that puts the
  components together, the periodic sweep and the end of the server. Everything outside the
  repository that \<open>run\<close> reads is the record \<open>host\<close>: the environment, the configuration file and its
  decoder, the database file, the libvirt socket, clock and random source.
\<close>

section \<open>The connection\<close>

datatype ('l, 'd) any_conn = ConnFake Fake | ConnLibvirt "('l, 'd) libvirtConn"

definition libvirt_New :: "string \<Rightarrow> 'd \<Rightarrow> ('l, 'd) any_conn" where
  "libvirt_New uri net =
     (if TrimSpace uri \<in> {[], ''fake'', ''fake://''} then ConnFake NewFake else ConnLibvirt (newLibvirtConn uri net))"

text \<open>A method of the interface \<open>Conn\<close>.\<close>

definition dispatch :: "(Fake \<Rightarrow> 'a \<times> Fake) \<Rightarrow> (('l, 'd) libvirtConn \<Rightarrow> 'a \<times> ('l, 'd) libvirtConn)
    \<Rightarrow> ('l, 'd) any_conn \<Rightarrow> 'a \<times> ('l, 'd) any_conn" where
  "dispatch f g c = (case c of
     ConnFake x \<Rightarrow> (case f x of (r, x1) \<Rightarrow> (r, ConnFake x1))
   | ConnLibvirt y \<Rightarrow> (case g y of (r, y1) \<Rightarrow> (r, ConnLibvirt y1)))"

definition any_ops :: "('l, 'd) golibvirt \<Rightarrow> ('l, 'd) any_conn conn_ops" where
  "any_ops G = \<lparr>co_Connect = dispatch fake_Connect (virt_Connect G), co_Close = dispatch fake_Close (virt_Close G),
     co_Ping = dispatch fake_Ping (virt_Ping G), co_HostInfo = (\<lambda>p. dispatch (fake_HostInfo p) (virt_HostInfo G p)),
     co_DefineDomain = (\<lambda>x. dispatch (fake_DefineDomain x) (virt_DefineDomain G x)),
     co_StartDomain = (\<lambda>n. dispatch (fake_StartDomain n) (virt_StartDomain G n)),
     co_ShutdownDomain = (\<lambda>n. dispatch (fake_ShutdownDomain n) (virt_ShutdownDomain G n)),
     co_RebootDomain = (\<lambda>n. dispatch (fake_RebootDomain n) (virt_RebootDomain G n)),
     co_DestroyDomain = (\<lambda>n. dispatch (fake_DestroyDomain n) (virt_DestroyDomain G n)),
     co_SuspendDomain = (\<lambda>n. dispatch (fake_SuspendDomain n) (virt_SuspendDomain G n)),
     co_ResumeDomain = (\<lambda>n. dispatch (fake_ResumeDomain n) (virt_ResumeDomain G n)),
     co_UndefineDomain = (\<lambda>n. dispatch (fake_UndefineDomain n) (virt_UndefineDomain G n)),
     co_UpdateInterface = (\<lambda>n x. dispatch (fake_UpdateInterface n x) (virt_UpdateInterface G n x)),
     co_DomainState = (\<lambda>n. dispatch (fake_DomainState n) (virt_DomainState G n)),
     co_ListDomains = dispatch fake_ListDomains (virt_ListDomains G),
     co_DomainXML = (\<lambda>n. dispatch (fake_DomainXML n) (virt_DomainXML G n)),
     co_DomainVNCAddress = (\<lambda>n. dispatch (fake_DomainVNCAddress n) (virt_DomainVNCAddress G n)),
     co_CreateVolume = (\<lambda>s. dispatch (fake_CreateVolume s) (virt_CreateVolume G s)),
     co_DeleteVolume = (\<lambda>p n. dispatch (fake_DeleteVolume p n) (virt_DeleteVolume G p n)),
     co_ResizeVolume = (\<lambda>p n b. dispatch (fake_ResizeVolume p n b) (virt_ResizeVolume G p n b)),
     co_AllDomainStats = dispatch fake_AllDomainStats (virt_AllDomainStats G),
     co_AddDHCPHost = (\<lambda>n m h i. dispatch (fake_AddDHCPHost n m h i) (virt_AddDHCPHost G n m h i)),
     co_RemoveDHCPHost = (\<lambda>n m. dispatch (fake_RemoveDHCPHost n m) (virt_RemoveDHCPHost G n m)),
     co_CreateSnapshot = (\<lambda>t d n s. dispatch (fake_CreateSnapshot t d n s) (virt_CreateSnapshot G d n s)),
     co_ListSnapshots = (\<lambda>d. dispatch (fake_ListSnapshots d) (virt_ListSnapshots G d)),
     co_DeleteSnapshot = (\<lambda>d n. dispatch (fake_DeleteSnapshot d n) (virt_DeleteSnapshot G d n)),
     co_RevertSnapshot = (\<lambda>d n. dispatch (fake_RevertSnapshot d n) (virt_RevertSnapshot G d n))\<rparr>"

section \<open>Start-up\<close>

record ('l, 'd, 'f) host =
  h_env :: "string \<Rightarrow> string"
  h_config :: "string res"
  h_decode :: "string \<Rightarrow> Config res"
  h_stat :: "string \<Rightarrow> unit res"
  h_libvirt :: "('l, 'd) golibvirt"
  h_socket :: 'd
  h_exec :: "string \<Rightarrow> SQLiteStore \<Rightarrow> SQLiteStore res"
  h_migrations :: embed_FS
  h_MkdirAll :: "string \<Rightarrow> unit res"
  h_sql_Open :: "string \<Rightarrow> SQLiteStore sqldb res"
  h_os :: "'f os_ops"
  h_xml :: xml_marshal
  h_ssh_ok :: "string \<Rightarrow> bool"
  h_fs :: 'f
  h_clock :: "nat \<Rightarrow> time"
  h_uuid :: "nat \<Rightarrow> string"
  h_rand :: "nat \<Rightarrow> string + (nat \<Rightarrow> byte)"
  h_fmt :: json_fmt
  h_sha256 :: "string \<Rightarrow> byte list"
  h_version :: string

definition jobWorkers :: int where "jobWorkers = 4"

text \<open>The images that are warned about; a non-empty list is warned about once more.\<close>

definition preflightImages :: "(string \<Rightarrow> unit res) \<Rightarrow> Image list \<Rightarrow> string list" where
  "preflightImages stat images = map img_ID (filter (\<lambda>img. isl (stat (img_BasePath img))) images)"

text \<open>What serves requests once the process is up.\<close>

record ('l, 'd, 'f) agent_state =
  ag_queue :: "(SQLiteStore, ('l, 'd) any_conn, 'f) Queue"
  ag_options :: "(SQLiteStore, ('l, 'd) any_conn, 'f) Options"
  ag_state :: "(SQLiteStore, ('l, 'd) any_conn, 'f) hstate"
  ag_warned :: "string list"

definition service_of :: "('l, 'd, 'f) host \<Rightarrow> Config \<Rightarrow> Manager \<Rightarrow> (SQLiteStore, ('l, 'd) any_conn, 'f) Service" where
  "service_of H cfg netmgr = \<lparr>sv_cfg = cfg, sv_store = sqlite_ops, sv_conn = any_ops (h_libvirt H),
     sv_catalog = catalog_New cfg, sv_network = netmgr, sv_os = h_os H, sv_xml = h_xml H, sv_ssh_ok = h_ssh_ok H\<rparr>"

definition first_world :: "('l, 'd, 'f) host \<Rightarrow> SQLiteStore \<Rightarrow> ('l, 'd) any_conn \<Rightarrow> (SQLiteStore, ('l, 'd) any_conn, 'f) world" where
  "first_world H db conn = \<lparr>w_store = db, w_conn = conn, w_fs = h_fs H, w_clock = h_clock H, w_uuid = h_uuid H,
     w_rand = h_rand H, w_sched = [], w_timers = [], w_lastStats = Map.empty, w_trafficLast = Map.empty\<rparr>"

text \<open>\<open>run\<close> up to the launch of the workers: the first part of \<open>queue.Start\<close> is the recovery of jobs, as the
  channel is empty until then.\<close>

definition launch :: "('l, 'd, 'f) host \<Rightarrow> ('l, 'd, 'f) agent_state res" where
  "launch H = (case Load (h_env H) (h_config H) (h_decode H) of
     Inl e \<Rightarrow> Inl e
   | Inr cfg \<Rightarrow>
       let warned = preflightImages (h_stat H) (cfg_Images cfg);
           conn = ignore_err (co_Connect (any_ops (h_libvirt H)) (libvirt_New (lv_URI (cfg_Libvirt cfg)) (h_socket H)))
       in (case Open (h_exec H) (h_migrations H) (h_MkdirAll H) (h_sql_Open H) (cfg_StatePath cfg) of
         Inl e \<Rightarrow> Inl e
       | Inr db \<Rightarrow> (case NewManager cfg of
           Inl e \<Rightarrow> Inl e
         | Inr netmgr \<Rightarrow>
             let S = service_of H cfg netmgr;
                 (queue, w1) = NewService S (NewQueue jobWorkers) (first_world H (q_schema db) conn);
                 w2 = queue_recover S w1
             in Inr \<lparr>ag_queue = queue,
                  ag_options = \<lparr>op_Ready = Some (on_conn (co_Ping (sv_conn S))), op_Auth = cfg_Auth cfg,
                    op_Catalog = sv_catalog S, op_VMService = S, op_Version = h_version H,
                    op_fmt = h_fmt H, op_sha256 = h_sha256 H\<rparr>,
                  ag_state = \<lparr>hs_world = w2, hs_tokens = NewTokenStore consoleTokenTTL\<rparr>,
                  ag_warned = warned\<rparr>)))"

text \<open>The reconciliation that follows, when no worker has taken a job yet. Theory \<open>Agent\<close> interleaves the two.\<close>

definition reconciled :: "('l, 'd, 'f) agent_state \<Rightarrow> ('l, 'd, 'f) agent_state" where
  "reconciled ag = ag\<lparr>ag_state := (ag_state ag)\<lparr>hs_world :=
     ReconcileOnStart (op_VMService (ag_options ag)) (hs_world (ag_state ag))\<rparr>\<rparr>"

definition start_up :: "('l, 'd, 'f) host \<Rightarrow> ('l, 'd, 'f) agent_state res" where
  "start_up H = (case launch H of Inl e \<Rightarrow> Inl e | Inr ag \<Rightarrow> Inr (reconciled ag))"

section \<open>While it runs, and its end\<close>

text \<open>One tick of \<open>sweepIdempotency\<close>; a failure is only logged.\<close>

definition sweep_tick :: "('s, 'c, 'f) Service \<Rightarrow> ('s, 'c, 'f) world \<Rightarrow> ('s, 'c, 'f) world" where
  "sweep_tick S w = (case time_Now w of (now, w1) \<Rightarrow> ignore_err (on_store (so_DeleteExpiredIdempotency (sv_store S) now) w1))"

record http_Server =
  sr_Addr :: string
  sr_ReadHeaderTimeout :: duration
  sr_ReadTimeout :: duration
  sr_WriteTimeout :: duration
  sr_IdleTimeout :: duration

definition NewServer :: "Server \<Rightarrow> http_Server" where
  "NewServer cfg = \<lparr>sr_Addr = srv_Addr cfg, sr_ReadHeaderTimeout = 10 * second, sr_ReadTimeout = 30 * second,
     sr_WriteTimeout = 60 * second, sr_IdleTimeout = 120 * second\<rparr>"

text \<open>How \<open>Run\<close> ends: the listener fails, or the process is told to stop and drains. The choice between
  plain and TLS listening is the configuration's.\<close>

datatype server_end = ListenerFailed goerr | Cancelled "unit res"

datatype listener = ListenAndServe | ListenAndServeTLS string string

definition Run_listener :: "Server \<Rightarrow> listener" where
  "Run_listener cfg = (if srv_Insecure cfg then ListenAndServe else ListenAndServeTLS (srv_TLSCert cfg) (srv_TLSKey cfg))"

fun server_Run :: "server_end \<Rightarrow> unit res" where
  "server_Run (ListenerFailed e) = (if errors_Is e ErrServerClosed then Inr () else Inl e)"
| "server_Run (Cancelled shutdown) = shutdown"

text \<open>The rest of \<open>run\<close>: what happens while requests are served is the parameter \<open>serving\<close>, which ends with
  the state reached then. The deferred calls run last: the workers are stopped, which leaves the
  state as it is, and the connection is closed.\<close>

definition shut_down :: "('s, 'c, 'f) Service \<Rightarrow> ('s, 'c, 'f) world \<Rightarrow> ('s, 'c, 'f) world" where
  "shut_down S w = ignore_err (on_conn (co_Close (sv_conn S)) w)"

definition run :: "('l, 'd, 'f) host
    \<Rightarrow> (('l, 'd, 'f) agent_state \<Rightarrow> server_end \<times> (SQLiteStore, ('l, 'd) any_conn, 'f) world)
    \<Rightarrow> unit res \<times> (SQLiteStore, ('l, 'd) any_conn, 'f) world option" where
  "run H serving = (case start_up H of
     Inl e \<Rightarrow> (Inl e, None)
   | Inr ag \<Rightarrow> (case serving ag of (ended, w) \<Rightarrow> (server_Run ended, Some (shut_down (op_VMService (ag_options ag)) w))))"

text \<open>The exit code of \<open>main\<close>.\<close>

definition main_exit :: "bool \<Rightarrow> unit res \<Rightarrow> int" where
  "main_exit showVersion result = (if showVersion then 0 else if isl result then 1 else 0)"

section \<open>What start-up guarantees\<close>

text \<open>A configuration that loads has a strategy for each of its networks.\<close>

definition strategy_of :: "Network \<Rightarrow> Strategy" where
  "strategy_of n = (if nw_Mode n = NetworkModeNAT then natStrategy n else bridgeStrategy n)"

lemma NewManager_fold:
  assumes "\<forall>n\<in>set ns. nw_Mode n = NetworkModeNAT \<or> nw_Mode n = NetworkModeBridge"
  shows "fold (\<lambda>n acc. case acc of Inl e \<Rightarrow> Inl e | Inr m \<Rightarrow>
       if nw_Mode n = NetworkModeNAT then Inr (m(nw_ID n \<mapsto> natStrategy n))
       else if nw_Mode n = NetworkModeBridge then Inr (m(nw_ID n \<mapsto> bridgeStrategy n))
       else Inl (errors_New (''network '' @ Quote (nw_ID n) @ '': unsupported mode '' @ Quote (nw_Mode n)))) ns (Inr m) =
    Inr (fold (\<lambda>n m. m(nw_ID n \<mapsto> strategy_of n)) ns m)"
  using assms by (induction ns arbitrary: m) (auto simp: strategy_of_def)

lemma dom_fold_upd: "dom (fold (\<lambda>n m. m(nw_ID n \<mapsto> strategy_of n)) ns m) = nw_ID ` set ns \<union> dom m"
  by (induction ns arbitrary: m) auto

lemma NewManager_ok:
  assumes "config_ok cfg"
  obtains m where "NewManager cfg = Inr m" "dom m = nw_ID ` set (cfg_Networks cfg)"
proof -
  have "\<forall>n\<in>set (cfg_Networks cfg). nw_Mode n = NetworkModeNAT \<or> nw_Mode n = NetworkModeBridge"
    using assms by (auto simp: config_ok_def network_ok_def list_all_iff)
  from NewManager_fold [OF this, of Map.empty] show thesis
    by (intro that [of "fold (\<lambda>n m. m(nw_ID n \<mapsto> strategy_of n)) (cfg_Networks cfg) Map.empty"]) (simp_all only: NewManager_def dom_fold_upd, simp)
qed

text \<open>What \<open>launch\<close> builds.\<close>

lemma launch_eq:
  assumes "Load (h_env H) (h_config H) (h_decode H) = Inr cfg"
    and "Open (h_exec H) (h_migrations H) (h_MkdirAll H) (h_sql_Open H) (cfg_StatePath cfg) = Inr db"
    and "NewManager cfg = Inr m"
  defines "S \<equiv> service_of H cfg m"
    and "w \<equiv> first_world H (q_schema db) (ignore_err (co_Connect (any_ops (h_libvirt H)) (libvirt_New (lv_URI (cfg_Libvirt cfg)) (h_socket H))))"
  shows "launch H = Inr \<lparr>ag_queue = SetRunner (RunJob S) (NewQueue jobWorkers),
     ag_options = \<lparr>op_Ready = Some (on_conn (co_Ping (sv_conn S))), op_Auth = cfg_Auth cfg, op_Catalog = sv_catalog S,
       op_VMService = S, op_Version = h_version H, op_fmt = h_fmt H, op_sha256 = h_sha256 H\<rparr>,
     ag_state = \<lparr>hs_world = queue_recover S w, hs_tokens = NewTokenStore consoleTokenTTL\<rparr>,
     ag_warned = preflightImages (h_stat H) (cfg_Images cfg)\<rparr>"
proof -
  have w: "w\<lparr>w_lastStats := Map.empty, w_trafficLast := Map.empty\<rparr> = w" by (simp add: w_def first_world_def)
  show ?thesis
    by (simp add: launch_def assms(1-3) Let_def NewService_def S_def [symmetric] w_def [symmetric] w)
qed

text \<open>Recovery of the queue does not touch the VMs.\<close>

context service_store
begin

lemma fail_interrupted_vms:
  "sinv (w_store w) \<Longrightarrow> sinv (w_store (fail_interrupted S js w)) \<and>
     sv_vms (view (w_store (fail_interrupted S js w))) = sv_vms (view (w_store w))"
proof (induction js arbitrary: w)
  case (Cons j js)
  obtain now w1 where t: "time_Now w = (now, w1)" "w_store w1 = w_store w" by (simp add: time_Now_def)
  obtain r w2 where u: "st_UpdateJob S (j\<lparr>job_State := JobFailed, job_Error := ''interrupted by agent restart'',
          job_FinishedAt := Some now\<rparr>) w1 = (r, w2)" by fastforce
  have "sinv (w_store w2) \<and> sv_vms (view (w_store w2)) = sv_vms (view (w_store w))"
    using st_UpdateJob_law [OF u] Cons.prems t by (cases r) auto
  with Cons.IH [of w2] show ?case by (simp add: t u)
qed simp

lemma recover_vms:
  assumes "sinv (w_store w)"
  shows "sv_vms (view (w_store (queue_recover S w))) = sv_vms (view (w_store w))"
proof -
  obtain r w1 where 1: "st_ListJobsByState S JobRunning w = (r, w1)" by fastforce
  define w2 where "w2 = fail_interrupted S (case r of Inl _ \<Rightarrow> [] | Inr js \<Rightarrow> js) w1"
  obtain r' w3 where 3: "st_ListJobsByState S JobQueued w2 = (r', w3)" by fastforce
  have l1: "sinv (w_store w1) \<and> view (w_store w1) = view (w_store w)" using st_ListJobs_law [OF 1 assms] by simp
  have l2: "sinv (w_store w2) \<and> sv_vms (view (w_store w2)) = sv_vms (view (w_store w1))"
    unfolding w2_def by (rule fail_interrupted_vms) (use l1 in blast)
  have "view (w_store w3) = view (w_store w2)" using st_ListJobs_law [OF 3] l2 by simp
  moreover have "w_store (fold (\<lambda>j. schedule (job_ID j)) js v) = w_store v" for js and v :: "('s, 'c, 'f) world"
    by (induction js arbitrary: v) (simp_all add: schedule_def)
  then have "w_store (queue_recover S w) = w_store w3" using 1 3 by (simp add: queue_recover_def w2_def)
  ultimately show ?thesis using l1 l2 by simp
qed

end


text \<open>A start over the development configuration, the in-memory hypervisor and a database that holds three
  jobs, one of them interrupted while it ran.\<close>

definition demo_host :: "(unit, Fake, unit) host" where
  "demo_host = \<lparr>h_env = (\<lambda>_. []), h_config = Inr [], h_decode = (\<lambda>_. Inr dev_config), h_stat = (\<lambda>_. Inr ()),
     h_libvirt = mem_client, h_socket = NewFake, h_exec = (\<lambda>_ q. Inr q), h_migrations = embedded_files,
     h_MkdirAll = (\<lambda>_. Inr ()), h_sql_Open = (\<lambda>_. Inr \<lparr>q_versions = None, q_schema = w_store demo_jobs_world,
       q_faults = [], q_clock = (\<lambda>_. 0)\<rparr>), h_os = demo_os, h_xml = demo_xml, h_ssh_ok = (\<lambda>_. True), h_fs = (),
     h_clock = w_clock demo_world, h_uuid = w_uuid demo_world, h_rand = w_rand demo_world,
     h_fmt = \<lparr>jf_float = (\<lambda>_. ''0''), jf_time = Itoa\<rparr>, h_sha256 = map (\<lambda>c. of_nat (of_char c)), h_version = ''dev''\<rparr>"

lemma demo_host_loads: "Load (h_env demo_host) (h_config demo_host) (h_decode demo_host) = Inr dev_config"
  by (simp add: demo_host_def dev_config_loads)

lemma demo_host_opens:
  obtains db where "Open (h_exec demo_host) (h_migrations demo_host) (h_MkdirAll demo_host) (h_sql_Open demo_host)
      (cfg_StatePath dev_config) = Inr db" "q_schema db = w_store demo_jobs_world"
proof -
  obtain ms where ms: "loadMigrations embedded_files = Inr ms" "sorted_wrt (<) (map mg_version ms)" "\<forall>m\<in>set ms. 0 < mg_version m"
    by (rule embedded_load)
  have sch: "schema_after (\<lambda>_ q. Inr q) q ms = Inr q" for q :: SQLiteStore by (induction ms) simp_all
  have "\<exists>db. Open (h_exec demo_host) (h_migrations demo_host) (h_MkdirAll demo_host) (h_sql_Open demo_host)
      (cfg_StatePath dev_config) = Inr db \<and> q_schema db = w_store demo_jobs_world"
    unfolding demo_host_def host.simps by (rule Open_fresh [OF ms], (rule refl)+) (simp_all add: sch)
  then show thesis by (elim exE conjE) (rule that)
qed


end
