(* ===== verification/Agent.thy ===== *)
theory Agent
  imports ApiProps Startup
begin

text \<open>
  The agent as a whole: the workers of \<open>internal/job/queue.go\<close>, the HTTP server, and the background
  loops that \<open>run\<close> in \<open>cmd/kite-kvm/main.go\<close> starts, interleaved. A worker's round is three steps
  (it takes and claims a job, the job runs, it is settled), so several workers overlap; a request,
  a run, a tick, a sweep and the reconciliation are one step each. Statements of the database may
  fail at any point.
\<close>

section \<open>Steps\<close>

text \<open>A claimed job, and what its run returned once it has.\<close>

record ('s, 'c, 'f) agent =
  a_state :: "('s, 'c, 'f) hstate"
  a_running :: "(Job \<times> unit res option) list"
  a_stopped :: bool

abbreviation a_world :: "('s, 'c, 'f) agent \<Rightarrow> ('s, 'c, 'f) world" where
  "a_world st \<equiv> hs_world (a_state st)"

definition in_world :: "('s, 'c, 'f) world \<Rightarrow> ('s, 'c, 'f) agent \<Rightarrow> ('s, 'c, 'f) agent" where
  "in_world w st = st\<lparr>a_state := (a_state st)\<lparr>hs_world := w\<rparr>\<rparr>"

text \<open>The workers, the goroutines that hand ids to them, the retry timers, and \<open>Stop\<close>.\<close>

inductive worker_step :: "('s, 'c, 'f) Service \<Rightarrow> ('s, 'c, 'f) Queue \<Rightarrow> ('s, 'c, 'f) agent \<Rightarrow> ('s, 'c, 'f) agent \<Rightarrow> bool"
  for S q where
  takes: "w_sched (a_world st) = xs @ i # ys \<Longrightarrow> claim S i ((a_world st)\<lparr>w_sched := xs @ ys\<rparr>) = (Some j, w') \<Longrightarrow>
    worker_step S q st ((in_world w' st)\<lparr>a_running := a_running st @ [(j, None)]\<rparr>)"
| skips: "w_sched (a_world st) = xs @ i # ys \<Longrightarrow> claim S i ((a_world st)\<lparr>w_sched := xs @ ys\<rparr>) = (None, w') \<Longrightarrow>
    worker_step S q st (in_world w' st)"
| runs: "a_running st = xs @ (j, None) # ys \<Longrightarrow> queue_run q j (a_world st) = Some (r, w') \<Longrightarrow>
    worker_step S q st ((in_world w' st)\<lparr>a_running := xs @ (j, Some r) # ys\<rparr>)"
| settles: "a_running st = xs @ (j, Some r) # ys \<Longrightarrow>
    worker_step S q st ((in_world (settle S q (a_stopped st) j r (a_world st)) st)\<lparr>a_running := xs @ ys\<rparr>)"
| fires: "w_timers (a_world st) = xs @ (i, d) # ys \<Longrightarrow>
    worker_step S q st (in_world (schedule i ((a_world st)\<lparr>w_timers := xs @ ys\<rparr>)) st)"
| stops: "worker_step S q st (st\<lparr>a_stopped := True\<rparr>)"
| drops: "a_stopped st \<Longrightarrow> w_sched (a_world st) = xs @ i # ys \<Longrightarrow>
    worker_step S q st (in_world ((a_world st)\<lparr>w_sched := xs @ ys\<rparr>) st)"
| expires: "a_stopped st \<Longrightarrow> w_timers (a_world st) = xs @ t # ys \<Longrightarrow>
    worker_step S q st (in_world ((a_world st)\<lparr>w_timers := xs @ ys\<rparr>) st)"

text \<open>The whole process. A request is any route with any content, permitted or not.\<close>

inductive agent_step :: "('s, 'c, 'f) Options \<Rightarrow> ('s, 'c, 'f) Queue \<Rightarrow> ('s, 'c, 'f) agent \<Rightarrow> ('s, 'c, 'f) agent \<Rightarrow> bool"
  for A q where
  works: "worker_step (op_VMService A) q st st' \<Longrightarrow> agent_step A q st st'"
| serves: "serve x A r (a_state st) = (resp, h') \<Longrightarrow> agent_step A q st (st\<lparr>a_state := h'\<rparr>)"
| connects: "serveWS reached A r (a_state st) = (out, h') \<Longrightarrow> agent_step A q st (st\<lparr>a_state := h'\<rparr>)"
| ticks: "agent_step A q st (in_world (accountTick (op_VMService A) (a_world st)) st)"
| sweeps: "agent_step A q st (in_world (sweep_tick (op_VMService A) (a_world st)) st)"
| reconciles: "agent_step A q st (in_world (ReconcileOnStart (op_VMService A) (a_world st)) st)"

lemma in_world_simps [simp]:
  "hs_world (a_state (in_world w st)) = w" "a_running (in_world w st) = a_running st"
  "hs_tokens (a_state (in_world w st)) = hs_tokens (a_state st)" "a_stopped (in_world w st) = a_stopped st"
  by (simp_all add: in_world_def)

section \<open>The agent moves the queue only by the queue's own steps\<close>

definition queue_of :: "('s, 'c, 'f) agent \<Rightarrow> ('s, 'c, 'f) qstate" where
  "queue_of st = \<lparr>qs_world = a_world st, qs_running = map fst (a_running st)\<rparr>"

context request_env
begin

lemma account_vm_ends: "R w w1 \<Longrightarrow> R w (account_vm S byDomain v w1)"
proof -
  assume "R w w1"
  obtain d w2 where s: "sample_vm byDomain v w1 = (d, w2)" by fastforce
  with \<open>R w w1\<close> have "R w w2" using ends_local(6) by (auto simp: sample_vm_def Let_def split: option.splits)
  define v1 where "v1 = (if d > 0 then v\<lparr>vm_TrafficUsedBytes := vm_TrafficUsedBytes v + d\<rparr> else v)"
  obtain b v2 w3 where q: "reconcileQuota S v1 w2 = (b, v2, w3)" by (cases "reconcileQuota S v1 w2")
  have "R w w3" by (rule reconcileQuota_ends [OF q \<open>R w w2\<close>])
  then show ?thesis
    using \<open>R w w1\<close> ends_ignore [OF writes(2)] by (simp add: account_vm_def s v1_def [symmetric] q)
qed

lemma accountTick_ends: "R w w1 \<Longrightarrow> R w (accountTick S w1)"
proof -
  assume "R w w1"
  have fold: "R w (fold (account_vm S byDomain) vs w2)" if "R w w2" for byDomain vs w2
    using that by (induction vs arbitrary: w2) (simp_all add: account_vm_ends)
  obtain r w2 where 1: "on_conn (co_AllDomainStats (sv_conn S)) w1 = (r, w2)" by fastforce
  then have r2: "R w w2" using ends_local(1) [OF \<open>R w w1\<close>, of "co_AllDomainStats (sv_conn S)"] by (simp add: ends_def)
  obtain r' w3 where 2: "st_ListVMs S w2 = (r', w3)" by fastforce
  then have "R w w3" using reads(2) [OF r2] by (simp add: ends_def)
  then show ?thesis using r2 fold by (cases r; cases r') (simp_all add: accountTick_def 1 2)
qed

end

context job_env
begin

lemma frame_reconcile_vm:
  assumes "jf (vm_ID v) w w1"
  shows "jf (vm_ID v) w (reconcile_vm S v w1)"
proof (cases "conn_state S v w1")
  case (Pair r w2)
  have f: "jf (vm_ID v) w w2" using safe_conn_state [OF assms, of v] by (simp add: Pair run_safe_def)
  have up: "jf (vm_ID v) w (ignore_err (st_UpdateVM S u w3))" if "jf (vm_ID v) w w3" "vm_ID u = vm_ID v" for u w3
    by (rule jf_ignore [OF safe_UpdateVM [OF that]])
  show ?thesis
    using assms up [OF f] up [OF frame_teardown [OF f refl, of "vm_MAC v"]]
    by (cases r) (simp_all add: reconcile_vm_def Pair Let_def)
qed

end

lemma ReconcileOnStart_moves:
  fixes S :: "(SQLiteStore, 'c, 'f) Service"
  assumes "sv_store S = sqlite_ops" "queue_moves S sqlite_view sqlite_inv q w w1"
  shows "queue_moves S sqlite_view sqlite_inv q w (ReconcileOnStart S w1)"
proof -
  let ?M = "queue_moves S sqlite_view sqlite_inv q w"
  have vm: "?M (reconcile_vm S v w2)" if "?M w2" for v w2
  proof -
    have f: "job_frame sqlite_view sqlite_inv (vm_ID v) w2 w2" using that by (simp add: queue_moves_def job_frame_refl)
    have "job_frame sqlite_view sqlite_inv (vm_ID v) w2 (reconcile_vm S v w2)"
      by (rule anyrun.frame_reconcile_vm [where S = S, unfolded with_sqlite [OF assms(1)], OF f])
    with that show ?thesis by (rule moves_frame)
  qed
  have fold: "?M (fold (reconcile_vm S) vs w2)" if "?M w2" for vs w2
    using that by (induction vs arbitrary: w2) (simp_all add: vm)
  obtain r w2 where l: "st_ListVMs S w1 = (r, w2)" by fastforce
  have "?M w2"
    using agent.moves.reads(2) [where S = S, unfolded with_sqlite [OF assms(1)], OF assms(2)] by (simp add: l ends_def)
  then show ?thesis using fold by (cases r) (simp_all add: ReconcileOnStart_def l)
qed

lemma sweep_moves:
  assumes "sv_store S = sqlite_ops" "queue_moves S sqlite_view sqlite_inv q w w1"
  shows "queue_moves S sqlite_view sqlite_inv q w (sweep_tick S w1)"
proof -
  have "sqlite_inv (w_store w1)" using assms(2) by (simp add: queue_moves_def)
  then have "sqlite_inv (w_store (sweep_tick S w1)) \<and>
      sv_jobs (sqlite_view (w_store (sweep_tick S w1))) = sv_jobs (sqlite_view (w_store w1)) \<and>
      w_sched (sweep_tick S w1) = w_sched w1 \<and> w_timers (sweep_tick S w1) = w_timers w1"
    by (auto simp: sweep_tick_def assms(1) time_Now_def on_store_def DeleteExpiredIdempotency_def driver_def
        sqlite_inv_def sqlite_view_def distinct_map_filter split: list.splits prod.splits option.splits)
  then show ?thesis by (intro moves_works [OF assms(2)]) simp_all
qed

lemma worker_simulates:
  fixes S :: "(SQLiteStore, 'c, 'f) Service"
  assumes "sv_store S = sqlite_ops" "q_runner q = Some (RunJob S)" "sqlite_inv (w_store (a_world st))"
    and "worker_step S q st st'"
  shows "(qstep S sqlite_view sqlite_inv q)\<^sup>*\<^sup>* (queue_of st) (queue_of st')"
  using assms(4)
proof cases
  case (takes xs i ys j w')
  then show ?thesis
    using qstep.claims [of "queue_of st" xs i ys S j w' sqlite_view sqlite_inv q] by (auto simp: queue_of_def)
next
  case (skips xs i ys w')
  then show ?thesis
    using qstep.skips [of "queue_of st" xs i ys S w' sqlite_view sqlite_inv q] by (auto simp: queue_of_def)
next
  case (runs xs j ys r w')
  have "RunJob S j (a_world st) = Some (r, w')" using runs(3) assms(2) by (simp add: queue_run_def)
  from anyrun.safe_RunJob [where S = S, unfolded with_sqlite [OF assms(1)], OF assms(3) this]
  have "queue_moves S sqlite_view sqlite_inv q (a_world st) w'"
    by (intro moves_frame [OF moves_refl [where sinv = sqlite_inv, OF assms(3)]]) (simp add: run_safe_def)
  then show ?thesis using runs by (simp add: queue_moves_def queue_of_def)
next
  case (settles xs j r ys)
  then show ?thesis
    using qstep.settles [of "queue_of st" "map fst xs" j "map fst ys" S sqlite_view sqlite_inv q "a_stopped st" r]
    by (auto simp: queue_of_def)
next
  case (fires xs i d ys)
  then show ?thesis
    using qstep.fires [of "queue_of st" xs i d ys S sqlite_view sqlite_inv q] by (auto simp: queue_of_def)
next
  case stops
  then show ?thesis by (simp add: queue_of_def)
next
  case (drops xs i ys)
  then show ?thesis
    using qstep.drops [of "queue_of st" xs i ys S sqlite_view sqlite_inv q] by (auto simp: queue_of_def)
next
  case (expires xs t ys)
  then show ?thesis
    using qstep.expires [of "queue_of st" xs t ys S sqlite_view sqlite_inv q] by (auto simp: queue_of_def)
qed

lemma moves_step:
  assumes "queue_moves S sqlite_view sqlite_inv q (a_world st) (a_world st')" "map fst (a_running st') = map fst (a_running st)"
  shows "(qstep S sqlite_view sqlite_inv q)\<^sup>*\<^sup>* (queue_of st) (queue_of st')"
  using assms by (simp add: queue_moves_def queue_of_def)

lemma agent_simulates:
  fixes A :: "(SQLiteStore, 'c, 'f) Options"
  assumes S: "sv_store (op_VMService A) = sqlite_ops" and "q_runner q = Some (RunJob (op_VMService A))" "ready_on_conn A"
    and ok: "sqlite_inv (w_store (a_world st))" and "agent_step A q st st'"
  shows "(qstep (op_VMService A) sqlite_view sqlite_inv q)\<^sup>*\<^sup>* (queue_of st) (queue_of st')"
proof -
  let ?S = "op_VMService A"
  have start: "queue_moves ?S sqlite_view sqlite_inv q (a_world st) (a_world st)" by (rule moves_refl [where sinv = sqlite_inv, OF ok])
  from assms(5) show ?thesis
  proof cases
    case works
    then show ?thesis by (rule worker_simulates [OF S assms(2) ok])
  next
    case (serves x r resp h')
    have "queue_moves ?S sqlite_view sqlite_inv q (a_world st) (hs_world (snd (serve x A r (a_state st))))"
      by (rule agent.moves.ends_serve [where S = ?S, unfolded with_sqlite [OF S], OF start refl assms(3)])
    then show ?thesis using serves by (intro moves_step) simp_all
  next
    case (connects reached r out h')
    have "queue_moves ?S sqlite_view sqlite_inv q (a_world st) (hs_world h')"
      using connects(2) start agent.moves.time_step [where S = ?S, unfolded with_sqlite [OF S], OF _ start]
      by (auto simp: serveWS_def Redeem_def Let_def split: option.splits prod.splits if_splits)
    then show ?thesis using connects by (intro moves_step) simp_all
  next
    case ticks
    then show ?thesis
      using agent.moves.accountTick_ends [where S = ?S, unfolded with_sqlite [OF S], OF start] by (intro moves_step) simp_all
  next
    case sweeps
    then show ?thesis using sweep_moves [OF S start] by (intro moves_step) simp_all
  next
    case reconciles
    then show ?thesis using ReconcileOnStart_moves [OF S start] by (intro moves_step) simp_all
  qed
qed

section \<open>The queue after recovery\<close>

context service_store
begin

lemma fail_interrupted_jobs:
  "sinv (w_store w) \<Longrightarrow> sinv (w_store (fail_interrupted S js w)) \<and> w_sched (fail_interrupted S js w) = w_sched w \<and>
     w_timers (fail_interrupted S js w) = w_timers w \<and>
     (\<forall>i k. jobs (fail_interrupted S js w) i = Some k \<longrightarrow>
        jobs w i = Some k \<or> (\<exists>j\<in>set js. job_Attempts k = job_Attempts j))"
proof (induction js arbitrary: w)
  case (Cons j js)
  obtain now w1 where t: "time_Now w = (now, w1)" "w_store w1 = w_store w" "w_sched w1 = w_sched w" "w_timers w1 = w_timers w"
    by (simp add: time_Now_def)
  let ?k = "j\<lparr>job_State := JobFailed, job_Error := ''interrupted by agent restart'', job_FinishedAt := Some now\<rparr>"
  obtain r w2 where u: "st_UpdateJob S ?k w1 = (r, w2)" by fastforce
  have att: "job_Attempts (job_written old ?k) = job_Attempts j" for old by (simp add: job_written_def)
  have "sinv (w_store w2) \<and> w_sched w2 = w_sched w \<and> w_timers w2 = w_timers w \<and>
      (\<forall>i k. jobs w2 i = Some k \<longrightarrow> jobs w i = Some k \<or> job_Attempts k = job_Attempts j)"
    using st_UpdateJob_law [OF u] Cons.prems t store_frameD(5,6) [OF st_frame(8) [OF u]] att by (cases r) (auto split: if_splits)
  with Cons.IH [of w2] show ?case by (fastforce simp: t u)
qed simp

lemma recover_inv:
  assumes "sinv (w_store w)" "w_sched w = []" "w_timers w = []"
    and "\<forall>i j. jobs w i = Some j \<longrightarrow> 0 \<le> job_Attempts j \<and> job_Attempts j < m"
  shows "queue_inv view sinv m \<lparr>qs_world = queue_recover S w, qs_running = []\<rparr>"
proof -
  obtain r w1 where 1: "st_ListJobsByState S JobRunning w = (r, w1)" by fastforce
  define js where "js = (case r of Inl _ \<Rightarrow> [] | Inr js \<Rightarrow> js)"
  define w2 where "w2 = fail_interrupted S js w1"
  obtain r' w3 where 3: "st_ListJobsByState S JobQueued w2 = (r', w3)" by fastforce
  define ks where "ks = (case r' of Inl _ \<Rightarrow> [] | Inr ks \<Rightarrow> ks)"
  have l1: "sinv (w_store w1)" "view (w_store w1) = view (w_store w)" "\<forall>j\<in>set js. jobs w (job_ID j) = Some j"
    using st_ListJobs_law [OF 1 assms(1)] by (cases r; simp add: js_def)+
  have f1: "w_sched w1 = []" "w_timers w1 = []" using store_frameD(5,6) [OF st_frame(10) [OF 1]] assms(2,3) by simp_all
  have l2: "sinv (w_store w2) \<and> w_sched w2 = w_sched w1 \<and> w_timers w2 = w_timers w1 \<and>
     (\<forall>i k. jobs w2 i = Some k \<longrightarrow> jobs w1 i = Some k \<or> (\<exists>j\<in>set js. job_Attempts k = job_Attempts j))"
    unfolding w2_def by (rule fail_interrupted_jobs [OF l1(1)])
  have l3: "sinv (w_store w3)" "view (w_store w3) = view (w_store w2)" "distinct (map job_ID ks)"
    "\<forall>j\<in>set ks. jobs w2 (job_ID j) = Some j \<and> job_State j = JobQueued"
    using st_ListJobs_law [OF 3 conjunct1 [OF l2]] by (cases r'; simp add: ks_def)+
  have f3: "w_sched w3 = []" "w_timers w3 = []" using store_frameD(5,6) [OF st_frame(10) [OF 3]] l2 f1 by simp_all
  have sched: "fold (\<lambda>j. schedule (job_ID j)) js' v = v\<lparr>w_sched := w_sched v @ map job_ID js'\<rparr>" for js' and v :: "('s, 'c, 'f) world"
    by (induction js' arbitrary: v) (simp_all add: schedule_def)
  have "queue_recover S w = w3\<lparr>w_sched := w_sched w3 @ map job_ID ks\<rparr>"
    using 1 3 by (simp add: queue_recover_def js_def [symmetric] w2_def [symmetric] ks_def [symmetric] sched)
  moreover have "0 \<le> job_Attempts k \<and> job_Attempts k < m" if "jobs w3 i = Some k" for i k
    using that l2 l1 assms(4) by (metis l3(2))
  ultimately show ?thesis using l3 f3 by (auto simp: queue_inv_def qinv_def)
qed

end

section \<open>Properties\<close>

text \<open>(C5) The agent refines the queue: whatever the process does, a request with any content, a console
  connection, a worker's step, an accounting tick, a sweep or the reconciliation at start-up, is
  for the jobs table, the channel, the timers and the running jobs a sequence of the queue's own
  steps. No other part of the program writes them.\<close>

theorem agent_refines_queue:
  fixes A :: "(SQLiteStore, 'c, 'f) Options"
  assumes "sv_store (op_VMService A) = sqlite_ops" "q_runner q = Some (RunJob (op_VMService A))" "ready_on_conn A"
    and "sqlite_inv (w_store (a_world st))" "agent_step A q st st'"
  shows "(qstep (op_VMService A) sqlite_view sqlite_inv q)\<^sup>*\<^sup>* (queue_of st) (queue_of st')"
  by (rule agent_simulates [OF assms])

lemma agent_steps_inv:
  fixes A :: "(SQLiteStore, 'c, 'f) Options"
  assumes S: "sv_store (op_VMService A) = sqlite_ops" and q: "q_runner q = Some (RunJob (op_VMService A))"
    and A: "ready_on_conn A" and m: "0 < q_maxAttempts q"
    and inv: "queue_inv sqlite_view sqlite_inv (q_maxAttempts q) (queue_of st)" and steps: "(agent_step A q)\<^sup>*\<^sup>* st st'"
  shows "queue_inv sqlite_view sqlite_inv (q_maxAttempts q) (queue_of st') \<and>
    (\<forall>i j. sv_jobs (sqlite_view (w_store (a_world st))) i = Some j \<and> job_done (job_State j) \<longrightarrow>
       sv_jobs (sqlite_view (w_store (a_world st'))) i = Some j)"
  using steps
proof (induction rule: rtranclp_induct)
  case base
  then show ?case using inv by simp
next
  case (step st1 st2)
  have inv1: "queue_inv sqlite_view sqlite_inv (q_maxAttempts q) (queue_of st1)" using step.IH by blast
  then have "sqlite_inv (w_store (a_world st1))" by (simp add: queue_inv_def queue_of_def)
  from agent.qsteps_inv [where S = "op_VMService A", unfolded with_sqlite [OF S],
      OF agent_simulates [OF S q A this step.hyps(2)] inv1 m]
  show ?case using step.IH by (simp add: queue_of_def)
qed

text \<open>The process when its workers have just been launched.\<close>

definition launched :: "('l, 'd, 'f) agent_state \<Rightarrow> (SQLiteStore, ('l, 'd) any_conn, 'f) agent" where
  "launched ag = \<lparr>a_state = ag_state ag, a_running = [], a_stopped = False\<rparr>"

lemma launched_inv:
  assumes "Load (h_env H) (h_config H) (h_decode H) = Inr cfg"
    and "Open (h_exec H) (h_migrations H) (h_MkdirAll H) (h_sql_Open H) (cfg_StatePath cfg) = Inr db"
    and "sqlite_inv (q_schema db)"
    and "\<forall>i j. sv_jobs (sqlite_view (q_schema db)) i = Some j \<longrightarrow> 0 \<le> job_Attempts j \<and> job_Attempts j < maxJobAttempts"
    and "launch H = Inr ag"
  shows "queue_inv sqlite_view sqlite_inv maxJobAttempts (queue_of (launched ag)) \<and>
    sv_store (op_VMService (ag_options ag)) = sqlite_ops \<and> ready_on_conn (ag_options ag) \<and>
    q_runner (ag_queue ag) = Some (RunJob (op_VMService (ag_options ag))) \<and> q_maxAttempts (ag_queue ag) = maxJobAttempts"
proof -
  obtain m where m: "NewManager cfg = Inr m" by (rule NewManager_ok [OF Load_ok [OF assms(1)]])
  define S where "S = service_of H cfg m"
  define w where "w = first_world H (q_schema db) (ignore_err (co_Connect (any_ops (h_libvirt H)) (libvirt_New (lv_URI (cfg_Libvirt cfg)) (h_socket H))))"
  have S: "sv_store S = sqlite_ops" by (simp add: S_def service_of_def)
  have w: "sqlite_inv (w_store w)" "w_sched w = []" "w_timers w = []"
    "\<forall>i j. sv_jobs (sqlite_view (w_store w)) i = Some j \<longrightarrow> 0 \<le> job_Attempts j \<and> job_Attempts j < maxJobAttempts"
    using assms(3,4) by (simp_all add: w_def first_world_def)
  have "queue_inv sqlite_view sqlite_inv maxJobAttempts \<lparr>qs_world = queue_recover S w, qs_running = []\<rparr>"
    by (rule agent.recover_inv [where S = S, unfolded with_sqlite [OF S], OF w])
  then show ?thesis
    using launch_eq [OF assms(1,2) m] assms(5) S
    by (auto simp: launched_def queue_of_def S_def [symmetric] w_def [symmetric] SetRunner_def NewQueue_def ready_on_conn_def)
qed

text \<open>(C2) What always holds of the running agent. From start-up on, whatever requests arrive, however
  workers, timers and background loops interleave and whatever database statements fail: the
  database satisfies its constraints; each job id is at most once among the channel, the retry
  timers and the workers, so no job is run twice at once; a waiting job is recorded as queued and
  a running one as running; no job counts as many attempts as the maximum; and a job once settled
  is never changed again.\<close>

theorem agent_always_safe:
  assumes "Load (h_env H) (h_config H) (h_decode H) = Inr cfg"
    and "Open (h_exec H) (h_migrations H) (h_MkdirAll H) (h_sql_Open H) (cfg_StatePath cfg) = Inr db"
    and "sqlite_inv (q_schema db)"
    and "\<forall>i j. sv_jobs (sqlite_view (q_schema db)) i = Some j \<longrightarrow> 0 \<le> job_Attempts j \<and> job_Attempts j < maxJobAttempts"
    and "launch H = Inr ag"
    and "(agent_step (ag_options ag) (ag_queue ag))\<^sup>*\<^sup>* (launched ag) st"
    and "(agent_step (ag_options ag) (ag_queue ag))\<^sup>*\<^sup>* st st'"
  defines "jobs_in \<equiv> \<lambda>st. sv_jobs (sqlite_view (w_store (a_world st)))"
  shows "sqlite_inv (w_store (a_world st)) \<and> distinct (held (queue_of st)) \<and>
    (\<forall>i \<in> set (w_sched (a_world st)) \<union> fst ` set (w_timers (a_world st)). \<exists>j. jobs_in st i = Some j \<and> job_State j = JobQueued) \<and>
    (\<forall>(j, r) \<in> set (a_running st). \<exists>k. jobs_in st (job_ID j) = Some k \<and> job_State k = JobRunning) \<and>
    (\<forall>i j. jobs_in st i = Some j \<longrightarrow> job_Attempts j < maxJobAttempts) \<and>
    (\<forall>i j. jobs_in st i = Some j \<and> job_done (job_State j) \<longrightarrow> jobs_in st' i = Some j)"
proof -
  note l = launched_inv [OF assms(1-5)]
  have pos: "0 < q_maxAttempts (ag_queue ag)" using l by (simp add: maxJobAttempts_def)
  note step = agent_steps_inv [of "ag_options ag" "ag_queue ag", OF _ _ _ pos]
  have inv: "queue_inv sqlite_view sqlite_inv maxJobAttempts (queue_of st)"
    using step [OF _ _ _ _ assms(6)] l by simp
  then have "(\<forall>i j. jobs_in st i = Some j \<and> job_done (job_State j) \<longrightarrow> jobs_in st' i = Some j)"
    using step [OF _ _ _ _ assms(7)] l by (simp add: jobs_in_def)
  then show ?thesis using inv
    by (auto simp: queue_inv_def qinv_def held_def queue_of_def jobs_in_def)
qed

section \<open>The demonstration host\<close>

lemma demo_launched:
  obtains db ag where "Open (h_exec demo_host) (h_migrations demo_host) (h_MkdirAll demo_host) (h_sql_Open demo_host)
      (cfg_StatePath dev_config) = Inr db" "sqlite_inv (q_schema db)"
    "\<forall>i j. sv_jobs (sqlite_view (q_schema db)) i = Some j \<longrightarrow> 0 \<le> job_Attempts j \<and> job_Attempts j < maxJobAttempts"
    "launch demo_host = Inr ag"
proof -
  obtain db where db: "Open (h_exec demo_host) (h_migrations demo_host) (h_MkdirAll demo_host) (h_sql_Open demo_host)
      (cfg_StatePath dev_config) = Inr db" "q_schema db = w_store demo_jobs_world" by (rule demo_host_opens)
  obtain m where m: "NewManager dev_config = Inr m" by (rule NewManager_ok [OF dev_config_ok])
  show thesis
    by (rule that [OF db(1) _ _ launch_eq [OF demo_host_loads db(1) m]])
      (simp_all add: db(2) demo_jobs_ok demo_jobs_view demo_job_def maxJobAttempts_def)
qed

theorem agent_refines_queue_witness:
  "\<exists>ag st'. launch demo_host = Inr ag \<and> agent_step (ag_options ag) (ag_queue ag) (launched ag) st' \<and>
     (qstep (op_VMService (ag_options ag)) sqlite_view sqlite_inv (ag_queue ag))\<^sup>*\<^sup>* (queue_of (launched ag)) (queue_of st')"
proof -
  obtain db ag where d: "Open (h_exec demo_host) (h_migrations demo_host) (h_MkdirAll demo_host) (h_sql_Open demo_host)
      (cfg_StatePath dev_config) = Inr db" "sqlite_inv (q_schema db)"
    "\<forall>i j. sv_jobs (sqlite_view (q_schema db)) i = Some j \<longrightarrow> 0 \<le> job_Attempts j \<and> job_Attempts j < maxJobAttempts"
    and ag: "launch demo_host = Inr ag" by (rule demo_launched)
  note l = launched_inv [OF demo_host_loads d ag]
  have step: "agent_step (ag_options ag) (ag_queue ag) (launched ag)
      (in_world (accountTick (op_VMService (ag_options ag)) (a_world (launched ag))) (launched ag))"
    by (rule agent_step.ticks)
  have "sqlite_inv (w_store (a_world (launched ag)))" using l by (simp add: queue_inv_def queue_of_def)
  from agent_refines_queue [OF _ _ _ this step] l ag step show ?thesis by blast
qed

theorem agent_always_safe_witness:
  "\<exists>ag st. launch demo_host = Inr ag \<and> agent_step (ag_options ag) (ag_queue ag) (launched ag) st \<and>
     distinct (held (queue_of st)) \<and> sqlite_inv (w_store (a_world st))"
proof -
  obtain db ag where d: "Open (h_exec demo_host) (h_migrations demo_host) (h_MkdirAll demo_host) (h_sql_Open demo_host)
      (cfg_StatePath dev_config) = Inr db" "sqlite_inv (q_schema db)"
    "\<forall>i j. sv_jobs (sqlite_view (q_schema db)) i = Some j \<longrightarrow> 0 \<le> job_Attempts j \<and> job_Attempts j < maxJobAttempts"
    and ag: "launch demo_host = Inr ag" by (rule demo_launched)
  have step: "agent_step (ag_options ag) (ag_queue ag) (launched ag)
      (in_world (accountTick (op_VMService (ag_options ag)) (a_world (launched ag))) (launched ag))"
    by (rule agent_step.ticks)
  then have "(agent_step (ag_options ag) (ag_queue ag))\<^sup>*\<^sup>* (launched ag)
      (in_world (accountTick (op_VMService (ag_options ag)) (a_world (launched ag))) (launched ag))"
    by (rule r_into_rtranclp)
  from agent_always_safe [OF demo_host_loads d ag this rtranclp.rtrancl_refl] ag step
  show ?thesis by blast
qed

end
