(* ===== verification/Spec2Isabelle.thy ===== *)
theory Spec2Isabelle
  imports VmMeter VmLink ApiJson Agent
begin

text \<open>
  A verification library for \<open>kite-kvm\<close>, an agent that runs virtual machines on one libvirt
  host behind an HTTP API.

  \<^bold>\<open>The program.\<close> A request is authenticated, deduplicated by its idempotency key and handed to
  the VM service, which creates or changes a VM record and enqueues a job; a pool of workers runs
  jobs against the hypervisor with bounded retries; the store (SQLite) keeps VMs, jobs,
  idempotency keys and address allocations; the network manager gives addresses to VMs; the
  provisioner writes cloud-init documents, a disk overlay and a seed ISO; an accountant reads the
  traffic counters and cuts a VM that has used its quota; consoles are opened with single-use
  tokens.

  \<^bold>\<open>How the code is translated.\<close> A Go function is a HOL function of the same name on an explicit
  state; a method of the store works on the store's state, a method of the service on the
  \<open>world\<close> (store, hypervisor, file system, clock, random source, scheduled jobs, and the maps
  the service keeps in memory), an HTTP handler on the world and the console tokens. Errors are
  values (\<open>'a res\<close>) that keep their text and the sentinels they wrap. \<open>uint64\<close> is \<open>64 word\<close>,
  \<open>uint32\<close> is \<open>32 word\<close>, \<open>int\<close> is unbounded where the code cannot come near its bounds and checked
  where it is parsed; \<open>float64\<close> is a rational. A loop the code may not leave gives \<open>None\<close>.

  \<^bold>\<open>The theories\<close>, in the order of their imports:
  \<^item> \<open>Prelude\<close>: results, errors with \<open>errors.Is\<close>, text formatting, shared lemmas.
  \<^item> \<open>Model\<close> (\<open>internal/model\<close>): the records and enumerations.
  \<^item> \<open>Store\<close> (\<open>internal/store\<close>): the tables, every operation with its failing statements, the
    contracts \<open>store_api\<close> (what an operation does when it returns) and \<open>calm_store\<close> (a database
    that answers), and the refinement of the tables to the abstract view.
  \<^item> \<open>GoNet\<close>: the part of Go's \<open>net\<close> package the code uses (addresses, prefixes).
  \<^item> \<open>Config\<close> (\<open>internal/config\<close>, \<open>internal/catalog\<close>): loading and validating the configuration.
  \<^item> \<open>Conn\<close> (\<open>internal/libvirt/conn.go\<close>, \<open>fake.go\<close>): the hypervisor interface, its contracts and
    the in-memory implementation.
  \<^item> \<open>LibvirtConn\<close> (\<open>libvirtconn.go\<close>): the connection to libvirtd with its lazy reconnection, error
    mapping, documents and statistics, over a parameter for the RPC client. \<open>LibvirtRefine\<close>: what
    a daemon promises (locales \<open>libvirtd\<close>, \<open>libvirtd_up\<close>), and that the connection then meets the
    contracts of \<open>Conn\<close>.
  \<^item> \<open>Migrations\<close> (\<open>internal/store/migrations.go\<close>, \<open>Open\<close>): reading, ordering and applying the schema
    migrations.
  \<^item> \<open>DomainXml\<close> (\<open>internal/domainxml\<close>): the typed domain description.
  \<^item> \<open>World\<close>: the service's dependencies and the state its operations thread; the store's
    contract lifted to it (\<open>service_store\<close>, \<open>service_calm\<close>). \<open>Demo\<close>: a concrete agent for the
    witnesses.
  \<^item> \<open>Network\<close> (\<open>internal/network\<close>): both allocation strategies and address enumeration, with the
    contract \<open>allocator\<close> both meet.
  \<^item> \<open>Provision\<close> (\<open>internal/provision\<close>): cloud-init documents, overlay and seed ISO.
  \<^item> \<open>JobQueue\<close> (\<open>internal/job\<close>): the queue, its interleavings as an inductive step relation,
    retries and recovery.
  \<^item> \<open>Console\<close> (\<open>internal/console\<close>): single-use tokens.
  \<^item> \<open>VmValidate\<close> (\<open>internal/vm/validate.go\<close>): validation of guest-supplied values.
  \<^item> \<open>VmService\<close>, \<open>VmLifecycle\<close> (\<open>internal/vm/service.go\<close>, \<open>host.go\<close>): creation, termination,
    listing, admission; what a create or terminate job leaves behind.
  \<^item> \<open>VmTraffic\<close>, \<open>VmAccounting\<close> (\<open>traffic.go\<close>, \<open>stats.go\<close>): counters, quotas, blocks, the
    accounting loop. \<open>VmMeter\<close>: what any number of its rounds records.
  \<^item> \<open>VmOps\<close>, \<open>VmGuards\<close> (\<open>power.go\<close>, \<open>suspend.go\<close>, \<open>rebuild.go\<close>, \<open>resize.go\<close>, \<open>snapshot.go\<close>,
    \<open>console.go\<close>): the operations on an existing VM. \<open>VmOutcome\<close>: what the power, rebuild
    and resize jobs leave behind on every branch, by rules for the end of a job
    (\<open>job_ends\<close>). \<open>VmLink\<close>: how far the link of a VM's interface follows its block, over the
    contract \<open>link_conn\<close>.
  \<^item> \<open>JobFrame\<close>: what running any job may change, as a judgement with one rule per construct
    (locale \<open>job_env\<close>). \<open>VmRun\<close> (\<open>service.go\<close>, \<open>reconcile.go\<close>): the dispatcher, start-up
    reconciliation, and the queue running the service's jobs.
  \<^item> \<open>GoJson\<close>: the part of \<open>encoding/json\<close> the API uses; \<open>GoJsonProps\<close>: what is encoded decodes to the
    same value. \<open>Api\<close> (\<open>internal/api\<close>): every endpoint, the middlewares and the route table.
    \<open>RequestFrame\<close>: what serving any request may change, as a judgement with one rule per construct
    (locales \<open>request_env\<close>, \<open>serving_env\<close>). \<open>ApiProps\<close>, \<open>ApiJson\<close>: what the API guarantees.
  \<^item> \<open>Startup\<close> (\<open>cmd/kite-kvm/main.go\<close>, \<open>factory.go\<close>, \<open>internal/api/server.go\<close>): the choice of the
    connection, start-up from configuration to recovery, the periodic sweep, the end of the
    process.
  \<^item> \<open>Agent\<close> (\<open>Queue.worker\<close>, \<open>Queue.Stop\<close>, the goroutines \<open>run\<close> starts): the whole process as a step
    relation. A worker's round is three steps (claim, run, settle), so jobs overlap with each other
    and with everything else; a request, a job's run, an accounting tick, a sweep and the
    reconciliation are one step each.

  \<^bold>\<open>What is shown.\<close> The process: whatever requests arrive and however it interleaves with workers,
  timers and background loops, with any database statement failing, the agent moves the jobs by
  the queue's own steps only, so at most one worker runs a job and a settled job never changes.
  Jobs: a job settles within its attempts, a restart settles every interrupted job, a job touches
  the rows of its own VM only. VMs: a create job ends with a running VM or with nothing left behind, a
  terminate job releases domain, volumes, lease and address; a power job records the
  state the domain has, a rebuild or resize ends as it should or failed, with the VM's identity
  kept; creation stays within the admitted
  capacity; requests on a VM that is gone are refused. Addresses are never given twice. Traffic is
  counted exactly, in a round (with counter resets and 64-bit wrap-around) and over any number of
  rounds; a VM over its quota is blocked, and the link of a running VM follows its block.
  API: nothing below \<open>/v1\<close> is reached without permission, a repeated request never acts twice,
  internal errors do not leak, every response body is a JSON object, an expired
  idempotency key is free again after the sweep, a console token leads once to the console it was issued for.
  Start-up: interrupted migrations resume where they stopped; start-up settles every job and VM the
  last run left; the libvirt connection keeps the contract the service's guarantees rest on, on a
  daemon that behaves as documented.

  \<^bold>\<open>Bounds and fuel.\<close> The JSON reader recurses with fuel \<open>2 * length + 2\<close>: each level consumes a
  byte and is entered at most twice per byte. \<open>expandCIDRHosts\<close> runs on 32-bit words with fuel
  that covers every address of the block; the blocks on which the code loops are characterised.

  \<^bold>\<open>Parameters\<close> stand for code outside the repository: the go-libvirt client and the decoding of the
  two XML documents it returns, SHA-256, path matching of the router, the YAML decoder, the XML
  marshaller, the ISO writer, the file system, the SQL driver's effect on the schema, the SSH key
  parser and the printing of floats and times. \<open>sort.Slice\<close> is a stable sort, as it is for slices of
  up to twelve elements; the versions it sorts are distinct.

  \<^bold>\<open>Not modelled.\<close> Sockets, TLS, the byte stream of a console, process signals and flags,
  the recovery from a panic and the log of the service: calls of libraries with no logic of the
  repository around them. (The line the router logs for a request is modelled.)
\<close>

end
